theory Spec2Isabelle
  imports Main
begin

section \<open>Memory: array allocations, pointers, faults\<close>

text \<open>
  The container keeps its elements in arrays obtained from \<^verbatim>\<open>new Type[n]{}\<close> and
  released by \<^verbatim>\<open>delete[]\<close>. The heap is the list of all arrays ever allocated: the
  address of an array is its position in that list, a live array is \<open>Some xs\<close>, a
  deleted one is \<open>None\<close>. Addresses are never reused and memory is unbounded
  (\<^verbatim>\<open>std::bad_alloc\<close> is not modelled).

  Sizes and indices are \<^verbatim>\<open>size_t\<close> in the source and \<open>nat\<close> here. A capacity
  is always the length of a live allocation, which is at most \<^verbatim>\<open>PTRDIFF_MAX\<close>
  elements, so \<^verbatim>\<open>capacity_ * 2\<close> and \<^verbatim>\<open>size_ + 1\<close> do not wrap around.
  Decrements are guarded in the model wherever the source can reach them at zero.
\<close>

type_synonym addr = nat

type_synonym 'a heap = "'a list option list"

text \<open>
  What an operation can end in instead of returning: the exception
  \<^verbatim>\<open>std::out_of_range\<close>, a failed \<^verbatim>\<open>assert\<close> (debug build), or undefined
  behaviour (an access outside a live allocation, arithmetic or comparison on pointers
  that do not belong to one array).
\<close>

datatype error = out_of_range | assertion_failed | undefined_behaviour

definition bind_result :: "error + 'a \<Rightarrow> ('a \<Rightarrow> error + 'b) \<Rightarrow> error + 'b" where
  "bind_result m f = (case m of Inl e \<Rightarrow> Inl e | Inr x \<Rightarrow> f x)"

text \<open>A \<^verbatim>\<open>Type *\<close>: the array it points into (\<open>None\<close> for a null base) and the index.\<close>

datatype ptr = Ptr (base: "addr option") (off: nat)

definition nullptr :: ptr where
  "nullptr = Ptr None 0"

definition block :: "'a heap \<Rightarrow> addr option \<Rightarrow> 'a list option" where
  "block h raw = (case raw of None \<Rightarrow> None
                  | Some a \<Rightarrow> if a < length h then h ! a else None)"

definition load :: "'a heap \<Rightarrow> ptr \<Rightarrow> error + 'a" where
  "load h p = (case block h (base p) of
                 None \<Rightarrow> Inl undefined_behaviour
               | Some xs \<Rightarrow> if off p < length xs then Inr (xs ! off p)
                            else Inl undefined_behaviour)"

definition store :: "'a heap \<Rightarrow> ptr \<Rightarrow> 'a \<Rightarrow> error + 'a heap" where
  "store h p x = (case block h (base p) of
                    None \<Rightarrow> Inl undefined_behaviour
                  | Some xs \<Rightarrow> if off p < length xs
                               then Inr (h[the (base p) := Some (xs[off p := x])])
                               else Inl undefined_behaviour)"

text \<open>\<^verbatim>\<open>new Type[n]{}\<close>: a fresh array of \<open>n\<close> value-initialised elements.\<close>

definition new_array :: "'a::default heap \<Rightarrow> nat \<Rightarrow> 'a heap \<times> addr" where
  "new_array h n = (h @ [Some (replicate n default)], length h)"

text \<open>\<^verbatim>\<open>delete[] p\<close>: nothing for a null pointer, undefined for a dead one.\<close>

definition delete_array :: "'a heap \<Rightarrow> addr option \<Rightarrow> error + 'a heap" where
  "delete_array h raw = (case raw of None \<Rightarrow> Inr h
     | Some a \<Rightarrow> (case block h raw of None \<Rightarrow> Inl undefined_behaviour
                                    | Some xs \<Rightarrow> Inr (h[a := None])))"

definition ptr_add :: "ptr \<Rightarrow> nat \<Rightarrow> ptr" where
  "ptr_add p n = Ptr (base p) (off p + n)"

definition ptr_sub :: "ptr \<Rightarrow> nat \<Rightarrow> error + ptr" where
  "ptr_sub p n = (if n \<le> off p then Inr (Ptr (base p) (off p - n))
                  else Inl undefined_behaviour)"

text \<open>
  \<open>p - q\<close> stored in a \<^verbatim>\<open>size_t\<close>. Pointers into different arrays, and a negative
  difference (which would become an index beyond every allocation), are faults.
\<close>

definition ptr_diff :: "ptr \<Rightarrow> ptr \<Rightarrow> error + nat" where
  "ptr_diff p q = (if base p = base q \<and> off q \<le> off p then Inr (off p - off q)
                   else Inl undefined_behaviour)"

definition ptr_less :: "ptr \<Rightarrow> ptr \<Rightarrow> error + bool" where
  "ptr_less p q = (if base p = base q then Inr (off p < off q)
                   else Inl undefined_behaviour)"

definition ptr_le :: "ptr \<Rightarrow> ptr \<Rightarrow> error + bool" where
  "ptr_le p q = (if base p = base q then Inr (off p \<le> off q)
                 else Inl undefined_behaviour)"

text \<open>
  A \<^verbatim>\<open>const Type &\<close> or \<^verbatim>\<open>Type &&\<close> parameter. The object it is bound to is
  either outside every array of the heap (a local variable, a temporary, a literal), and
  then no operation on a vector can change or destroy it, or it is an element of an
  array of the heap, and then it is read through its address at the moment the callee
  uses the parameter: a read after the array has been deleted is undefined behaviour,
  and a read after the element has been overwritten gives the new value.
\<close>

datatype 'a reference = Outside 'a | Element ptr

definition deref :: "'a heap \<Rightarrow> 'a reference \<Rightarrow> error + 'a" where
  "deref h r = (case r of Outside x \<Rightarrow> Inr x | Element p \<Rightarrow> load h p)"

section \<open>The algorithms of the standard library the container calls\<close>

text \<open>
  \<^verbatim>\<open>std::copy(first, last, d_first)\<close> is
  \<^verbatim>\<open>while (first != last) *d_first++ = *first++;\<close>. The elements are values here, so
  \<^verbatim>\<open>std::move(first, last, d_first)\<close> is the same loop. Every caller in the source
  discards the iterator these two return.
\<close>

fun copy_loop :: "'a heap \<Rightarrow> ptr \<Rightarrow> ptr \<Rightarrow> nat \<Rightarrow> error + 'a heap" where
  "copy_loop h first d_first 0 = Inr h"
| "copy_loop h first d_first (Suc n) =
     (case load h first of Inl e \<Rightarrow> Inl e
      | Inr x \<Rightarrow> (case store h d_first x of Inl e \<Rightarrow> Inl e
                  | Inr h' \<Rightarrow> copy_loop h' (ptr_add first 1) (ptr_add d_first 1) n))"

definition std_copy :: "'a heap \<Rightarrow> ptr \<Rightarrow> ptr \<Rightarrow> ptr \<Rightarrow> error + 'a heap" where
  "std_copy h first lst d_first =
     bind_result (ptr_diff lst first) (\<lambda>n. copy_loop h first d_first n)"

definition std_move :: "'a heap \<Rightarrow> ptr \<Rightarrow> ptr \<Rightarrow> ptr \<Rightarrow> error + 'a heap" where
  "std_move h first lst d_first = std_copy h first lst d_first"

text \<open>
  \<^verbatim>\<open>std::copy_backward(first, last, d_last)\<close> is
  \<^verbatim>\<open>while (first != last) *(--d_last) = *(--last); return d_last;\<close>
  and \<^verbatim>\<open>std::move_backward\<close> is the same loop on values.
\<close>

fun copy_backward_loop :: "'a heap \<Rightarrow> ptr \<Rightarrow> ptr \<Rightarrow> nat \<Rightarrow> error + ('a heap \<times> ptr)" where
  "copy_backward_loop h lst d_last 0 = Inr (h, d_last)"
| "copy_backward_loop h lst d_last (Suc n) =
     (case ptr_sub lst 1 of Inl e \<Rightarrow> Inl e
      | Inr lst' \<Rightarrow> (case ptr_sub d_last 1 of Inl e \<Rightarrow> Inl e
      | Inr d_last' \<Rightarrow> (case load h lst' of Inl e \<Rightarrow> Inl e
      | Inr x \<Rightarrow> (case store h d_last' x of Inl e \<Rightarrow> Inl e
      | Inr h' \<Rightarrow> copy_backward_loop h' lst' d_last' n))))"

definition std_copy_backward :: "'a heap \<Rightarrow> ptr \<Rightarrow> ptr \<Rightarrow> ptr \<Rightarrow> error + ('a heap \<times> ptr)" where
  "std_copy_backward h first lst d_last =
     bind_result (ptr_diff lst first) (\<lambda>n. copy_backward_loop h lst d_last n)"

definition std_move_backward :: "'a heap \<Rightarrow> ptr \<Rightarrow> ptr \<Rightarrow> ptr \<Rightarrow> error + ('a heap \<times> ptr)" where
  "std_move_backward h first lst d_last = std_copy_backward h first lst d_last"

text \<open>\<^verbatim>\<open>std::fill(first, last, value)\<close>: \<^verbatim>\<open>for (; first != last; ++first) *first = value;\<close>\<close>

fun fill_loop :: "'a heap \<Rightarrow> ptr \<Rightarrow> nat \<Rightarrow> 'a \<Rightarrow> error + 'a heap" where
  "fill_loop h first 0 v = Inr h"
| "fill_loop h first (Suc n) v =
     (case store h first v of Inl e \<Rightarrow> Inl e
      | Inr h' \<Rightarrow> fill_loop h' (ptr_add first 1) n v)"

definition std_fill :: "'a heap \<Rightarrow> ptr \<Rightarrow> ptr \<Rightarrow> 'a \<Rightarrow> error + 'a heap" where
  "std_fill h first lst v = bind_result (ptr_diff lst first) (\<lambda>n. fill_loop h first n v)"

text \<open>
  \<^verbatim>\<open>std::equal(first1, last1, first2, last2)\<close> on random-access iterators: false when
  the two ranges differ in length, otherwise the element-wise comparison.
\<close>

fun equal_loop :: "'a heap \<Rightarrow> ptr \<Rightarrow> ptr \<Rightarrow> nat \<Rightarrow> error + bool" where
  "equal_loop h first1 first2 0 = Inr True"
| "equal_loop h first1 first2 (Suc n) =
     (case load h first1 of Inl e \<Rightarrow> Inl e
      | Inr x \<Rightarrow> (case load h first2 of Inl e \<Rightarrow> Inl e
                  | Inr y \<Rightarrow> if x = y then equal_loop h (ptr_add first1 1) (ptr_add first2 1) n
                             else Inr False))"

definition std_equal :: "'a heap \<Rightarrow> ptr \<Rightarrow> ptr \<Rightarrow> ptr \<Rightarrow> ptr \<Rightarrow> error + bool" where
  "std_equal h first1 last1 first2 last2 =
     bind_result (ptr_diff last1 first1) (\<lambda>n1.
     bind_result (ptr_diff last2 first2) (\<lambda>n2.
       if n1 \<noteq> n2 then Inr False else equal_loop h first1 first2 n1))"

text \<open>Copying the elements of an initializer list into an array.\<close>

fun copy_from_list :: "'a heap \<Rightarrow> 'a list \<Rightarrow> ptr \<Rightarrow> error + 'a heap" where
  "copy_from_list h [] d_first = Inr h"
| "copy_from_list h (x # xs) d_first =
     (case store h d_first x of Inl e \<Rightarrow> Inl e
      | Inr h' \<Rightarrow> copy_from_list h' xs (ptr_add d_first 1))"

section \<open>ArrayPtr (array\_ptr.h)\<close>

record ArrayPtr =
  raw_ptr_m :: "addr option"

text \<open>\<^verbatim>\<open>ArrayPtr() = default\<close>, with the member initialiser \<^verbatim>\<open>raw_ptr_ = nullptr\<close>.\<close>

definition ArrayPtr_default :: ArrayPtr where
  "ArrayPtr_default = \<lparr>raw_ptr_m = None\<rparr>"

text \<open>\<^verbatim>\<open>explicit ArrayPtr(size_t size)\<close>\<close>

definition ArrayPtr_size :: "'a::default heap \<Rightarrow> nat \<Rightarrow> 'a heap \<times> ArrayPtr" where
  "ArrayPtr_size h n =
     (if n > 0 then (let (h', tmp_ptr) = new_array h n in (h', \<lparr>raw_ptr_m = Some tmp_ptr\<rparr>))
      else (h, ArrayPtr_default))"

text \<open>\<^verbatim>\<open>explicit ArrayPtr(Type *raw_ptr)\<close>\<close>

definition ArrayPtr_raw :: "addr option \<Rightarrow> ArrayPtr" where
  "ArrayPtr_raw raw_ptr = \<lparr>raw_ptr_m = raw_ptr\<rparr>"

text \<open>The defaulted copy constructor and copy assignment: the pointer is copied.\<close>

definition ArrayPtr_copy :: "ArrayPtr \<Rightarrow> ArrayPtr" where
  "ArrayPtr_copy other = \<lparr>raw_ptr_m = raw_ptr_m other\<rparr>"

text \<open>
  \<^verbatim>\<open>ArrayPtr(ArrayPtr &&other)\<close>:
  \<^verbatim>\<open>raw_ptr_ = std::exchange(other.raw_ptr_, nullptr)\<close>. The result is the new
  object and the source as it is left.
\<close>

definition ArrayPtr_move :: "ArrayPtr \<Rightarrow> ArrayPtr \<times> ArrayPtr" where
  "ArrayPtr_move other =
     (let old = raw_ptr_m other; other' = other\<lparr>raw_ptr_m := None\<rparr>
      in (\<lparr>raw_ptr_m = old\<rparr>, other'))"

text \<open>
  Operations on two \<^verbatim>\<open>ArrayPtr\<close> objects that may be one and the same object act on a
  store of objects, addressed by object identity.
\<close>

type_synonym ArrayPtr_store = "nat \<Rightarrow> ArrayPtr"

text \<open>\<^verbatim>\<open>void swap(ArrayPtr &other)\<close>: \<^verbatim>\<open>std::swap(raw_ptr_, other.raw_ptr_)\<close>\<close>

definition ArrayPtr_swap :: "ArrayPtr_store \<Rightarrow> nat \<Rightarrow> nat \<Rightarrow> ArrayPtr_store" where
  "ArrayPtr_swap s this other =
     (let tmp = raw_ptr_m (s this);
          s1 = s(this := (s this)\<lparr>raw_ptr_m := raw_ptr_m (s other)\<rparr>);
          s2 = s1(other := (s1 other)\<lparr>raw_ptr_m := tmp\<rparr>)
      in s2)"

text \<open>\<^verbatim>\<open>ArrayPtr &operator=(ArrayPtr &&other)\<close>\<close>

definition ArrayPtr_move_assign :: "ArrayPtr_store \<Rightarrow> nat \<Rightarrow> nat \<Rightarrow> ArrayPtr_store" where
  "ArrayPtr_move_assign s this other =
     (if raw_ptr_m (s this) = raw_ptr_m (s other) then s
      else ArrayPtr_swap s this other)"

text \<open>\<^verbatim>\<open>~ArrayPtr()\<close>: \<^verbatim>\<open>delete[] raw_ptr_\<close>\<close>

definition ArrayPtr_destroy :: "'a heap \<Rightarrow> ArrayPtr \<Rightarrow> error + 'a heap" where
  "ArrayPtr_destroy h p = delete_array h (raw_ptr_m p)"

definition Release :: "ArrayPtr \<Rightarrow> addr option \<times> ArrayPtr" where
  "Release p = (let tmp = raw_ptr_m p in (tmp, p\<lparr>raw_ptr_m := None\<rparr>))"

text \<open>\<^verbatim>\<open>operator[]\<close> returns the reference \<^verbatim>\<open>*(raw_ptr_ + index)\<close>, a place in memory.\<close>

definition ArrayPtr_index :: "ArrayPtr \<Rightarrow> nat \<Rightarrow> ptr" where
  "ArrayPtr_index p index = Ptr (raw_ptr_m p) index"

definition ArrayPtr_bool :: "ArrayPtr \<Rightarrow> bool" where
  "ArrayPtr_bool p = (\<not> (raw_ptr_m p = None))"

definition Get :: "ArrayPtr \<Rightarrow> ptr" where
  "Get p = Ptr (raw_ptr_m p) 0"

text \<open>The swap of two distinct objects (a member and a local), on the two values.\<close>

definition ArrayPtr_swap_distinct :: "ArrayPtr \<Rightarrow> ArrayPtr \<Rightarrow> ArrayPtr \<times> ArrayPtr" where
  "ArrayPtr_swap_distinct a b =
     (let s = ArrayPtr_swap (\<lambda>i. if i = 0 then a else b) 0 1 in (s 0, s 1))"

section \<open>ReserveProxyObj and SimpleVector: what both drafts share\<close>

text \<open>
  The two drafts of the vector header (part\_000, the one with the assertions, and
  part\_001) have the same text for everything in this section. Where they differ, the
  definition of part\_000 keeps the source's name and the one of part\_001 carries the
  suffix \<open>_001\<close>.
\<close>

record ReserveProxyObj =
  capacity_to_reserve_m :: nat

definition ReserveProxyObj_value :: "nat \<Rightarrow> ReserveProxyObj" where
  "ReserveProxyObj_value v = \<lparr>capacity_to_reserve_m = v\<rparr>"

definition ReserveProxyObj_GetCapacity :: "ReserveProxyObj \<Rightarrow> nat" where
  "ReserveProxyObj_GetCapacity r = capacity_to_reserve_m r"

text \<open>The free function \<^verbatim>\<open>Reserve(size_t capacity_to_reserve)\<close>.\<close>

definition Reserve_proxy :: "nat \<Rightarrow> ReserveProxyObj" where
  "Reserve_proxy capacity_to_reserve = ReserveProxyObj_value capacity_to_reserve"

record SimpleVector =
  items_m :: ArrayPtr
  size_m :: nat
  capacity_m :: nat

text \<open>\<^verbatim>\<open>SimpleVector() noexcept = default\<close>\<close>

definition SimpleVector_default :: SimpleVector where
  "SimpleVector_default = \<lparr>items_m = ArrayPtr_default, size_m = 0, capacity_m = 0\<rparr>"

definition GetSize :: "SimpleVector \<Rightarrow> nat" where
  "GetSize v = size_m v"

definition GetCapacity :: "SimpleVector \<Rightarrow> nat" where
  "GetCapacity v = capacity_m v"

definition IsEmpty :: "SimpleVector \<Rightarrow> bool" where
  "IsEmpty v = (size_m v = 0)"

text \<open>\<^verbatim>\<open>begin()\<close>, \<^verbatim>\<open>cbegin()\<close> and \<^verbatim>\<open>end()\<close>, \<^verbatim>\<open>cend()\<close>\<close>

definition begin_it :: "SimpleVector \<Rightarrow> ptr" where
  "begin_it v = Get (items_m v)"

definition end_it :: "SimpleVector \<Rightarrow> ptr" where
  "end_it v = ptr_add (Get (items_m v)) (size_m v)"

definition cbegin :: "SimpleVector \<Rightarrow> ptr" where
  "cbegin v = Get (items_m v)"

definition cend :: "SimpleVector \<Rightarrow> ptr" where
  "cend v = ptr_add (Get (items_m v)) (size_m v)"

text \<open>\<^verbatim>\<open>explicit SimpleVector(size_t size)\<close>\<close>

definition SimpleVector_size :: "'a::default heap \<Rightarrow> nat \<Rightarrow> 'a heap \<times> SimpleVector" where
  "SimpleVector_size h n =
     (let (h', items) = ArrayPtr_size h n
      in (h', \<lparr>items_m = items, size_m = n, capacity_m = n\<rparr>))"

text \<open>
  \<^verbatim>\<open>SimpleVector(size_t size, const Type &value)\<close>. The constructor only reads its
  argument, and writes to nothing but the array it has just allocated, which the argument
  cannot be bound in: the argument is given by its value.
\<close>

definition SimpleVector_size_value ::
  "'a::default heap \<Rightarrow> nat \<Rightarrow> 'a \<Rightarrow> error + ('a heap \<times> SimpleVector)" where
  "SimpleVector_size_value h n val =
     (let (h', v) = SimpleVector_size h n
      in if n = 0 then Inr (h', v)
         else bind_result (std_fill h' (begin_it v) (end_it v) val) (\<lambda>h''. Inr (h'', v)))"

text \<open>\<^verbatim>\<open>SimpleVector(std::initializer_list<Type> init)\<close>\<close>

definition SimpleVector_init ::
  "'a::default heap \<Rightarrow> 'a list \<Rightarrow> error + ('a heap \<times> SimpleVector)" where
  "SimpleVector_init h init =
     (let (h', v) = SimpleVector_size h (length init)
      in bind_result (copy_from_list h' init (Get (items_m v))) (\<lambda>h''. Inr (h'', v)))"

text \<open>\<^verbatim>\<open>SimpleVector(const SimpleVector &other)\<close>\<close>

definition SimpleVector_copy ::
  "'a::default heap \<Rightarrow> SimpleVector \<Rightarrow> error + ('a heap \<times> SimpleVector)" where
  "SimpleVector_copy h other =
     (let (h', items) = ArrayPtr_size h (GetCapacity other);
          v = \<lparr>items_m = items, size_m = GetSize other, capacity_m = GetCapacity other\<rparr>
      in bind_result (std_copy h' (begin_it other) (end_it other) (Get (items_m v)))
           (\<lambda>h''. Inr (h'', v)))"

text \<open>The implicit destructor destroys the member \<^verbatim>\<open>items_\<close>.\<close>

definition SimpleVector_destroy :: "'a heap \<Rightarrow> SimpleVector \<Rightarrow> error + 'a heap" where
  "SimpleVector_destroy h v = ArrayPtr_destroy h (items_m v)"

text \<open>
  \<^verbatim>\<open>void swap(SimpleVector &other)\<close>, member by member, on a store of vector objects:
  \<open>this\<close> and \<open>other\<close> may be the same object.
\<close>

type_synonym SimpleVector_store = "nat \<Rightarrow> SimpleVector"

definition swap_member ::
  "('o \<Rightarrow> 'f) \<Rightarrow> ('f \<Rightarrow> 'o \<Rightarrow> 'o) \<Rightarrow> (nat \<Rightarrow> 'o) \<Rightarrow> nat \<Rightarrow> nat \<Rightarrow> (nat \<Rightarrow> 'o)" where
  "swap_member get put s a b =
     (let tmp = get (s a);
          s1 = s(a := put (get (s b)) (s a));
          s2 = s1(b := put tmp (s1 b))
      in s2)"

definition swap :: "SimpleVector_store \<Rightarrow> nat \<Rightarrow> nat \<Rightarrow> SimpleVector_store" where
  "swap s this other =
     (let s1 = swap_member (\<lambda>v. raw_ptr_m (items_m v))
                 (\<lambda>r v. v\<lparr>items_m := (items_m v)\<lparr>raw_ptr_m := r\<rparr>\<rparr>) s this other;
          s2 = swap_member size_m (\<lambda>n v. v\<lparr>size_m := n\<rparr>) s1 this other;
          s3 = swap_member capacity_m (\<lambda>n v. v\<lparr>capacity_m := n\<rparr>) s2 this other
      in s3)"

text \<open>The same swap when the other vector is a local of the caller, on the two values.\<close>

definition swap_distinct :: "SimpleVector \<Rightarrow> SimpleVector \<Rightarrow> SimpleVector \<times> SimpleVector" where
  "swap_distinct a b = (let s = swap (\<lambda>i. if i = 0 then a else b) 0 1 in (s 0, s 1))"

text \<open>\<^verbatim>\<open>operator==\<close>\<close>

definition operator_eq :: "'a heap \<Rightarrow> SimpleVector \<Rightarrow> SimpleVector \<Rightarrow> error + bool" where
  "operator_eq h lhs rhs = std_equal h (begin_it lhs) (end_it lhs) (begin_it rhs) (end_it rhs)"

text \<open>
  The loop of \<^verbatim>\<open>Resize\<close>:
  \<^verbatim>\<open>for (size_t i = size_; i < new_size; ++i) items_[i] = Type{};\<close>
\<close>

function Resize_fill :: "'a::default heap \<Rightarrow> ArrayPtr \<Rightarrow> nat \<Rightarrow> nat \<Rightarrow> error + 'a heap" where
  "Resize_fill h items i new_size =
     (if i < new_size
      then (case store h (ArrayPtr_index items i) default of Inl e \<Rightarrow> Inl e
            | Inr h' \<Rightarrow> Resize_fill h' items (Suc i) new_size)
      else Inr h)"
  by pat_completeness auto
termination
  by (relation "measure (\<lambda>(h, items, i, new_size). new_size - i)") auto

text \<open>
  The reallocation that \<^verbatim>\<open>Resize\<close> and \<^verbatim>\<open>Reserve\<close> both spell out:
  \<^verbatim>\<open>ArrayPtr<Type> temp(new_capacity); std::move(begin(), end(), temp.Get());
  items_.swap(temp); capacity_ = new_capacity;\<close>, and \<^verbatim>\<open>temp\<close>, which now holds
  the old array, destroyed at the end of its block.
\<close>

definition reallocate ::
  "'a::default heap \<Rightarrow> SimpleVector \<Rightarrow> nat \<Rightarrow> error + ('a heap \<times> SimpleVector)" where
  "reallocate h v new_capacity =
     (let (h1, temp) = ArrayPtr_size h new_capacity
      in bind_result (std_move h1 (begin_it v) (end_it v) (Get temp)) (\<lambda>h2.
           let (items', temp') = ArrayPtr_swap_distinct (items_m v) temp;
               v1 = v\<lparr>items_m := items', capacity_m := new_capacity\<rparr>
           in bind_result (ArrayPtr_destroy h2 temp') (\<lambda>h3. Inr (h3, v1))))"

text \<open>\<^verbatim>\<open>void Reserve(size_t new_capacity)\<close>\<close>

definition Reserve ::
  "'a::default heap \<Rightarrow> SimpleVector \<Rightarrow> nat \<Rightarrow> error + ('a heap \<times> SimpleVector)" where
  "Reserve h v new_capacity =
     (if capacity_m v < new_capacity then reallocate h v new_capacity else Inr (h, v))"

text \<open>\<^verbatim>\<open>SimpleVector(ReserveProxyObj rhs)\<close>\<close>

definition SimpleVector_reserve ::
  "'a::default heap \<Rightarrow> ReserveProxyObj \<Rightarrow> error + ('a heap \<times> SimpleVector)" where
  "SimpleVector_reserve h rhs = Reserve h SimpleVector_default (ReserveProxyObj_GetCapacity rhs)"

text \<open>\<^verbatim>\<open>void Clear() noexcept\<close>\<close>

definition Clear :: "SimpleVector \<Rightarrow> SimpleVector" where
  "Clear v = v\<lparr>size_m := 0\<rparr>"

text \<open>
  \<^verbatim>\<open>At(size_t index)\<close>, both overloads: the exception, or the reference
  \<^verbatim>\<open>items_[index]\<close>. The body assigns to nothing, so the vector and the heap after
  the call are the ones before it, whether it returns or throws.
\<close>

definition At :: "SimpleVector \<Rightarrow> nat \<Rightarrow> error + ptr" where
  "At v index = (if index \<ge> size_m v then Inl out_of_range
                 else Inr (ArrayPtr_index (items_m v) index))"

section \<open>SimpleVector, part\_000\<close>

text \<open>\<^verbatim>\<open>void Resize(size_t new_size)\<close>\<close>

definition Resize ::
  "'a::default heap \<Rightarrow> SimpleVector \<Rightarrow> nat \<Rightarrow> error + ('a heap \<times> SimpleVector)" where
  "Resize h v new_size =
     bind_result
       (if new_size > capacity_m v
        then (let new_capacity = max new_size (if capacity_m v = 0 then 1 else capacity_m v * 2)
              in reallocate h v new_capacity)
        else if new_size > size_m v
        then bind_result (Resize_fill h (items_m v) (size_m v) new_size) (\<lambda>h1. Inr (h1, v))
        else Inr (h, v))
       (\<lambda>(h', v'). Inr (h', v'\<lparr>size_m := new_size\<rparr>))"

text \<open>The private \<^verbatim>\<open>void ResizeCurrentVector()\<close>\<close>

definition ResizeCurrentVector ::
  "'a::default heap \<Rightarrow> SimpleVector \<Rightarrow> error + ('a heap \<times> SimpleVector)" where
  "ResizeCurrentVector h v =
     (if capacity_m v \<le> size_m v then Resize h v (size_m v + 1)
      else Inr (h, v\<lparr>size_m := size_m v + 1\<rparr>))"

text \<open>
  \<^verbatim>\<open>void PushBack(const Type &item)\<close> and \<^verbatim>\<open>void PushBack(Type &&item)\<close>:
  \<^verbatim>\<open>ResizeCurrentVector(); items_[size_ - 1] = item;\<close>. The parameter is a
  reference, and the body reads it in the assignment, after
  \<^verbatim>\<open>ResizeCurrentVector\<close> has run (and has deleted the old array, when it had to
  grow).
\<close>

definition PushBack ::
  "'a::default heap \<Rightarrow> SimpleVector \<Rightarrow> 'a reference \<Rightarrow> error + ('a heap \<times> SimpleVector)" where
  "PushBack h v item =
     bind_result (ResizeCurrentVector h v) (\<lambda>(h1, v1).
     bind_result (deref h1 item) (\<lambda>x.
     bind_result (store h1 (ArrayPtr_index (items_m v1) (size_m v1 - 1)) x) (\<lambda>h2.
       Inr (h2, v1))))"

text \<open>\<^verbatim>\<open>void PopBack() noexcept\<close>: \<^verbatim>\<open>assert(!IsEmpty()); --size_;\<close>\<close>

definition PopBack :: "SimpleVector \<Rightarrow> error + SimpleVector" where
  "PopBack v = (if \<not> (\<not> IsEmpty v) then Inl assertion_failed
                else Inr (v\<lparr>size_m := size_m v - 1\<rparr>))"

text \<open>
  \<^verbatim>\<open>Iterator Insert(ConstIterator pos, const Type &value)\<close>. The result is the heap,
  the vector and the iterator returned. The parameter is a reference: at the end
  position it is handed on to \<^verbatim>\<open>PushBack\<close>, elsewhere the body reads it in
  \<^verbatim>\<open>*it = value\<close>, after \<^verbatim>\<open>ResizeCurrentVector\<close> and after
  \<^verbatim>\<open>std::copy_backward\<close> has shifted the tail.
\<close>

definition Insert ::
  "'a::default heap \<Rightarrow> SimpleVector \<Rightarrow> ptr \<Rightarrow> 'a reference
     \<Rightarrow> error + ('a heap \<times> SimpleVector \<times> ptr)" where
  "Insert h v pos val =
     (if pos = cend v
      then bind_result (PushBack h v val) (\<lambda>(h1, v1).
           bind_result (ptr_sub (end_it v1) 1) (\<lambda>it. Inr (h1, v1, it)))
      else bind_result (ptr_diff pos (Get (items_m v))) (\<lambda>curr_index.
           bind_result (ResizeCurrentVector h v) (\<lambda>(h1, v1).
           bind_result (ptr_sub (end_it v1) 1) (\<lambda>last_but_one.
           bind_result (std_copy_backward h1 (ArrayPtr_index (items_m v1) curr_index)
                          last_but_one (end_it v1)) (\<lambda>(h2, it).
           bind_result (ptr_sub it 1) (\<lambda>it'.
           bind_result (deref h2 val) (\<lambda>x.
           bind_result (store h2 it' x) (\<lambda>h3.
             Inr (h3, v1, it')))))))))"

text \<open>
  \<^verbatim>\<open>Iterator Insert(ConstIterator pos, Type &&value)\<close>: two assertions, then the text
  of the other overload with \<^verbatim>\<open>std::move\<close> and \<^verbatim>\<open>std::move_backward\<close>, which on
  values are the copies. The parameter is a reference here too, read at the same places.
\<close>

definition Insert_rvalue ::
  "'a::default heap \<Rightarrow> SimpleVector \<Rightarrow> ptr \<Rightarrow> 'a reference
     \<Rightarrow> error + ('a heap \<times> SimpleVector \<times> ptr)" where
  "Insert_rvalue h v pos val =
     bind_result (ptr_le pos (end_it v)) (\<lambda>le_end.
       if \<not> le_end then Inl assertion_failed else
     bind_result (ptr_le (begin_it v) pos) (\<lambda>ge_begin.
       if \<not> ge_begin then Inl assertion_failed else
     (if pos = cend v
      then bind_result (PushBack h v val) (\<lambda>(h1, v1).
           bind_result (ptr_sub (end_it v1) 1) (\<lambda>it. Inr (h1, v1, it)))
      else bind_result (ptr_diff pos (Get (items_m v))) (\<lambda>curr_index.
           bind_result (ResizeCurrentVector h v) (\<lambda>(h1, v1).
           bind_result (ptr_sub (end_it v1) 1) (\<lambda>last_but_one.
           bind_result (std_move_backward h1 (ArrayPtr_index (items_m v1) curr_index)
                          last_but_one (end_it v1)) (\<lambda>(h2, it).
           bind_result (ptr_sub it 1) (\<lambda>it'.
           bind_result (deref h2 val) (\<lambda>x.
           bind_result (store h2 it' x) (\<lambda>h3.
             Inr (h3, v1, it')))))))))))"

text \<open>\<^verbatim>\<open>Iterator Erase(ConstIterator pos)\<close>\<close>

definition Erase ::
  "'a heap \<Rightarrow> SimpleVector \<Rightarrow> ptr \<Rightarrow> error + ('a heap \<times> SimpleVector \<times> ptr)" where
  "Erase h v pos =
     bind_result (ptr_le pos (end_it v)) (\<lambda>le_end.
       if \<not> le_end then Inl assertion_failed else
     bind_result (ptr_le (begin_it v) pos) (\<lambda>ge_begin.
       if \<not> ge_begin then Inl assertion_failed else
     bind_result (ptr_diff pos (begin_it v)) (\<lambda>curr_index.
     bind_result (ptr_sub (end_it v) 1) (\<lambda>last_elem.
     bind_result (ptr_less pos last_elem) (\<lambda>before_last.
     bind_result
       (if before_last
        then std_move h (ArrayPtr_index (items_m v) (curr_index + 1)) (end_it v)
               (ArrayPtr_index (items_m v) curr_index)
        else Inr h) (\<lambda>h1.
       Inr (h1, v\<lparr>size_m := size_m v - 1\<rparr>, ArrayPtr_index (items_m v) curr_index)))))))"

text \<open>\<^verbatim>\<open>operator[]\<close>, both overloads: \<^verbatim>\<open>assert(index < size_); return items_[index];\<close>\<close>

definition Index :: "SimpleVector \<Rightarrow> nat \<Rightarrow> error + ptr" where
  "Index v index = (if \<not> index < size_m v then Inl assertion_failed
                    else Inr (ArrayPtr_index (items_m v) index))"

text \<open>
  \<^verbatim>\<open>SimpleVector &operator=(const SimpleVector &rhs)\<close>: the guard is
  \<^verbatim>\<open>*this == rhs\<close>, the comparison of the elements. \<^verbatim>\<open>temp\<close> is a local, swapped
  with \<^verbatim>\<open>*this\<close> and destroyed on return.
\<close>

definition operator_assign_copy ::
  "'a::default heap \<Rightarrow> SimpleVector_store \<Rightarrow> nat \<Rightarrow> nat
     \<Rightarrow> error + ('a heap \<times> SimpleVector_store)" where
  "operator_assign_copy h s this rhs =
     bind_result (operator_eq h (s this) (s rhs)) (\<lambda>same.
       if same then Inr (h, s) else
     bind_result (SimpleVector_copy h (s rhs)) (\<lambda>(h1, temp).
       let (this', temp') = swap_distinct (s this) temp
       in bind_result (SimpleVector_destroy h1 temp') (\<lambda>h2. Inr (h2, s(this := this')))))"

text \<open>
  \<^verbatim>\<open>std::swap(a, b)\<close> on two distinct \<^verbatim>\<open>ArrayPtr\<close> objects:
  \<^verbatim>\<open>T tmp(std::move(a)); a = std::move(b); b = std::move(tmp);\<close> with the move
  constructor and the move assignment of \<^verbatim>\<open>ArrayPtr\<close>, then \<^verbatim>\<open>tmp\<close> destroyed.
  The three objects are numbered 0 (\<open>a\<close>), 1 (\<open>b\<close>) and 2 (\<open>tmp\<close>).
\<close>

definition std_swap_ArrayPtr ::
  "'a heap \<Rightarrow> ArrayPtr \<Rightarrow> ArrayPtr \<Rightarrow> error + ('a heap \<times> ArrayPtr \<times> ArrayPtr)" where
  "std_swap_ArrayPtr h a b =
     (let (tmp, a1) = ArrayPtr_move a;
          s = (\<lambda>i::nat. if i = 0 then a1 else if i = 1 then b else tmp);
          s1 = ArrayPtr_move_assign s 0 1;
          s2 = ArrayPtr_move_assign s1 1 2
      in bind_result (ArrayPtr_destroy h (s2 2)) (\<lambda>h'. Inr (h', s2 0, s2 1)))"

text \<open>
  \<^verbatim>\<open>SimpleVector(SimpleVector &&other)\<close>: the members of the new object start at
  their defaults and are swapped with those of \<^verbatim>\<open>other\<close>. The result is the heap, the
  new vector and \<^verbatim>\<open>other\<close> as it is left.
\<close>

definition SimpleVector_move ::
  "'a heap \<Rightarrow> SimpleVector \<Rightarrow> error + ('a heap \<times> SimpleVector \<times> SimpleVector)" where
  "SimpleVector_move h other =
     (let this = SimpleVector_default;
          (this1, other1) = (this\<lparr>capacity_m := capacity_m other\<rparr>,
                             other\<lparr>capacity_m := capacity_m this\<rparr>);
          (this2, other2) = (this1\<lparr>size_m := size_m other1\<rparr>,
                             other1\<lparr>size_m := size_m this1\<rparr>)
      in bind_result (std_swap_ArrayPtr h (items_m this2) (items_m other2)) (\<lambda>(h', a, b).
           Inr (h', this2\<lparr>items_m := a\<rparr>, other2\<lparr>items_m := b\<rparr>)))"

text \<open>
  \<^verbatim>\<open>SimpleVector &operator=(SimpleVector &&rhs)\<close>, the same text in both drafts but
  for the move constructor it calls.
\<close>

definition operator_assign_move ::
  "'a heap \<Rightarrow> SimpleVector_store \<Rightarrow> nat \<Rightarrow> nat \<Rightarrow> error + ('a heap \<times> SimpleVector_store)" where
  "operator_assign_move h s this rhs =
     (if this = rhs then Inr (h, s) else
      bind_result (SimpleVector_move h (s rhs)) (\<lambda>(h1, temp, rhs').
        let (this', temp') = swap_distinct (s this) temp
        in bind_result (SimpleVector_destroy h1 temp') (\<lambda>h2.
             Inr (h2, s(rhs := rhs', this := this')))))"

section \<open>SimpleVector, part\_001: the members whose text differs\<close>

text \<open>\<^verbatim>\<open>Resize\<close>: the size is assigned in each of the three branches.\<close>

definition Resize_001 ::
  "'a::default heap \<Rightarrow> SimpleVector \<Rightarrow> nat \<Rightarrow> error + ('a heap \<times> SimpleVector)" where
  "Resize_001 h v new_size =
     (if new_size > capacity_m v
      then (let new_capacity = max new_size (if capacity_m v = 0 then 1 else capacity_m v * 2);
                (h1, temp) = ArrayPtr_size h new_capacity
            in bind_result (std_move h1 (begin_it v) (end_it v) (Get temp)) (\<lambda>h2.
                 let (items', temp') = ArrayPtr_swap_distinct (items_m v) temp;
                     v1 = v\<lparr>items_m := items', size_m := new_size, capacity_m := new_capacity\<rparr>
                 in bind_result (ArrayPtr_destroy h2 temp') (\<lambda>h3. Inr (h3, v1))))
      else if new_size > size_m v
      then bind_result (Resize_fill h (items_m v) (size_m v) new_size)
             (\<lambda>h1. Inr (h1, v\<lparr>size_m := new_size\<rparr>))
      else Inr (h, v\<lparr>size_m := new_size\<rparr>))"

text \<open>\<^verbatim>\<open>PopBack\<close>: \<^verbatim>\<open>if (!IsEmpty()) { --size_; }\<close>\<close>

definition PopBack_001 :: "SimpleVector \<Rightarrow> error + SimpleVector" where
  "PopBack_001 v = (if \<not> IsEmpty v then Inr (v\<lparr>size_m := size_m v - 1\<rparr>) else Inr v)"

text \<open>\<^verbatim>\<open>operator=(const SimpleVector &rhs)\<close>: the guard is \<^verbatim>\<open>&items_ == &(rhs.items_)\<close>.\<close>

definition operator_assign_copy_001 ::
  "'a::default heap \<Rightarrow> SimpleVector_store \<Rightarrow> nat \<Rightarrow> nat
     \<Rightarrow> error + ('a heap \<times> SimpleVector_store)" where
  "operator_assign_copy_001 h s this rhs =
     (if this = rhs then Inr (h, s) else
      bind_result (SimpleVector_copy h (s rhs)) (\<lambda>(h1, temp).
        let (this', temp') = swap_distinct (s this) temp
        in bind_result (SimpleVector_destroy h1 temp') (\<lambda>h2. Inr (h2, s(this := this')))))"

text \<open>
  \<^verbatim>\<open>std::exchange(obj, new_value)\<close> on \<^verbatim>\<open>ArrayPtr\<close> objects, with an lvalue for
  \<^verbatim>\<open>new_value\<close>: \<^verbatim>\<open>T old_value = std::move(obj); obj = new_value; return old_value;\<close>,
  the move constructor and then the defaulted copy assignment. The result is the value
  returned and \<^verbatim>\<open>obj\<close> as it is left.
\<close>

definition std_exchange_ArrayPtr :: "ArrayPtr \<Rightarrow> ArrayPtr \<Rightarrow> ArrayPtr \<times> ArrayPtr" where
  "std_exchange_ArrayPtr obj new_value =
     (let (old_value, obj1) = ArrayPtr_move obj;
          obj2 = obj1\<lparr>raw_ptr_m := raw_ptr_m (ArrayPtr_copy new_value)\<rparr>
      in (old_value, obj2))"

text \<open>
  The move constructor:
  \<^verbatim>\<open>other.capacity_ = std::exchange(capacity_, other.capacity_);\<close>
  \<^verbatim>\<open>other.size_ = std::exchange(size_, other.size_);\<close>
  \<^verbatim>\<open>other.items_ = std::exchange(items_, other.items_);\<close>
  The last line move-assigns the temporary that \<^verbatim>\<open>std::exchange\<close> returns to
  \<^verbatim>\<open>other.items_\<close> (objects 0, \<^verbatim>\<open>other.items_\<close>, and 1, the temporary) and destroys
  the temporary at the end of the statement.
\<close>

definition SimpleVector_move_001 ::
  "'a heap \<Rightarrow> SimpleVector \<Rightarrow> error + ('a heap \<times> SimpleVector \<times> SimpleVector)" where
  "SimpleVector_move_001 h other =
     (let this = SimpleVector_default;
          (this1, other1) = (this\<lparr>capacity_m := capacity_m other\<rparr>,
                             other\<lparr>capacity_m := capacity_m this\<rparr>);
          (this2, other2) = (this1\<lparr>size_m := size_m other1\<rparr>,
                             other1\<lparr>size_m := size_m this1\<rparr>);
          (returned, items') = std_exchange_ArrayPtr (items_m this2) (items_m other2);
          s = ArrayPtr_move_assign (\<lambda>i::nat. if i = 0 then items_m other2 else returned) 0 1
      in bind_result (ArrayPtr_destroy h (s 1)) (\<lambda>h'.
           Inr (h', this2\<lparr>items_m := items'\<rparr>, other2\<lparr>items_m := s 0\<rparr>)))"

text \<open>\<^verbatim>\<open>operator=(SimpleVector &&rhs)\<close>, with the move constructor of this draft.\<close>

definition operator_assign_move_001 ::
  "'a heap \<Rightarrow> SimpleVector_store \<Rightarrow> nat \<Rightarrow> nat \<Rightarrow> error + ('a heap \<times> SimpleVector_store)" where
  "operator_assign_move_001 h s this rhs =
     (if this = rhs then Inr (h, s) else
      bind_result (SimpleVector_move_001 h (s rhs)) (\<lambda>(h1, temp, rhs').
        let (this', temp') = swap_distinct (s this) temp
        in bind_result (SimpleVector_destroy h1 temp') (\<lambda>h2.
             Inr (h2, s(rhs := rhs', this := this')))))"

text \<open>\<^verbatim>\<open>Insert(ConstIterator pos, Type &&value)\<close>: no assertions.\<close>

definition Insert_rvalue_001 ::
  "'a::default heap \<Rightarrow> SimpleVector \<Rightarrow> ptr \<Rightarrow> 'a reference
     \<Rightarrow> error + ('a heap \<times> SimpleVector \<times> ptr)" where
  "Insert_rvalue_001 h v pos val =
     (if pos = cend v
      then bind_result (PushBack h v val) (\<lambda>(h1, v1).
           bind_result (ptr_sub (end_it v1) 1) (\<lambda>it. Inr (h1, v1, it)))
      else bind_result (ptr_diff pos (Get (items_m v))) (\<lambda>curr_index.
           bind_result (ResizeCurrentVector h v) (\<lambda>(h1, v1).
           bind_result (ptr_sub (end_it v1) 1) (\<lambda>last_but_one.
           bind_result (std_move_backward h1 (ArrayPtr_index (items_m v1) curr_index)
                          last_but_one (end_it v1)) (\<lambda>(h2, it).
           bind_result (ptr_sub it 1) (\<lambda>it'.
           bind_result (deref h2 val) (\<lambda>x.
           bind_result (store h2 it' x) (\<lambda>h3.
             Inr (h3, v1, it')))))))))"

text \<open>\<^verbatim>\<open>Erase(ConstIterator pos)\<close>: no assertions.\<close>

definition Erase_001 ::
  "'a heap \<Rightarrow> SimpleVector \<Rightarrow> ptr \<Rightarrow> error + ('a heap \<times> SimpleVector \<times> ptr)" where
  "Erase_001 h v pos =
     bind_result (ptr_diff pos (begin_it v)) (\<lambda>curr_index.
     bind_result (ptr_sub (end_it v) 1) (\<lambda>last_elem.
     bind_result (ptr_less pos last_elem) (\<lambda>before_last.
     bind_result
       (if before_last
        then std_move h (ArrayPtr_index (items_m v) (curr_index + 1)) (end_it v)
               (ArrayPtr_index (items_m v) curr_index)
        else Inr h) (\<lambda>h1.
       Inr (h1, v\<lparr>size_m := size_m v - 1\<rparr>, ArrayPtr_index (items_m v) curr_index)))))"

text \<open>\<^verbatim>\<open>operator[]\<close>: no assertion.\<close>

definition Index_001 :: "SimpleVector \<Rightarrow> nat \<Rightarrow> error + ptr" where
  "Index_001 v index = Inr (ArrayPtr_index (items_m v) index)"

section \<open>Well-formed vectors and the sequence a vector holds\<close>

text \<open>
  The invariant of the data model: the size is at most the capacity, and the array the
  vector owns is a live allocation of exactly \<open>capacity\<close> elements (no array at all is
  allowed for capacity 0). The elements of the vector are the first \<open>size\<close> elements
  of that array.
\<close>

definition buffer :: "'a heap \<Rightarrow> SimpleVector \<Rightarrow> 'a list" where
  "buffer h v = (case block h (raw_ptr_m (items_m v)) of None \<Rightarrow> [] | Some xs \<Rightarrow> xs)"

definition elements :: "'a heap \<Rightarrow> SimpleVector \<Rightarrow> 'a list" where
  "elements h v = take (size_m v) (buffer h v)"

definition well_formed :: "'a heap \<Rightarrow> SimpleVector \<Rightarrow> bool" where
  "well_formed h v = (size_m v \<le> capacity_m v \<and>
     (case raw_ptr_m (items_m v) of
        None \<Rightarrow> capacity_m v = 0
      | Some a \<Rightarrow> (case block h (Some a) of None \<Rightarrow> False
                                          | Some xs \<Rightarrow> length xs = capacity_m v)))"

text \<open>The heap once the array behind a raw pointer has been deleted.\<close>

definition released :: "'a heap \<Rightarrow> addr option \<Rightarrow> 'a heap" where
  "released h raw = (case raw of None \<Rightarrow> h | Some a \<Rightarrow> h[a := None])"

text \<open>
  A step from heap \<open>h\<close> to heap \<open>h'\<close> that leaves every array of \<open>h\<close> as it was,
  but for the one behind the raw pointer given.
\<close>

definition unchanged_outside :: "'a heap \<Rightarrow> 'a heap \<Rightarrow> addr option \<Rightarrow> bool" where
  "unchanged_outside h h' raw =
     (length h \<le> length h' \<and> (\<forall>b<length h. Some b \<noteq> raw \<longrightarrow> h' ! b = h ! b))"

text \<open>
  A step of a vector from \<open>(h, v)\<close> to \<open>(h', v')\<close> that touches no array but its own:
  the other arrays of \<open>h\<close> are as they were, and the array of \<open>v'\<close> is the one of
  \<open>v\<close>, or none, or a new one at the first address beyond \<open>h\<close>.
\<close>

definition touches_only_own :: "'a heap \<Rightarrow> SimpleVector \<Rightarrow> 'a heap \<Rightarrow> SimpleVector \<Rightarrow> bool" where
  "touches_only_own h v h' v' =
     (unchanged_outside h h' (raw_ptr_m (items_m v)) \<and>
      (raw_ptr_m (items_m v') = raw_ptr_m (items_m v) \<or> raw_ptr_m (items_m v') = None \<or>
       raw_ptr_m (items_m v') = Some (length h)))"

text \<open>
  The argument of a call on the vector is bound to an object inside the array the vector
  owns (to one of its elements, or to a slot beyond them).
\<close>

definition in_own_array :: "SimpleVector \<Rightarrow> 'a reference \<Rightarrow> bool" where
  "in_own_array v r = (case r of Outside x \<Rightarrow> False
                       | Element p \<Rightarrow> base p = raw_ptr_m (items_m v))"

text \<open>The capacity the growth policy asks for.\<close>

definition grown :: "nat \<Rightarrow> nat \<Rightarrow> nat" where
  "grown required cap = max required (if cap = 0 then 1 else cap * 2)"

declare Resize_fill.simps [simp del]

section \<open>Runs of member calls\<close>

text \<open>One \<^verbatim>\<open>PushBack\<close> per argument of a list, stopping at the first fault.\<close>

fun PushBack_all ::
  "'a::default heap \<Rightarrow> SimpleVector \<Rightarrow> 'a reference list
     \<Rightarrow> error + ('a heap \<times> SimpleVector)" where
  "PushBack_all h v [] = Inr (h, v)"
| "PushBack_all h v (r # rs) =
     (case PushBack h v r of Inl e \<Rightarrow> Inl e | Inr (h', v') \<Rightarrow> PushBack_all h' v' rs)"

text \<open>
  A call of a member function of part\_000 on the vector object \<open>this\<close> of a store, as a
  step on the heap and the store; the value a call returns is dropped. A call that takes
  another vector names it by its number in the store.
\<close>

datatype 'a member_call =
    Call_PushBack "'a reference"
  | Call_PopBack
  | Call_Insert ptr "'a reference"
  | Call_Insert_rvalue ptr "'a reference"
  | Call_Erase ptr
  | Call_Resize nat
  | Call_Reserve nat
  | Call_Clear
  | Call_At nat
  | Call_Index nat
  | Call_GetSize
  | Call_GetCapacity
  | Call_IsEmpty
  | Call_begin
  | Call_end
  | Call_assign_copy nat
  | Call_assign_move nat
  | Call_swap nat
  | Call_moved_into nat

fun call ::
  "'a::default member_call \<Rightarrow> nat \<Rightarrow> 'a heap \<times> SimpleVector_store
     \<Rightarrow> error + ('a heap \<times> SimpleVector_store)" where
  "call (Call_PushBack x) this (h, s) =
     bind_result (PushBack h (s this) x) (\<lambda>(h', v'). Inr (h', s(this := v')))"
| "call Call_PopBack this (h, s) =
     bind_result (PopBack (s this)) (\<lambda>v'. Inr (h, s(this := v')))"
| "call (Call_Insert pos x) this (h, s) =
     bind_result (Insert h (s this) pos x) (\<lambda>(h', v', it). Inr (h', s(this := v')))"
| "call (Call_Insert_rvalue pos x) this (h, s) =
     bind_result (Insert_rvalue h (s this) pos x) (\<lambda>(h', v', it). Inr (h', s(this := v')))"
| "call (Call_Erase pos) this (h, s) =
     bind_result (Erase h (s this) pos) (\<lambda>(h', v', it). Inr (h', s(this := v')))"
| "call (Call_Resize n) this (h, s) =
     bind_result (Resize h (s this) n) (\<lambda>(h', v'). Inr (h', s(this := v')))"
| "call (Call_Reserve n) this (h, s) =
     bind_result (Reserve h (s this) n) (\<lambda>(h', v'). Inr (h', s(this := v')))"
| "call Call_Clear this (h, s) = Inr (h, s(this := Clear (s this)))"
| "call (Call_At i) this (h, s) = bind_result (At (s this) i) (\<lambda>p. Inr (h, s))"
| "call (Call_Index i) this (h, s) = bind_result (Index (s this) i) (\<lambda>p. Inr (h, s))"
| "call Call_GetSize this (h, s) = Inr (h, s)"
| "call Call_GetCapacity this (h, s) = Inr (h, s)"
| "call Call_IsEmpty this (h, s) = Inr (h, s)"
| "call Call_begin this (h, s) = Inr (h, s)"
| "call Call_end this (h, s) = Inr (h, s)"
| "call (Call_assign_copy rhs) this (h, s) = operator_assign_copy h s this rhs"
| "call (Call_assign_move rhs) this (h, s) = operator_assign_move h s this rhs"
| "call (Call_swap other) this (h, s) = Inr (h, swap s this other)"
| "call (Call_moved_into new) this (h, s) =
     bind_result (SimpleVector_move h (s this)) (\<lambda>(h', v', this').
       Inr (h', s(this := this', new := v')))"

text \<open>
  The calls that replace the whole state of \<open>this\<close> by that of another vector: the two
  assignments, \<^verbatim>\<open>swap\<close>, and being the source of a move construction.
\<close>

fun replaces_state :: "'a member_call \<Rightarrow> bool" where
  "replaces_state (Call_assign_copy rhs) = True"
| "replaces_state (Call_assign_move rhs) = True"
| "replaces_state (Call_swap other) = True"
| "replaces_state (Call_moved_into new) = True"
| "replaces_state c = False"

text \<open>The element type of the concrete runs: \<^verbatim>\<open>int{}\<close> is 0.\<close>

instantiation int :: default
begin
definition default_int :: int where
  "default_int = 0"
instance ..
end

section \<open>Memory and the loops\<close>

lemma ArrayPtr_swap_distinct_eq: "ArrayPtr_swap_distinct a b = (b, a)"
  by (simp add: ArrayPtr_swap_distinct_def ArrayPtr_swap_def)

lemma block_None [simp]: "block h None = None"
  by (simp add: block_def)

lemma block_update:
  "block (h[a := y]) (Some b) = (if b = a \<and> a < length h then y else block h (Some b))"
  by (auto simp: block_def)

lemma block_append:
  "block (h @ [x]) (Some b) = (if b = length h then x else block h (Some b))"
  by (auto simp: block_def nth_append)

lemma block_Some_less: "block h (Some a) = Some xs \<Longrightarrow> a < length h"
  by (auto simp: block_def split: if_splits)

lemma block_Some_nth: "block h (Some a) = Some xs \<Longrightarrow> h ! a = Some xs"
  by (auto simp: block_def split: if_splits)

lemma update_block_same: "block h (Some a) = Some xs \<Longrightarrow> h[a := Some xs] = h"
  using block_Some_nth [of h a xs] list_update_id [of h a] by simp

lemma load_Ptr:
  "block h (Some a) = Some xs \<Longrightarrow> i < length xs \<Longrightarrow> load h (Ptr (Some a) i) = Inr (xs ! i)"
  by (simp add: load_def)

lemma store_Ptr:
  "block h (Some a) = Some xs \<Longrightarrow> i < length xs \<Longrightarrow>
   store h (Ptr (Some a) i) x = Inr (h[a := Some (xs[i := x])])"
  by (simp add: store_def)

lemma copy_loop_distinct:
  "a \<noteq> b \<Longrightarrow> block h (Some a) = Some xs \<Longrightarrow> block h (Some b) = Some ys \<Longrightarrow>
   i + n \<le> length xs \<Longrightarrow> j + n \<le> length ys \<Longrightarrow>
   copy_loop h (Ptr (Some a) i) (Ptr (Some b) j) n =
     Inr (h[b := Some (take j ys @ take n (drop i xs) @ drop (j + n) ys)])"
proof (induction n arbitrary: h ys i j)
  case 0
  then show ?case by (simp add: update_block_same)
next
  case (Suc n)
  let ?ys = "ys[j := xs ! i]"
  let ?h = "h[b := Some ?ys]"
  have bl: "b < length h" using Suc.prems(3) by (rule block_Some_less)
  have 1: "load h (Ptr (Some a) i) = Inr (xs ! i)"
    using Suc.prems by (simp add: load_Ptr)
  have 2: "store h (Ptr (Some b) j) (xs ! i) = Inr ?h"
    using Suc.prems by (simp add: store_Ptr)
  have 3: "block ?h (Some a) = Some xs" "block ?h (Some b) = Some ?ys"
    using Suc.prems bl by (simp_all add: block_update)
  have IH: "copy_loop ?h (Ptr (Some a) (Suc i)) (Ptr (Some b) (Suc j)) n =
     Inr (?h[b := Some (take (Suc j) ?ys @ take n (drop (Suc i) xs) @ drop (Suc j + n) ?ys)])"
    using Suc.prems by (intro Suc.IH 3) simp_all
  have 4: "take (Suc j) ?ys = take j ys @ [xs ! i]"
    using Suc.prems by (simp add: take_Suc_conv_app_nth)
  have 5: "take (Suc n) (drop i xs) = xs ! i # take n (drop (Suc i) xs)"
    using Suc.prems by (simp add: Cons_nth_drop_Suc [symmetric])
  show ?case
    using Suc.prems by (simp add: 1 2 ptr_add_def IH 4 5)
qed

lemma copy_loop_left:
  "block h (Some a) = Some xs \<Longrightarrow> j \<le> i \<Longrightarrow> i + n \<le> length xs \<Longrightarrow>
   copy_loop h (Ptr (Some a) i) (Ptr (Some a) j) n =
     Inr (h[a := Some (take j xs @ take n (drop i xs) @ drop (j + n) xs)])"
proof (induction n arbitrary: h xs i j)
  case 0
  then show ?case by (simp add: update_block_same)
next
  case (Suc n)
  let ?xs = "xs[j := xs ! i]"
  let ?h = "h[a := Some ?xs]"
  have al: "a < length h" using Suc.prems(1) by (rule block_Some_less)
  have 1: "load h (Ptr (Some a) i) = Inr (xs ! i)"
    using Suc.prems by (simp add: load_Ptr)
  have 2: "store h (Ptr (Some a) j) (xs ! i) = Inr ?h"
    using Suc.prems by (simp add: store_Ptr)
  have 3: "block ?h (Some a) = Some ?xs"
    using al by (simp add: block_update)
  have IH: "copy_loop ?h (Ptr (Some a) (Suc i)) (Ptr (Some a) (Suc j)) n =
     Inr (?h[a := Some (take (Suc j) ?xs @ take n (drop (Suc i) ?xs) @ drop (Suc j + n) ?xs)])"
    using Suc.prems by (intro Suc.IH 3) simp_all
  have 4: "take (Suc j) ?xs = take j xs @ [xs ! i]"
    using Suc.prems by (simp add: take_Suc_conv_app_nth)
  have 5: "take (Suc n) (drop i xs) = xs ! i # take n (drop (Suc i) xs)"
    using Suc.prems by (simp add: Cons_nth_drop_Suc [symmetric])
  have 6: "drop (Suc i) ?xs = drop (Suc i) xs"
    using Suc.prems by simp
  show ?case
    using Suc.prems by (simp add: 1 2 ptr_add_def IH 4 5 6)
qed

lemma copy_backward_loop_right:
  "block h (Some a) = Some xs \<Longrightarrow> l \<le> d \<Longrightarrow> d \<le> length xs \<Longrightarrow> n \<le> l \<Longrightarrow>
   copy_backward_loop h (Ptr (Some a) l) (Ptr (Some a) d) n =
     Inr (h[a := Some (take (d - n) xs @ take n (drop (l - n) xs) @ drop d xs)],
          Ptr (Some a) (d - n))"
proof (induction n arbitrary: h xs l d)
  case 0
  then show ?case by (simp add: update_block_same)
next
  case (Suc n)
  let ?x = "xs ! (l - 1)"
  let ?xs = "xs[d - 1 := ?x]"
  let ?h = "h[a := Some ?xs]"
  have al: "a < length h" using Suc.prems(1) by (rule block_Some_less)
  have 0: "ptr_sub (Ptr (Some a) l) 1 = Inr (Ptr (Some a) (l - 1))"
          "ptr_sub (Ptr (Some a) d) 1 = Inr (Ptr (Some a) (d - 1))"
    using Suc.prems by (simp_all add: ptr_sub_def)
  have 1: "load h (Ptr (Some a) (l - 1)) = Inr ?x"
    using Suc.prems by (simp add: load_Ptr)
  have 2: "store h (Ptr (Some a) (d - 1)) ?x = Inr ?h"
    using Suc.prems by (simp add: store_Ptr)
  have 3: "block ?h (Some a) = Some ?xs"
    using al by (simp add: block_update)
  have IH: "copy_backward_loop ?h (Ptr (Some a) (l - 1)) (Ptr (Some a) (d - 1)) n =
     Inr (?h[a := Some (take (d - 1 - n) ?xs @ take n (drop (l - 1 - n) ?xs) @ drop (d - 1) ?xs)],
          Ptr (Some a) (d - 1 - n))"
    using Suc.prems by (intro Suc.IH 3) simp_all
  have 4: "take (d - 1 - n) ?xs = take (d - Suc n) xs"
    using Suc.prems by simp
  have 5: "take n (drop (l - 1 - n) ?xs) = take n (drop (l - Suc n) xs)"
    using Suc.prems by (intro nth_equalityI) (simp_all add: )
  have 6: "drop (d - 1) ?xs = ?x # drop d xs"
    using Suc.prems by (simp add: drop_update_swap Cons_nth_drop_Suc [symmetric] upd_conv_take_nth_drop)
  have 7: "take (Suc n) (drop (l - Suc n) xs) = take n (drop (l - Suc n) xs) @ [?x]"
    using Suc.prems by (simp add: take_Suc_conv_app_nth)
  have step: "copy_backward_loop h (Ptr (Some a) l) (Ptr (Some a) d) (Suc n) =
      copy_backward_loop ?h (Ptr (Some a) (l - 1)) (Ptr (Some a) (d - 1)) n"
    by (simp add: 0 1 2 del: One_nat_def)
  have lists: "take (d - 1 - n) ?xs @ take n (drop (l - 1 - n) ?xs) @ drop (d - 1) ?xs =
      take (d - Suc n) xs @ take (Suc n) (drop (l - Suc n) xs) @ drop d xs"
    unfolding 4 5 6 7 by simp
  have idx: "d - 1 - n = d - Suc n" by simp
  have "copy_backward_loop h (Ptr (Some a) l) (Ptr (Some a) d) (Suc n) =
     Inr (?h[a := Some (take (d - 1 - n) ?xs @ take n (drop (l - 1 - n) ?xs) @ drop (d - 1) ?xs)],
          Ptr (Some a) (d - 1 - n))"
    by (simp only: step IH)
  then have "copy_backward_loop h (Ptr (Some a) l) (Ptr (Some a) d) (Suc n) =
     Inr (h[a := Some (take (d - Suc n) xs @ take (Suc n) (drop (l - Suc n) xs) @ drop d xs)],
          Ptr (Some a) (d - 1 - n))"
    by (simp only: lists list_update_overwrite)
  then show ?case
    by (simp only: idx)
qed

lemma Resize_fill_done: "new_size \<le> i \<Longrightarrow> Resize_fill h items i new_size = Inr h"
  by (subst Resize_fill.simps) simp

lemma Resize_fill_block:
  "raw_ptr_m items = Some a \<Longrightarrow> block h (Some a) = Some xs \<Longrightarrow> i \<le> n \<Longrightarrow> n \<le> length xs \<Longrightarrow>
   Resize_fill h items i n =
     Inr (h[a := Some (take i xs @ replicate (n - i) default @ drop n xs)])"
proof (induction "n - i" arbitrary: h xs i)
  case 0
  then show ?case
    by (simp add: Resize_fill_done update_block_same)
next
  case (Suc k)
  let ?xs = "xs[i := default]"
  let ?h = "h[a := Some ?xs]"
  have lt: "i < n" using Suc.hyps(2) by simp
  have al: "a < length h" using Suc.prems(2) by (rule block_Some_less)
  have 1: "store h (ArrayPtr_index items i) default = Inr ?h"
    using Suc.prems lt by (simp add: ArrayPtr_index_def store_Ptr)
  have 2: "block ?h (Some a) = Some ?xs"
    using al by (simp add: block_update)
  have IH: "Resize_fill ?h items (Suc i) n =
     Inr (?h[a := Some (take (Suc i) ?xs @ replicate (n - Suc i) default @ drop n ?xs)])"
    using Suc.prems Suc.hyps(2) lt by (intro Suc.hyps(1) 2) simp_all
  have 3: "take (Suc i) ?xs = take i xs @ [default]"
    using Suc.prems lt by (simp add: take_Suc_conv_app_nth)
  have 4: "drop n ?xs = drop n xs"
    using lt by simp
  have 5: "replicate (n - i) (default::'a) = default # replicate (n - Suc i) default"
    using lt by (simp add: Suc_diff_Suc [symmetric] del: replicate_Suc)
       (metis Suc_diff_Suc replicate_Suc)
  have "Resize_fill h items i n = Resize_fill ?h items (Suc i) n"
    using lt by (subst Resize_fill.simps) (simp add: 1)
  then show ?case
    by (simp only: IH 3 4 5 list_update_overwrite) simp
qed

lemma equal_loop_blocks:
  "block h (Some a) = Some xs \<Longrightarrow> block h (Some b) = Some ys \<Longrightarrow>
   i + n \<le> length xs \<Longrightarrow> j + n \<le> length ys \<Longrightarrow>
   equal_loop h (Ptr (Some a) i) (Ptr (Some b) j) n =
     Inr (take n (drop i xs) = take n (drop j ys))"
proof (induction n arbitrary: i j)
  case 0
  then show ?case by simp
next
  case (Suc n)
  have 1: "load h (Ptr (Some a) i) = Inr (xs ! i)" "load h (Ptr (Some b) j) = Inr (ys ! j)"
    using Suc.prems by (simp_all add: load_Ptr)
  have IH: "equal_loop h (Ptr (Some a) (Suc i)) (Ptr (Some b) (Suc j)) n =
     Inr (take n (drop (Suc i) xs) = take n (drop (Suc j) ys))"
    using Suc.prems by (intro Suc.IH) simp_all
  have 2: "take (Suc n) (drop i xs) = xs ! i # take n (drop (Suc i) xs)"
          "take (Suc n) (drop j ys) = ys ! j # take n (drop (Suc j) ys)"
    using Suc.prems by (simp_all add: Cons_nth_drop_Suc [symmetric])
  show ?case
    by (simp add: 1 IH 2 ptr_add_def)
qed

lemma copy_from_list_block:
  "block h (Some a) = Some ys \<Longrightarrow> j + length xs \<le> length ys \<Longrightarrow>
   copy_from_list h xs (Ptr (Some a) j) =
     Inr (h[a := Some (take j ys @ xs @ drop (j + length xs) ys)])"
proof (induction xs arbitrary: h ys j)
  case Nil
  then show ?case by (simp add: update_block_same)
next
  case (Cons x xs)
  let ?ys = "ys[j := x]"
  let ?h = "h[a := Some ?ys]"
  have al: "a < length h" using Cons.prems(1) by (rule block_Some_less)
  have 1: "store h (Ptr (Some a) j) x = Inr ?h"
    using Cons.prems by (simp add: store_Ptr)
  have 2: "block ?h (Some a) = Some ?ys"
    using al by (simp add: block_update)
  have IH: "copy_from_list ?h xs (Ptr (Some a) (Suc j)) =
     Inr (?h[a := Some (take (Suc j) ?ys @ xs @ drop (Suc j + length xs) ?ys)])"
    using Cons.prems by (intro Cons.IH 2) simp_all
  have 3: "take (Suc j) ?ys = take j ys @ [x]"
    using Cons.prems by (simp add: take_Suc_conv_app_nth)
  show ?case
    using Cons.prems by (simp add: 1 IH 3 ptr_add_def)
qed

lemma fill_loop_block:
  "block h (Some a) = Some ys \<Longrightarrow> j + n \<le> length ys \<Longrightarrow>
   fill_loop h (Ptr (Some a) j) n x =
     Inr (h[a := Some (take j ys @ replicate n x @ drop (j + n) ys)])"
proof (induction n arbitrary: h ys j)
  case 0
  then show ?case by (simp add: update_block_same)
next
  case (Suc n)
  let ?ys = "ys[j := x]"
  let ?h = "h[a := Some ?ys]"
  have al: "a < length h" using Suc.prems(1) by (rule block_Some_less)
  have 1: "store h (Ptr (Some a) j) x = Inr ?h"
    using Suc.prems by (simp add: store_Ptr)
  have 2: "block ?h (Some a) = Some ?ys"
    using al by (simp add: block_update)
  have IH: "fill_loop ?h (Ptr (Some a) (Suc j)) n x =
     Inr (?h[a := Some (take (Suc j) ?ys @ replicate n x @ drop (Suc j + n) ?ys)])"
    using Suc.prems by (intro Suc.IH 2) simp_all
  have 3: "take (Suc j) ?ys = take j ys @ [x]"
    using Suc.prems by (simp add: take_Suc_conv_app_nth)
  show ?case
    using Suc.prems by (simp add: 1 IH 3 ptr_add_def)
qed

section \<open>Reallocation and resizing\<close>

lemma ArrayPtr_size_pos:
  "0 < n \<Longrightarrow> ArrayPtr_size h n = (h @ [Some (replicate n default)], \<lparr>raw_ptr_m = Some (length h)\<rparr>)"
  by (simp add: ArrayPtr_size_def new_array_def)

lemma ArrayPtr_size_0: "ArrayPtr_size h 0 = (h, \<lparr>raw_ptr_m = None\<rparr>)"
  by (simp add: ArrayPtr_size_def ArrayPtr_default_def)

lemma length_buffer: "well_formed h v \<Longrightarrow> length (buffer h v) = capacity_m v"
  by (auto simp: well_formed_def buffer_def split: option.splits)

lemma length_elements: "well_formed h v \<Longrightarrow> length (elements h v) = size_m v"
  by (simp add: elements_def length_buffer well_formed_def)

lemma wf_size_le: "well_formed h v \<Longrightarrow> size_m v \<le> capacity_m v"
  by (simp add: well_formed_def)

lemma wf_block:
  "well_formed h v \<Longrightarrow> raw_ptr_m (items_m v) = Some a \<Longrightarrow> block h (Some a) = Some (buffer h v)"
  by (auto simp: well_formed_def buffer_def split: option.splits)

lemma wf_raw_Some:
  "well_formed h v \<Longrightarrow> 0 < capacity_m v \<Longrightarrow> \<exists>a. raw_ptr_m (items_m v) = Some a"
  by (auto simp: well_formed_def split: option.splits)

lemma wf_raw_less: "well_formed h v \<Longrightarrow> raw_ptr_m (items_m v) = Some a \<Longrightarrow> a < length h"
  by (auto simp: well_formed_def dest: block_Some_less split: option.splits)

lemma block_released_new:
  "well_formed h v \<Longrightarrow> block (released (h @ [y]) (raw_ptr_m (items_m v))) (Some (length h)) = y"
  by (cases "raw_ptr_m (items_m v)")
     (auto simp: released_def block_append block_update dest: wf_raw_less)

lemma length_released [simp]: "length (released h raw) = length h"
  by (simp add: released_def split: option.splits)

lemma reallocate_wf:
  assumes "well_formed h v" and "size_m v \<le> nc" and "0 < nc"
  shows "reallocate h v nc =
     Inr (released (h @ [Some (elements h v @ replicate (nc - size_m v) default)])
            (raw_ptr_m (items_m v)),
          v\<lparr>items_m := \<lparr>raw_ptr_m = Some (length h)\<rparr>, capacity_m := nc\<rparr>)"
proof (cases "raw_ptr_m (items_m v)")
  case None
  then have "capacity_m v = 0" "size_m v = 0"
    using assms(1) by (auto simp: well_formed_def)
  then show ?thesis
    using None assms(3)
    by (simp add: reallocate_def ArrayPtr_size_pos std_move_def std_copy_def begin_it_def
        end_it_def Get_def ptr_add_def ptr_diff_def bind_result_def ArrayPtr_swap_distinct_eq
        ArrayPtr_destroy_def delete_array_def released_def elements_def)
next
  case (Some a)
  let ?xs = "buffer h v"
  let ?h1 = "h @ [Some (replicate nc default)]"
  have al: "a < length h" using assms(1) Some by (rule wf_raw_less)
  have bl: "block h (Some a) = Some ?xs" using assms(1) Some by (rule wf_block)
  have len: "length ?xs = capacity_m v" using assms(1) by (rule length_buffer)
  have sz: "size_m v \<le> capacity_m v" using assms(1) by (rule wf_size_le)
  have b1: "block ?h1 (Some a) = Some ?xs" "block ?h1 (Some (length h)) = Some (replicate nc default)"
    using al bl by (simp_all add: block_append)
  have copy: "copy_loop ?h1 (Ptr (Some a) 0) (Ptr (Some (length h)) 0) (size_m v) =
     Inr (?h1[length h := Some (take 0 (replicate nc default) @ take (size_m v) (drop 0 ?xs)
                                 @ drop (0 + size_m v) (replicate nc default))])"
    using al len sz assms(2) by (intro copy_loop_distinct b1) simp_all
  have h2: "?h1[length h := Some (take 0 (replicate nc default) @ take (size_m v) (drop 0 ?xs)
                                 @ drop (0 + size_m v) (replicate nc default))] =
        h @ [Some (elements h v @ replicate (nc - size_m v) default)]"
    by (simp add: elements_def)
  have b2: "block (h @ [Some (elements h v @ replicate (nc - size_m v) default)]) (Some a) = Some ?xs"
    using al bl by (simp add: block_append)
  show ?thesis
    using Some copy b2 unfolding h2
    by (simp add: reallocate_def ArrayPtr_size_pos assms(3) std_move_def std_copy_def begin_it_def
        end_it_def Get_def ptr_add_def ptr_diff_def bind_result_def ArrayPtr_swap_distinct_eq
        ArrayPtr_destroy_def delete_array_def released_def)
qed

lemma wf_reallocated:
  assumes "well_formed h v" and "length ys = nc" and "n \<le> nc"
  shows "well_formed (released (h @ [Some ys]) (raw_ptr_m (items_m v)))
           (v\<lparr>items_m := \<lparr>raw_ptr_m = Some (length h)\<rparr>, capacity_m := nc, size_m := n\<rparr>)"
    and "buffer (released (h @ [Some ys]) (raw_ptr_m (items_m v)))
           (v\<lparr>items_m := \<lparr>raw_ptr_m = Some (length h)\<rparr>, capacity_m := nc, size_m := n\<rparr>) = ys"
  using assms by (simp_all add: well_formed_def buffer_def block_released_new [OF assms(1)])

lemma Resize_grow:
  assumes "well_formed h v" and "capacity_m v < n"
  shows "Resize h v n =
     Inr (released (h @ [Some (elements h v @ replicate (grown n (capacity_m v) - size_m v) default)])
            (raw_ptr_m (items_m v)),
          v\<lparr>items_m := \<lparr>raw_ptr_m = Some (length h)\<rparr>, capacity_m := grown n (capacity_m v),
            size_m := n\<rparr>)"
proof -
  have "size_m v \<le> grown n (capacity_m v)" "0 < grown n (capacity_m v)"
    using assms wf_size_le [OF assms(1)] by (simp_all add: grown_def)
  then show ?thesis
    using assms(2) reallocate_wf [OF assms(1), of "grown n (capacity_m v)"]
    by (simp add: Resize_def grown_def bind_result_def)
qed

lemma Resize_within:
  assumes "well_formed h v" and "size_m v < n" and "n \<le> capacity_m v"
    and "raw_ptr_m (items_m v) = Some a"
  shows "Resize h v n =
     Inr (h[a := Some (elements h v @ replicate (n - size_m v) default @ drop n (buffer h v))],
          v\<lparr>size_m := n\<rparr>)"
proof -
  have "Resize_fill h (items_m v) (size_m v) n =
     Inr (h[a := Some (take (size_m v) (buffer h v) @ replicate (n - size_m v) default
                        @ drop n (buffer h v))])"
    using assms length_buffer [OF assms(1)]
    by (intro Resize_fill_block wf_block) simp_all
  then show ?thesis
    using assms by (simp add: Resize_def bind_result_def elements_def)
qed

lemma Resize_shrink: "n \<le> size_m v \<Longrightarrow> n \<le> capacity_m v \<Longrightarrow> Resize h v n = Inr (h, v\<lparr>size_m := n\<rparr>)"
  by (simp add: Resize_def bind_result_def)

lemma wf_update_block:
  assumes "well_formed h v" and "raw_ptr_m (items_m v) = Some a" and "length ys = capacity_m v"
    and "n \<le> capacity_m v"
  shows "well_formed (h[a := Some ys]) (v\<lparr>size_m := n\<rparr>)"
    and "buffer (h[a := Some ys]) (v\<lparr>size_m := n\<rparr>) = ys"
  using assms wf_raw_less [OF assms(1,2)] by (simp_all add: well_formed_def buffer_def block_update)

lemma wf_set_size: "well_formed h v \<Longrightarrow> n \<le> capacity_m v \<Longrightarrow> well_formed h (v\<lparr>size_m := n\<rparr>)"
  by (auto simp: well_formed_def split: option.splits)

lemma buffer_set_size [simp]: "buffer h (v\<lparr>size_m := n\<rparr>) = buffer h v"
  by (simp add: buffer_def)

text \<open>Resize, all three branches at once.\<close>

lemma Resize_wf:
  assumes "well_formed h v"
  shows "\<exists>h' v'. Resize h v n = Inr (h', v') \<and> well_formed h' v' \<and> size_m v' = n \<and>
           capacity_m v' = (if capacity_m v < n then grown n (capacity_m v) else capacity_m v) \<and>
           elements h' v' = take n (elements h v) @ replicate (n - size_m v) default \<and>
           items_m v' = (if capacity_m v < n then \<lparr>raw_ptr_m = Some (length h)\<rparr> else items_m v) \<and>
           length h' = (if capacity_m v < n then Suc (length h) else length h)"
proof -
  have sz: "size_m v \<le> capacity_m v" using assms by (rule wf_size_le)
  have le: "length (elements h v) = size_m v" using assms by (rule length_elements)
  consider (grow) "capacity_m v < n" | (within) "size_m v < n" "n \<le> capacity_m v"
    | (shrink) "n \<le> size_m v" by linarith
  then show ?thesis
  proof cases
    case grow
    let ?ys = "elements h v @ replicate (grown n (capacity_m v) - size_m v) default"
    have g: "n \<le> grown n (capacity_m v)" by (simp add: grown_def)
    have ly: "length ?ys = grown n (capacity_m v)"
      using le sz grow g by simp
    have el: "take n ?ys = take n (elements h v) @ replicate (n - size_m v) default"
      using le sz grow g by simp
    show ?thesis
      using grow wf_reallocated [OF assms ly g] el
      by (simp add: Resize_grow [OF assms grow] elements_def)
  next
    case within
    then obtain a where a: "raw_ptr_m (items_m v) = Some a"
      using wf_raw_Some [OF assms] by fastforce
    let ?ys = "elements h v @ replicate (n - size_m v) default @ drop n (buffer h v)"
    have ly: "length ?ys = capacity_m v"
      using le within length_buffer [OF assms] by simp
    have el: "take n ?ys = take n (elements h v) @ replicate (n - size_m v) default"
      using le within by simp
    show ?thesis
      using within wf_update_block [OF assms a ly within(2)] el
      by (simp add: Resize_within [OF assms within a] elements_def)
  next
    case shrink
    then have "n \<le> capacity_m v" using sz by simp
    then show ?thesis
      using shrink assms by (simp add: Resize_shrink wf_set_size elements_def min_def)
  qed
qed

lemma ResizeCurrentVector_wf:
  assumes "well_formed h v"
  shows "\<exists>h1 v1. ResizeCurrentVector h v = Inr (h1, v1) \<and> well_formed h1 v1 \<and>
           size_m v1 = size_m v + 1 \<and>
           capacity_m v1 = (if size_m v = capacity_m v then grown (size_m v + 1) (capacity_m v)
                            else capacity_m v) \<and>
           take (size_m v) (buffer h1 v1) = elements h v \<and>
           items_m v1 = (if size_m v = capacity_m v then \<lparr>raw_ptr_m = Some (length h)\<rparr>
                         else items_m v) \<and>
           length h1 = (if size_m v = capacity_m v then Suc (length h) else length h)"
proof (cases "capacity_m v \<le> size_m v")
  case True
  then have eq: "size_m v = capacity_m v" using wf_size_le [OF assms] by simp
  obtain h1 v1 where r: "Resize h v (size_m v + 1) = Inr (h1, v1)" "well_formed h1 v1"
      "size_m v1 = size_m v + 1"
      "capacity_m v1 = (if capacity_m v < size_m v + 1 then grown (size_m v + 1) (capacity_m v)
                        else capacity_m v)"
      "elements h1 v1 = take (size_m v + 1) (elements h v) @ replicate (size_m v + 1 - size_m v) default"
      "items_m v1 = (if capacity_m v < size_m v + 1 then \<lparr>raw_ptr_m = Some (length h)\<rparr>
                     else items_m v)"
      "length h1 = (if capacity_m v < size_m v + 1 then Suc (length h) else length h)"
    using Resize_wf [OF assms, of "size_m v + 1"] by blast
  have "take (size_m v) (elements h1 v1) = elements h v"
    using r(5) length_elements [OF assms] by simp
  then have "take (size_m v) (buffer h1 v1) = elements h v"
    using r(3) by (simp add: elements_def)
  then show ?thesis
    using True eq r by (simp add: ResizeCurrentVector_def)
next
  case False
  then have "size_m v \<noteq> capacity_m v" by simp
  then show ?thesis
    using False assms by (simp add: ResizeCurrentVector_def wf_set_size elements_def)
qed

section \<open>Steps that leave the other arrays alone\<close>

lemma unchanged_outside_refl [simp]: "unchanged_outside h h raw"
  by (simp add: unchanged_outside_def)

lemma unchanged_outside_trans:
  "unchanged_outside h h1 r1 \<Longrightarrow> unchanged_outside h1 h2 r2 \<Longrightarrow>
   (\<And>b. b < length h \<Longrightarrow> Some b \<noteq> r \<Longrightarrow> Some b \<noteq> r1 \<and> Some b \<noteq> r2) \<Longrightarrow>
   unchanged_outside h h2 r"
  by (auto simp: unchanged_outside_def)

lemma store_frame: "store h p x = Inr h' \<Longrightarrow> unchanged_outside h h' (base p)"
  by (cases "base p")
     (auto simp: store_def unchanged_outside_def split: option.splits if_splits)

lemma delete_array_frame: "delete_array h raw = Inr h' \<Longrightarrow> unchanged_outside h h' raw"
  by (auto simp: delete_array_def unchanged_outside_def split: option.splits)

lemma copy_loop_frame:
  "copy_loop h src dst n = Inr h' \<Longrightarrow> unchanged_outside h h' (base dst)"
proof (induction n arbitrary: h src dst)
  case 0
  then show ?case by simp
next
  case (Suc n)
  then obtain x h1 where 1: "store h dst x = Inr h1"
      and 2: "copy_loop h1 (ptr_add src 1) (ptr_add dst 1) n = Inr h'"
    by (auto split: sum.splits)
  have "unchanged_outside h1 h' (base dst)"
    using Suc.IH [OF 2] by (simp add: ptr_add_def)
  with store_frame [OF 1] show ?case
    by (rule unchanged_outside_trans) simp
qed

lemma copy_backward_loop_frame:
  "copy_backward_loop h lst d_last n = Inr (h', it) \<Longrightarrow>
   unchanged_outside h h' (base d_last) \<and> base it = base d_last"
proof (induction n arbitrary: h lst d_last)
  case 0
  then show ?case by simp
next
  case (Suc n)
  then obtain lst' d' x h1 where 0: "ptr_sub d_last 1 = Inr d'"
      and 1: "store h d' x = Inr h1"
      and 2: "copy_backward_loop h1 lst' d' n = Inr (h', it)"
    by (auto split: sum.splits)
  have b: "base d' = base d_last"
    using 0 by (auto simp: ptr_sub_def split: if_splits)
  have "unchanged_outside h1 h' (base d_last)" "base it = base d_last"
    using Suc.IH [OF 2] b by simp_all
  moreover have "unchanged_outside h h1 (base d_last)"
    using store_frame [OF 1] b by simp
  ultimately show ?case
    by (auto intro: unchanged_outside_trans)
qed

lemma Resize_fill_frame:
  "Resize_fill h items i n = Inr h' \<Longrightarrow> unchanged_outside h h' (raw_ptr_m items)"
proof (induction h items i n rule: Resize_fill.induct)
  case (1 h items i n)
  show ?case
  proof (cases "i < n")
    case False
    then show ?thesis using "1.prems" by (simp add: Resize_fill.simps [of h])
  next
    case True
    then obtain h1 where s: "store h (ArrayPtr_index items i) default = Inr h1"
        and r: "Resize_fill h1 items (Suc i) n = Inr h'"
      using "1.prems" by (auto simp: Resize_fill.simps [of h] split: sum.splits)
    have "unchanged_outside h h1 (raw_ptr_m items)"
      using store_frame [OF s] by (simp add: ArrayPtr_index_def)
    moreover have "unchanged_outside h1 h' (raw_ptr_m items)"
      using "1.IH" [OF True s r] .
    ultimately show ?thesis
      by (rule unchanged_outside_trans) simp
  qed
qed

text \<open>
  What a reallocation does to the heap and to the pointer of the vector: the new array, if
  there is one, is at the first address beyond the heap before.
\<close>

lemma reallocate_frame:
  assumes "reallocate h v nc = Inr (h', v')"
  shows "unchanged_outside h h' (raw_ptr_m (items_m v)) \<and>
         (raw_ptr_m (items_m v') = None \<or> raw_ptr_m (items_m v') = Some (length h))"
proof -
  obtain h1 temp where a: "ArrayPtr_size h nc = (h1, temp)"
    by (cases "ArrayPtr_size h nc")
  have t: "unchanged_outside h h1 None"
      "raw_ptr_m temp = None \<or> raw_ptr_m temp = Some (length h)"
    using a by (auto simp: ArrayPtr_size_def new_array_def ArrayPtr_default_def
        unchanged_outside_def nth_append split: if_splits)
  obtain h2 where m: "std_move h1 (begin_it v) (end_it v) (Get temp) = Inr h2"
      and d: "ArrayPtr_destroy h2 (items_m v) = Inr h'" and v': "items_m v' = temp"
    using assms a
    by (auto simp: reallocate_def bind_result_def ArrayPtr_swap_distinct_eq split: sum.splits)
  have f1: "unchanged_outside h1 h2 (raw_ptr_m temp)"
    using m copy_loop_frame [of h1 "begin_it v" "Get temp" _ h2]
    by (auto simp: std_move_def std_copy_def bind_result_def Get_def split: sum.splits)
  have f2: "unchanged_outside h2 h' (raw_ptr_m (items_m v))"
    using d by (simp add: ArrayPtr_destroy_def delete_array_frame)
  have "unchanged_outside h h2 (raw_ptr_m (items_m v))"
    using t(1) f1 by (rule unchanged_outside_trans) (use t(2) in auto)
  then have "unchanged_outside h h' (raw_ptr_m (items_m v))"
    using f2 by (rule unchanged_outside_trans) simp
  then show ?thesis
    using t(2) v' by simp
qed

lemma touches_only_own_refl [simp]: "touches_only_own h v h v"
  by (simp add: touches_only_own_def)

lemma touches_only_own_size [simp]:
  "touches_only_own h v h' (v'\<lparr>size_m := n\<rparr>) = touches_only_own h v h' v'"
  "touches_only_own h (v\<lparr>size_m := n\<rparr>) h' v' = touches_only_own h v h' v'"
  by (simp_all add: touches_only_own_def)

lemma touches_then_own_write:
  assumes "touches_only_own h v h1 v1"
    and "unchanged_outside h1 h2 (raw_ptr_m (items_m v1))"
  shows "touches_only_own h v h2 v1"
proof -
  have "unchanged_outside h h2 (raw_ptr_m (items_m v))"
    using assms(1) [unfolded touches_only_own_def, THEN conjunct1] assms(2)
    by (rule unchanged_outside_trans) (use assms(1) in \<open>auto simp: touches_only_own_def\<close>)
  then show ?thesis
    using assms(1) by (simp add: touches_only_own_def)
qed

lemma Resize_own: "Resize h v n = Inr (h', v') \<Longrightarrow> touches_only_own h v h' v'"
  by (auto simp: Resize_def bind_result_def touches_only_own_def
      dest!: reallocate_frame Resize_fill_frame split: if_splits sum.splits)

lemma ResizeCurrentVector_own:
  "ResizeCurrentVector h v = Inr (h', v') \<Longrightarrow> touches_only_own h v h' v'"
  by (auto simp: ResizeCurrentVector_def dest: Resize_own split: if_splits)

lemma Reserve_own: "Reserve h v n = Inr (h', v') \<Longrightarrow> touches_only_own h v h' v'"
  by (auto simp: Reserve_def touches_only_own_def dest!: reallocate_frame split: if_splits)

lemma update_frame: "unchanged_outside h (h[a := y]) (Some a)"
  by (simp add: unchanged_outside_def)

text \<open>
  A reference that can be read, and is not bound inside the array a step may change or
  delete, reads the same after the step.
\<close>

lemma deref_frame:
  assumes "deref h r = Inr x" and "unchanged_outside h h' raw"
    and "\<And>p. r = Element p \<Longrightarrow> base p \<noteq> raw"
  shows "deref h' r = Inr x"
proof (cases r)
  case (Outside y)
  then show ?thesis using assms(1) by (simp add: deref_def)
next
  case (Element p)
  then have l: "load h p = Inr x" using assms(1) by (simp add: deref_def)
  then obtain b xs where b: "base p = Some b" "b < length h" "h ! b = Some xs"
      "off p < length xs" "x = xs ! off p"
    by (auto simp: load_def block_def split: option.splits if_splits)
  have "Some b \<noteq> raw" using assms(3) [OF Element] b(1) by simp
  then have "h' ! b = h ! b" "b < length h'"
    using assms(2) b(2) by (auto simp: unchanged_outside_def)
  then show ?thesis
    using Element b by (simp add: deref_def load_def block_def)
qed

lemma block_released_old: "block (released h raw) raw = None"
  by (cases raw) (simp_all add: released_def block_def)

section \<open>PushBack on well-formed vectors\<close>

lemma store_wf:
  assumes "well_formed h v" and "i < capacity_m v"
  shows "\<exists>h'. store h (ArrayPtr_index (items_m v) i) x = Inr h' \<and> well_formed h' v \<and>
           buffer h' v = (buffer h v)[i := x] \<and> length h' = length h"
proof -
  obtain a where a: "raw_ptr_m (items_m v) = Some a"
    using wf_raw_Some [OF assms(1)] assms(2) by fastforce
  have "store h (Ptr (Some a) i) x = Inr (h[a := Some ((buffer h v)[i := x])])"
    using assms length_buffer [OF assms(1)] by (intro store_Ptr wf_block a) simp_all
  moreover have "well_formed (h[a := Some ((buffer h v)[i := x])]) v"
      "buffer (h[a := Some ((buffer h v)[i := x])]) v = (buffer h v)[i := x]"
    using assms a wf_raw_less [OF assms(1) a] length_buffer [OF assms(1)]
    by (simp_all add: well_formed_def buffer_def block_update)
  ultimately show ?thesis
    using a by (simp add: ArrayPtr_index_def)
qed

text \<open>
  \<^verbatim>\<open>PushBack\<close> of an argument that can be read at the call and that is not bound
  inside the array of the vector when the vector is full.
\<close>

lemma PushBack_wf:
  assumes "well_formed h v" and "deref h item = Inr x"
    and "\<not> (size_m v = capacity_m v \<and> in_own_array v item)"
  shows "\<exists>h' v'. PushBack h v item = Inr (h', v') \<and> well_formed h' v' \<and>
           size_m v' = size_m v + 1 \<and>
           capacity_m v' = (if size_m v = capacity_m v then grown (size_m v + 1) (capacity_m v)
                            else capacity_m v) \<and>
           elements h' v' = elements h v @ [x] \<and>
           items_m v' = (if size_m v = capacity_m v then \<lparr>raw_ptr_m = Some (length h)\<rparr>
                         else items_m v) \<and>
           length h' = (if size_m v = capacity_m v then Suc (length h) else length h)"
proof -
  obtain h1 v1 where r: "ResizeCurrentVector h v = Inr (h1, v1)" "well_formed h1 v1"
      "size_m v1 = size_m v + 1"
      "capacity_m v1 = (if size_m v = capacity_m v then grown (size_m v + 1) (capacity_m v)
                        else capacity_m v)"
      "take (size_m v) (buffer h1 v1) = elements h v"
      "items_m v1 = (if size_m v = capacity_m v then \<lparr>raw_ptr_m = Some (length h)\<rparr>
                     else items_m v)"
      "length h1 = (if size_m v = capacity_m v then Suc (length h) else length h)"
    using ResizeCurrentVector_wf [OF assms(1)] by blast
  have d: "deref h1 item = Inr x"
  proof (cases "size_m v = capacity_m v")
    case True
    then have n: "\<not> in_own_array v item" using assms(3) by simp
    have "unchanged_outside h h1 (raw_ptr_m (items_m v))"
      using ResizeCurrentVector_own [OF r(1)] by (simp add: touches_only_own_def)
    with assms(2) show ?thesis
      by (rule deref_frame) (use n in \<open>simp add: in_own_array_def\<close>)
  next
    case False
    then have "h1 = h"
      using r(1) wf_size_le [OF assms(1)] by (simp add: ResizeCurrentVector_def)
    then show ?thesis using assms(2) by simp
  qed
  have lt: "size_m v < capacity_m v1" using wf_size_le [OF r(2)] r(3) by simp
  obtain h2 where s: "store h1 (ArrayPtr_index (items_m v1) (size_m v)) x = Inr h2" "well_formed h2 v1"
      "buffer h2 v1 = (buffer h1 v1)[size_m v := x]" "length h2 = length h1"
    using store_wf [OF r(2) lt] by blast
  have "elements h2 v1 = elements h v @ [x]"
    using r(3,5) s(3) lt length_buffer [OF r(2)]
    by (simp add: elements_def take_Suc_conv_app_nth)
  then show ?thesis
    using r s d by (simp add: PushBack_def bind_result_def)
qed

text \<open>
  \<^verbatim>\<open>PushBack\<close> on a full vector of an argument bound inside the array of the
  vector: \<^verbatim>\<open>ResizeCurrentVector\<close> deletes that array, and the assignment then reads
  the argument.
\<close>

lemma PushBack_of_own_element_full:
  assumes "well_formed h v" and "size_m v = capacity_m v" and "in_own_array v item"
  shows "PushBack h v item = Inl undefined_behaviour"
proof -
  obtain p where p: "item = Element p" "base p = raw_ptr_m (items_m v)"
    using assms(3) by (cases item) (simp_all add: in_own_array_def)
  have "capacity_m v < size_m v + 1" using assms(2) by simp
  from Resize_grow [OF assms(1) this]
  obtain ys v1 where "Resize h v (size_m v + 1) =
      Inr (released (h @ [Some ys]) (raw_ptr_m (items_m v)), v1)"
    by blast
  then have r: "ResizeCurrentVector h v =
      Inr (released (h @ [Some ys]) (raw_ptr_m (items_m v)), v1)"
    using assms(2) by (simp add: ResizeCurrentVector_def)
  have "load (released (h @ [Some ys]) (raw_ptr_m (items_m v))) p = Inl undefined_behaviour"
    by (simp add: load_def p(2) block_released_old)
  then show ?thesis
    by (simp add: PushBack_def r p(1) deref_def bind_result_def)
qed

lemma PushBack_own:
  assumes "PushBack h v item = Inr (h', v')"
  shows "touches_only_own h v h' v'"
proof -
  obtain h1 x where r: "ResizeCurrentVector h v = Inr (h1, v')"
      and s: "store h1 (ArrayPtr_index (items_m v') (size_m v' - 1)) x = Inr h'"
    using assms by (auto simp: PushBack_def bind_result_def split: sum.splits)
  have "unchanged_outside h1 h' (raw_ptr_m (items_m v'))"
    using store_frame [OF s] by (simp add: ArrayPtr_index_def)
  with ResizeCurrentVector_own [OF r] show ?thesis
    by (rule touches_then_own_write)
qed

section \<open>Insert, Erase, Reserve, At on well-formed vectors\<close>

text \<open>
  \<^verbatim>\<open>Insert\<close> of an argument that can be read at the call and is not bound inside the
  array of the vector.
\<close>

lemma Insert_wf:
  assumes "well_formed h v" and "i \<le> size_m v"
    and "deref h val = Inr x" and "\<not> in_own_array v val"
  shows "\<exists>h' v'. Insert h v (ptr_add (begin_it v) i) val =
             Inr (h', v', ptr_add (begin_it v') i) \<and>
           well_formed h' v' \<and> size_m v' = size_m v + 1 \<and>
           capacity_m v' = (if size_m v = capacity_m v then grown (size_m v + 1) (capacity_m v)
                            else capacity_m v) \<and>
           elements h' v' = take i (elements h v) @ [x] @ drop i (elements h v) \<and>
           items_m v' = (if size_m v = capacity_m v then \<lparr>raw_ptr_m = Some (length h)\<rparr>
                         else items_m v) \<and>
           length h' = (if size_m v = capacity_m v then Suc (length h) else length h)"
proof (cases "i = size_m v")
  case True
  obtain h' v' where r: "PushBack h v val = Inr (h', v')" "well_formed h' v'"
      "size_m v' = size_m v + 1"
      "capacity_m v' = (if size_m v = capacity_m v then grown (size_m v + 1) (capacity_m v)
                        else capacity_m v)"
      "elements h' v' = elements h v @ [x]"
      "items_m v' = (if size_m v = capacity_m v then \<lparr>raw_ptr_m = Some (length h)\<rparr>
                     else items_m v)"
      "length h' = (if size_m v = capacity_m v then Suc (length h) else length h)"
    using PushBack_wf [OF assms(1,3)] assms(4) by blast
  have pos: "ptr_add (begin_it v) i = cend v"
    using True by (simp add: begin_it_def cend_def)
  have it: "ptr_sub (end_it v') 1 = Inr (ptr_add (begin_it v') i)"
    using True r(3) by (simp add: ptr_sub_def end_it_def begin_it_def ptr_add_def Get_def)
  have "take i (elements h v) @ [x] @ drop i (elements h v) = elements h v @ [x]"
    using True length_elements [OF assms(1)] by simp
  then show ?thesis
    using r it by (simp add: Insert_def pos bind_result_def)
next
  case False
  then have lt: "i < size_m v" using assms(2) by simp
  let ?n = "size_m v"
  obtain h1 v1 where r: "ResizeCurrentVector h v = Inr (h1, v1)" "well_formed h1 v1"
      "size_m v1 = ?n + 1"
      "capacity_m v1 = (if ?n = capacity_m v then grown (?n + 1) (capacity_m v)
                        else capacity_m v)"
      "take ?n (buffer h1 v1) = elements h v"
      "items_m v1 = (if ?n = capacity_m v then \<lparr>raw_ptr_m = Some (length h)\<rparr>
                     else items_m v)"
      "length h1 = (if ?n = capacity_m v then Suc (length h) else length h)"
    using ResizeCurrentVector_wf [OF assms(1)] by blast
  let ?bs = "buffer h1 v1"
  have cap: "?n + 1 \<le> capacity_m v1" using wf_size_le [OF r(2)] r(3) by simp
  have len: "length ?bs = capacity_m v1" using r(2) by (rule length_buffer)
  obtain a1 where a1: "raw_ptr_m (items_m v1) = Some a1"
    using wf_raw_Some [OF r(2)] cap by fastforce
  have bl: "block h1 (Some a1) = Some ?bs" using r(2) a1 by (rule wf_block)
  have pos: "ptr_add (begin_it v) i \<noteq> cend v"
    using lt by (simp add: begin_it_def cend_def ptr_add_def Get_def)
  have idx: "ptr_diff (ptr_add (begin_it v) i) (Get (items_m v)) = Inr i"
    by (simp add: ptr_diff_def begin_it_def ptr_add_def Get_def)
  have e1: "end_it v1 = Ptr (Some a1) (?n + 1)"
    using a1 r(3) by (simp add: end_it_def ptr_add_def Get_def)
  have s1: "ptr_sub (Ptr (Some a1) (?n + 1)) 1 = Inr (Ptr (Some a1) ?n)"
    by (simp add: ptr_sub_def)
  have loop: "copy_backward_loop h1 (Ptr (Some a1) ?n) (Ptr (Some a1) (?n + 1)) (?n - i) =
     Inr (h1[a1 := Some (take (?n + 1 - (?n - i)) ?bs @ take (?n - i) (drop (?n - (?n - i)) ?bs)
                          @ drop (?n + 1) ?bs)],
          Ptr (Some a1) (?n + 1 - (?n - i)))"
    using cap len by (intro copy_backward_loop_right bl) simp_all
  let ?cs = "take (i + 1) ?bs @ take (?n - i) (drop i ?bs) @ drop (?n + 1) ?bs"
  have ar: "?n + 1 - (?n - i) = i + 1" "?n - (?n - i) = i"
    using lt by simp_all
  have cb: "std_copy_backward h1 (ArrayPtr_index (items_m v1) i) (Ptr (Some a1) ?n)
              (Ptr (Some a1) (?n + 1)) = Inr (h1[a1 := Some ?cs], Ptr (Some a1) (i + 1))"
    using loop lt a1 unfolding ar
    by (simp add: std_copy_backward_def ptr_diff_def ArrayPtr_index_def bind_result_def)
  have s2: "ptr_sub (Ptr (Some a1) (i + 1)) 1 = Inr (Ptr (Some a1) i)"
    by (simp add: ptr_sub_def)
  have al: "a1 < length h1" using r(2) a1 by (rule wf_raw_less)
  have lcs: "length ?cs = capacity_m v1"
    using len cap lt by simp
  have bl2: "block (h1[a1 := Some ?cs]) (Some a1) = Some ?cs"
    using al by (simp add: block_update)
  have "touches_only_own h v (h1[a1 := Some ?cs]) v1"
    using ResizeCurrentVector_own [OF r(1)] by (rule touches_then_own_write) (simp add: a1 update_frame)
  then have "unchanged_outside h (h1[a1 := Some ?cs]) (raw_ptr_m (items_m v))"
    by (simp add: touches_only_own_def)
  with assms(3) have dr: "deref (h1[a1 := Some ?cs]) val = Inr x"
    by (rule deref_frame) (use assms(4) in \<open>simp add: in_own_array_def\<close>)
  have st: "store (h1[a1 := Some ?cs]) (Ptr (Some a1) i) x = Inr (h1[a1 := Some (?cs[i := x])])"
    using store_Ptr [OF bl2, of i x] lcs cap lt by simp
  have wf': "well_formed (h1[a1 := Some (?cs[i := x])]) v1"
     and bf': "buffer (h1[a1 := Some (?cs[i := x])]) v1 = ?cs[i := x]"
    using r(2) a1 al lcs by (simp_all add: well_formed_def buffer_def block_update)
  have t1: "take i (take ?n ?bs) = take i ?bs" using lt by (simp add: min_def)
  have t2: "drop i (take ?n ?bs) = take (?n - i) (drop i ?bs)" by (simp add: drop_take)
  have "take (?n + 1) (?cs[i := x]) = take i ?bs @ [x] @ take (?n - i) (drop i ?bs)"
    using len cap lt
    by (simp add: list_update_append take_Suc_conv_app_nth min_def Suc_diff_le)
  then have el: "elements (h1[a1 := Some (?cs[i := x])]) v1 =
      take i (elements h v) @ [x] @ drop i (elements h v)"
    using r(3) bf' t1 t2 unfolding r(5) [symmetric] by (simp add: elements_def)
  have ret: "ptr_add (begin_it v1) i = Ptr (Some a1) i"
    using a1 by (simp add: begin_it_def ptr_add_def Get_def)
  have "Insert h v (ptr_add (begin_it v) i) val =
          Inr (h1[a1 := Some (?cs[i := x])], v1, Ptr (Some a1) i)"
    using pos by (simp add: Insert_def idx r(1) e1 s1 cb s2 dr st bind_result_def del: One_nat_def)
  then show ?thesis
    using wf' el r(3,4,6,7) ret by simp
qed

lemma Erase_wf:
  assumes "well_formed h v" and "i < size_m v"
  shows "\<exists>h'. Erase h v (ptr_add (begin_it v) i) =
             Inr (h', v\<lparr>size_m := size_m v - 1\<rparr>, ptr_add (begin_it v) i) \<and>
           well_formed h' (v\<lparr>size_m := size_m v - 1\<rparr>) \<and>
           elements h' (v\<lparr>size_m := size_m v - 1\<rparr>) =
             take i (elements h v) @ drop (i + 1) (elements h v)"
proof -
  let ?n = "size_m v"
  let ?bs = "buffer h v"
  let ?v' = "v\<lparr>size_m := ?n - 1\<rparr>"
  have cap: "?n \<le> capacity_m v" using assms(1) by (rule wf_size_le)
  have len: "length ?bs = capacity_m v" using assms(1) by (rule length_buffer)
  obtain a where a: "raw_ptr_m (items_m v) = Some a"
    using wf_raw_Some [OF assms(1)] cap assms(2) by fastforce
  have bl: "block h (Some a) = Some ?bs" using assms(1) a by (rule wf_block)
  have al: "a < length h" using assms(1) a by (rule wf_raw_less)
  have pos: "ptr_add (begin_it v) i = Ptr (Some a) i" "begin_it v = Ptr (Some a) 0"
     "end_it v = Ptr (Some a) ?n"
    using a by (simp_all add: begin_it_def end_it_def ptr_add_def Get_def)
  have pre: "ptr_le (Ptr (Some a) i) (Ptr (Some a) ?n) = Inr True"
     "ptr_le (Ptr (Some a) 0) (Ptr (Some a) i) = Inr True"
     "ptr_diff (Ptr (Some a) i) (Ptr (Some a) 0) = Inr i"
     "ptr_sub (Ptr (Some a) ?n) 1 = Inr (Ptr (Some a) (?n - 1))"
     "ptr_less (Ptr (Some a) i) (Ptr (Some a) (?n - 1)) = Inr (i < ?n - 1)"
    using assms(2) by (simp_all add: ptr_le_def ptr_diff_def ptr_sub_def ptr_less_def)
  have el0: "take i (elements h v) @ drop (i + 1) (elements h v) =
      take i ?bs @ take (?n - (i + 1)) (drop (i + 1) ?bs)"
    using assms(2) by (simp add: elements_def drop_take min_def)
  show ?thesis
  proof (cases "i < ?n - 1")
    case True
    let ?cs = "take i ?bs @ take (?n - (i + 1)) (drop (i + 1) ?bs) @ drop (i + (?n - (i + 1))) ?bs"
    have loop: "copy_loop h (Ptr (Some a) (i + 1)) (Ptr (Some a) i) (?n - (i + 1)) =
        Inr (h[a := Some ?cs])"
      using True cap len by (intro copy_loop_left bl) simp_all
    have mv: "std_move h (ArrayPtr_index (items_m v) (i + 1)) (Ptr (Some a) ?n)
                (ArrayPtr_index (items_m v) i) = Inr (h[a := Some ?cs])"
      using loop a True
      by (simp add: std_move_def std_copy_def ptr_diff_def ArrayPtr_index_def bind_result_def)
    have lcs: "length ?cs = capacity_m v"
      using True cap len by simp
    have wf': "well_formed (h[a := Some ?cs]) ?v'" and bf': "buffer (h[a := Some ?cs]) ?v' = ?cs"
      using wf_update_block [OF assms(1) a lcs, of "?n - 1"] cap by simp_all
    have "take (?n - 1) ?cs = take i ?bs @ take (?n - (i + 1)) (drop (i + 1) ?bs)"
      using True cap len by (simp add: min_def)
    then have el: "elements (h[a := Some ?cs]) ?v' =
        take i (elements h v) @ drop (i + 1) (elements h v)"
      using bf' el0 by (simp add: elements_def)
    have "Erase h v (Ptr (Some a) i) = Inr (h[a := Some ?cs], ?v', Ptr (Some a) i)"
      using True a mv
      by (simp add: Erase_def pos pre bind_result_def ArrayPtr_index_def del: One_nat_def)
    then show ?thesis
      using wf' el by (simp add: pos ptr_add_def)
  next
    case False
    then have i: "i = ?n - 1" using assms(2) by simp
    have wf': "well_formed h ?v'"
      using wf_set_size [OF assms(1), of "?n - 1"] cap by simp
    have "take (?n - 1) ?bs = take i ?bs @ take (?n - (i + 1)) (drop (i + 1) ?bs)"
      using i by simp
    then have el: "elements h ?v' = take i (elements h v) @ drop (i + 1) (elements h v)"
      using el0 by (simp add: elements_def)
    have "Erase h v (Ptr (Some a) i) = Inr (h, ?v', Ptr (Some a) i)"
      using False a
      by (simp add: Erase_def pos pre bind_result_def ArrayPtr_index_def del: One_nat_def)
    then show ?thesis
      using wf' el by (simp add: pos ptr_add_def)
  qed
qed

lemma Reserve_noop: "c \<le> capacity_m v \<Longrightarrow> Reserve h v c = Inr (h, v)"
  by (simp add: Reserve_def)

lemma Reserve_wf:
  assumes "well_formed h v" and "capacity_m v < c"
  shows "\<exists>h' v'. Reserve h v c = Inr (h', v') \<and> well_formed h' v' \<and> capacity_m v' = c \<and>
           size_m v' = size_m v \<and> elements h' v' = elements h v"
proof -
  let ?ys = "elements h v @ replicate (c - size_m v) default"
  have sz: "size_m v \<le> c" "0 < c" using assms wf_size_le [OF assms(1)] by simp_all
  have le: "length (elements h v) = size_m v" using assms(1) by (rule length_elements)
  have ly: "length ?ys = c" using le sz by simp
  have r: "Reserve h v c = Inr (released (h @ [Some ?ys]) (raw_ptr_m (items_m v)),
            v\<lparr>items_m := \<lparr>raw_ptr_m = Some (length h)\<rparr>, capacity_m := c\<rparr>)"
    using assms(2) reallocate_wf [OF assms(1) sz] by (simp add: Reserve_def)
  have same: "v\<lparr>items_m := \<lparr>raw_ptr_m = Some (length h)\<rparr>, capacity_m := c, size_m := size_m v\<rparr> =
              v\<lparr>items_m := \<lparr>raw_ptr_m = Some (length h)\<rparr>, capacity_m := c\<rparr>"
    by simp
  show ?thesis
    using wf_reallocated [OF assms(1) ly sz(1)] le unfolding same
    by (simp add: r elements_def)
qed

lemma At_load:
  assumes "well_formed h v" and "i < size_m v"
  shows "\<exists>p. At v i = Inr p \<and> load h p = Inr (elements h v ! i)"
proof -
  have cap: "size_m v \<le> capacity_m v" using assms(1) by (rule wf_size_le)
  obtain a where a: "raw_ptr_m (items_m v) = Some a"
    using wf_raw_Some [OF assms(1)] cap assms(2) by fastforce
  have "load h (Ptr (Some a) i) = Inr (buffer h v ! i)"
    using assms cap length_buffer [OF assms(1)] by (intro load_Ptr wf_block a) simp_all
  then show ?thesis
    using assms(2) a by (simp add: At_def ArrayPtr_index_def elements_def)
qed

section \<open>Growth policy\<close>







text \<open>
  An argument inside the array of a full vector. The vector
  \<^verbatim>\<open>SimpleVector<int> v{1, 2}\<close> has size 2 and capacity 2, and
  \<^verbatim>\<open>v[0]\<close> is its element 1. The call \<^verbatim>\<open>v.PushBack(v[0])\<close> needs one more slot than
  the capacity provides. \<^verbatim>\<open>ResizeCurrentVector\<close> moves the elements to a new array of
  capacity 4 and deletes the old one; the body then reads its argument, which is bound to
  an element of the deleted array: the call is undefined behaviour, after the growth
  step. The same holds for \<^verbatim>\<open>v.Insert(v.begin() + 1, v[0])\<close>, in both overloads.
\<close>

lemma PushBack_of_own_element_example:
  "SimpleVector_init ([] :: int heap) [1, 2] =
     Inr ([Some [1, 2]], \<lparr>items_m = \<lparr>raw_ptr_m = Some 0\<rparr>, size_m = 2, capacity_m = 2\<rparr>) \<and>
   Index \<lparr>items_m = \<lparr>raw_ptr_m = Some 0\<rparr>, size_m = 2, capacity_m = 2\<rparr> 0 = Inr (Ptr (Some 0) 0) \<and>
   deref [Some [1, 2 :: int]] (Element (Ptr (Some 0) 0)) = Inr 1 \<and>
   ResizeCurrentVector [Some [1, 2 :: int]]
       \<lparr>items_m = \<lparr>raw_ptr_m = Some 0\<rparr>, size_m = 2, capacity_m = 2\<rparr> =
     Inr ([None, Some [1, 2, 0, 0]],
          \<lparr>items_m = \<lparr>raw_ptr_m = Some 1\<rparr>, size_m = 3, capacity_m = 4\<rparr>) \<and>
   deref [None, Some [1, 2, 0, 0 :: int]] (Element (Ptr (Some 0) 0)) = Inl undefined_behaviour \<and>
   PushBack [Some [1, 2 :: int]] \<lparr>items_m = \<lparr>raw_ptr_m = Some 0\<rparr>, size_m = 2, capacity_m = 2\<rparr>
       (Element (Ptr (Some 0) 0)) = Inl undefined_behaviour \<and>
   Insert [Some [1, 2 :: int]] \<lparr>items_m = \<lparr>raw_ptr_m = Some 0\<rparr>, size_m = 2, capacity_m = 2\<rparr>
       (Ptr (Some 0) 1) (Element (Ptr (Some 0) 0)) = Inl undefined_behaviour \<and>
   Insert_rvalue [Some [1, 2 :: int]]
       \<lparr>items_m = \<lparr>raw_ptr_m = Some 0\<rparr>, size_m = 2, capacity_m = 2\<rparr>
       (Ptr (Some 0) 1) (Element (Ptr (Some 0) 0)) = Inl undefined_behaviour"
proof (intro conjI)
  show "SimpleVector_init ([] :: int heap) [1, 2] =
     Inr ([Some [1, 2]], \<lparr>items_m = \<lparr>raw_ptr_m = Some 0\<rparr>, size_m = 2, capacity_m = 2\<rparr>)"
    by code_simp
  show "Index \<lparr>items_m = \<lparr>raw_ptr_m = Some 0\<rparr>, size_m = 2, capacity_m = 2\<rparr> 0 = Inr (Ptr (Some 0) 0)"
    by code_simp
  show "deref [Some [1, 2 :: int]] (Element (Ptr (Some 0) 0)) = Inr 1"
    by code_simp
  show "ResizeCurrentVector [Some [1, 2 :: int]]
       \<lparr>items_m = \<lparr>raw_ptr_m = Some 0\<rparr>, size_m = 2, capacity_m = 2\<rparr> =
     Inr ([None, Some [1, 2, 0, 0]],
          \<lparr>items_m = \<lparr>raw_ptr_m = Some 1\<rparr>, size_m = 3, capacity_m = 4\<rparr>)"
    by code_simp
  show "deref [None, Some [1, 2, 0, 0 :: int]] (Element (Ptr (Some 0) 0)) = Inl undefined_behaviour"
    by code_simp
  show "PushBack [Some [1, 2 :: int]] \<lparr>items_m = \<lparr>raw_ptr_m = Some 0\<rparr>, size_m = 2, capacity_m = 2\<rparr>
       (Element (Ptr (Some 0) 0)) = Inl undefined_behaviour"
    by code_simp
  show "Insert [Some [1, 2 :: int]] \<lparr>items_m = \<lparr>raw_ptr_m = Some 0\<rparr>, size_m = 2, capacity_m = 2\<rparr>
       (Ptr (Some 0) 1) (Element (Ptr (Some 0) 0)) = Inl undefined_behaviour"
    by code_simp
  show "Insert_rvalue [Some [1, 2 :: int]]
       \<lparr>items_m = \<lparr>raw_ptr_m = Some 0\<rparr>, size_m = 2, capacity_m = 2\<rparr>
       (Ptr (Some 0) 1) (Element (Ptr (Some 0) 0)) = Inl undefined_behaviour"
    by code_simp
qed

section \<open>Insert\<close>

lemma Insert_rvalue_eq:
  "i \<le> size_m v \<Longrightarrow>
   Insert_rvalue h v (ptr_add (begin_it v) i) val = Insert h v (ptr_add (begin_it v) i) val"
  by (simp add: Insert_rvalue_def Insert_def ptr_le_def begin_it_def end_it_def ptr_add_def Get_def
      std_move_backward_def bind_result_def)

lemma load_after_store:
  "store h p x = Inr h' \<Longrightarrow> load h' p = Inr x"
  by (cases p) (auto simp: store_def load_def block_update block_def split: option.splits if_splits)

text \<open>
  \<^verbatim>\<open>Insert\<close> of an argument that is not bound inside the array of the vector. On a
  well-formed vector with elements \<open>e\<^sub>0 \<dots> e\<^sub>n\<^sub>-\<^sub>1\<close>, for every index \<open>i \<le> n\<close> and
  every such argument, of value \<open>x\<close> at the call, both overloads of
  \<^verbatim>\<open>Insert(begin() + i, x)\<close> return, the size grows by one, the elements below \<open>i\<close>
  keep their values, \<open>x\<close> is at index \<open>i\<close>, the former elements \<open>i \<dots> n - 1\<close> follow it
  in the same order, and the iterator returned is \<^verbatim>\<open>begin() + i\<close> of the vector after the
  call, where \<open>x\<close> is stored. When the size equals the capacity, the capacity becomes
  what the growth policy asks for and the elements live in a new array: the position
  handed in points into the old array, the index was taken from it before the
  reallocation, and the iterator returned points into the new one. Otherwise the capacity
  and the array are unchanged.
\<close>

lemma Insert_of_other_object:
  assumes "well_formed h v" and "i \<le> GetSize v"
    and "deref h val = Inr x" and "\<not> in_own_array v val"
  shows "\<exists>h' v'.
     Insert h v (ptr_add (begin_it v) i) val = Inr (h', v', ptr_add (begin_it v') i) \<and>
     Insert_rvalue h v (ptr_add (begin_it v) i) val = Inr (h', v', ptr_add (begin_it v') i) \<and>
     well_formed h' v' \<and>
     GetSize v' = GetSize v + 1 \<and>
     elements h' v' = take i (elements h v) @ x # drop i (elements h v) \<and>
     take i (elements h' v') = take i (elements h v) \<and>
     elements h' v' ! i = x \<and>
     drop (i + 1) (elements h' v') = drop i (elements h v) \<and>
     load h' (ptr_add (begin_it v') i) = Inr x \<and>
     GetCapacity v' =
       (if GetSize v = GetCapacity v
        then max (GetSize v + 1) (if GetCapacity v = 0 then 1 else GetCapacity v * 2)
        else GetCapacity v) \<and>
     (if GetSize v = GetCapacity v
      then raw_ptr_m (items_m v') = Some (length h) \<and> raw_ptr_m (items_m v) \<noteq> Some (length h)
      else items_m v' = items_m v)"
proof -
  have i: "i \<le> size_m v" using assms(2) by (simp add: GetSize_def)
  obtain h' v' where r:
      "Insert h v (ptr_add (begin_it v) i) val = Inr (h', v', ptr_add (begin_it v') i)"
      "well_formed h' v'" "size_m v' = size_m v + 1"
      "capacity_m v' = (if size_m v = capacity_m v then grown (size_m v + 1) (capacity_m v)
                        else capacity_m v)"
      "elements h' v' = take i (elements h v) @ [x] @ drop i (elements h v)"
      "items_m v' = (if size_m v = capacity_m v then \<lparr>raw_ptr_m = Some (length h)\<rparr>
                     else items_m v)"
    using Insert_wf [OF assms(1) i assms(3,4)] by blast
  have le: "length (elements h v) = size_m v" using assms(1) by (rule length_elements)
  have li: "length (take i (elements h v)) = i" using le i by simp
  have e1: "take i (elements h' v') = take i (elements h v)"
    unfolding r(5) using li by simp
  have e2: "elements h' v' ! i = x"
    unfolding r(5) using li by (simp add: nth_append)
  have e3: "drop (i + 1) (elements h' v') = drop i (elements h v)"
    unfolding r(5) using li by simp
  have lt: "i < capacity_m v'" using wf_size_le [OF r(2)] r(3) i by simp
  obtain a where a: "raw_ptr_m (items_m v') = Some a"
    using wf_raw_Some [OF r(2)] lt by fastforce
  have "load h' (Ptr (Some a) i) = Inr (buffer h' v' ! i)"
    using lt length_buffer [OF r(2)] by (intro load_Ptr wf_block r(2) a) simp
  moreover have "buffer h' v' ! i = elements h' v' ! i"
    using r(3) i by (simp add: elements_def)
  ultimately have ld: "load h' (ptr_add (begin_it v') i) = Inr x"
    using a e2 by (simp add: begin_it_def ptr_add_def Get_def)
  have old: "raw_ptr_m (items_m v) \<noteq> Some (length h)"
    using wf_raw_less [OF assms(1)] by fastforce
  show ?thesis
    using r(1,2,3,4,5,6) e1 e2 e3 ld old Insert_rvalue_eq [OF i, of h val]
    by (simp add: GetSize_def GetCapacity_def grown_def)
qed

text \<open>
  C5. The vector \<^verbatim>\<open>SimpleVector<int> v{1, 2, 3, 4}\<close> after \<^verbatim>\<open>v.PopBack()\<close> has the
  elements \<open>1, 2, 3\<close> and capacity 4, and \<^verbatim>\<open>v[2]\<close> is its element 3. The call
  \<^verbatim>\<open>v.Insert(v.begin(), v[2])\<close> is an insertion of the value 3 before index 0. The
  body shifts the elements first, which overwrites the element its argument is bound
  to, and reads the argument afterwards: the vector ends as \<open>2, 1, 2, 3\<close>, with 2 at
  index 0, where \<open>3, 1, 2, 3\<close> with 3 at index 0 is what inserting the value 3 means.
  Both overloads do so. On the full vector \<^verbatim>\<open>SimpleVector<int> w{1, 2, 3}\<close> the call
  \<^verbatim>\<open>w.Insert(w.begin(), w[1])\<close> reads its argument after the array that held it has
  been deleted, which is undefined behaviour.
\<close>

theorem C5_Insert_of_own_element:
  "SimpleVector_init ([] :: int heap) [1, 2, 3, 4] =
     Inr ([Some [1, 2, 3, 4]], \<lparr>items_m = \<lparr>raw_ptr_m = Some 0\<rparr>, size_m = 4, capacity_m = 4\<rparr>) \<and>
   PopBack \<lparr>items_m = \<lparr>raw_ptr_m = Some 0\<rparr>, size_m = 4, capacity_m = 4\<rparr> =
     Inr \<lparr>items_m = \<lparr>raw_ptr_m = Some 0\<rparr>, size_m = 3, capacity_m = 4\<rparr> \<and>
   elements [Some [1, 2, 3, 4 :: int]]
     \<lparr>items_m = \<lparr>raw_ptr_m = Some 0\<rparr>, size_m = 3, capacity_m = 4\<rparr> = [1, 2, 3] \<and>
   begin_it \<lparr>items_m = \<lparr>raw_ptr_m = Some 0\<rparr>, size_m = 3, capacity_m = 4\<rparr> = Ptr (Some 0) 0 \<and>
   Index \<lparr>items_m = \<lparr>raw_ptr_m = Some 0\<rparr>, size_m = 3, capacity_m = 4\<rparr> 2 = Inr (Ptr (Some 0) 2) \<and>
   deref [Some [1, 2, 3, 4 :: int]] (Element (Ptr (Some 0) 2)) = Inr 3 \<and>
   Insert [Some [1, 2, 3, 4 :: int]]
       \<lparr>items_m = \<lparr>raw_ptr_m = Some 0\<rparr>, size_m = 3, capacity_m = 4\<rparr>
       (Ptr (Some 0) 0) (Element (Ptr (Some 0) 2)) =
     Inr ([Some [2, 1, 2, 3]], \<lparr>items_m = \<lparr>raw_ptr_m = Some 0\<rparr>, size_m = 4, capacity_m = 4\<rparr>,
          Ptr (Some 0) 0) \<and>
   Insert_rvalue [Some [1, 2, 3, 4 :: int]]
       \<lparr>items_m = \<lparr>raw_ptr_m = Some 0\<rparr>, size_m = 3, capacity_m = 4\<rparr>
       (Ptr (Some 0) 0) (Element (Ptr (Some 0) 2)) =
     Inr ([Some [2, 1, 2, 3]], \<lparr>items_m = \<lparr>raw_ptr_m = Some 0\<rparr>, size_m = 4, capacity_m = 4\<rparr>,
          Ptr (Some 0) 0) \<and>
   elements [Some [2, 1, 2, 3 :: int]]
     \<lparr>items_m = \<lparr>raw_ptr_m = Some 0\<rparr>, size_m = 4, capacity_m = 4\<rparr> = [2, 1, 2, 3] \<and>
   elements [Some [2, 1, 2, 3 :: int]]
     \<lparr>items_m = \<lparr>raw_ptr_m = Some 0\<rparr>, size_m = 4, capacity_m = 4\<rparr> ! 0 \<noteq> 3 \<and>
   SimpleVector_init ([] :: int heap) [1, 2, 3] =
     Inr ([Some [1, 2, 3]], \<lparr>items_m = \<lparr>raw_ptr_m = Some 0\<rparr>, size_m = 3, capacity_m = 3\<rparr>) \<and>
   deref [Some [1, 2, 3 :: int]] (Element (Ptr (Some 0) 1)) = Inr 2 \<and>
   Insert [Some [1, 2, 3 :: int]]
       \<lparr>items_m = \<lparr>raw_ptr_m = Some 0\<rparr>, size_m = 3, capacity_m = 3\<rparr>
       (Ptr (Some 0) 0) (Element (Ptr (Some 0) 1)) = Inl undefined_behaviour"
proof (intro conjI)
  show "SimpleVector_init ([] :: int heap) [1, 2, 3, 4] =
     Inr ([Some [1, 2, 3, 4]], \<lparr>items_m = \<lparr>raw_ptr_m = Some 0\<rparr>, size_m = 4, capacity_m = 4\<rparr>)"
    by code_simp
  show "PopBack \<lparr>items_m = \<lparr>raw_ptr_m = Some 0\<rparr>, size_m = 4, capacity_m = 4\<rparr> =
     Inr \<lparr>items_m = \<lparr>raw_ptr_m = Some 0\<rparr>, size_m = 3, capacity_m = 4\<rparr>"
    by code_simp
  show "elements [Some [1, 2, 3, 4 :: int]]
     \<lparr>items_m = \<lparr>raw_ptr_m = Some 0\<rparr>, size_m = 3, capacity_m = 4\<rparr> = [1, 2, 3]"
    by (simp add: elements_def buffer_def block_def)
  show "begin_it \<lparr>items_m = \<lparr>raw_ptr_m = Some 0\<rparr>, size_m = 3, capacity_m = 4\<rparr> = Ptr (Some 0) 0"
    by code_simp
  show "Index \<lparr>items_m = \<lparr>raw_ptr_m = Some 0\<rparr>, size_m = 3, capacity_m = 4\<rparr> 2 = Inr (Ptr (Some 0) 2)"
    by code_simp
  show "deref [Some [1, 2, 3, 4 :: int]] (Element (Ptr (Some 0) 2)) = Inr 3"
    by code_simp
  show "Insert [Some [1, 2, 3, 4 :: int]]
       \<lparr>items_m = \<lparr>raw_ptr_m = Some 0\<rparr>, size_m = 3, capacity_m = 4\<rparr>
       (Ptr (Some 0) 0) (Element (Ptr (Some 0) 2)) =
     Inr ([Some [2, 1, 2, 3]], \<lparr>items_m = \<lparr>raw_ptr_m = Some 0\<rparr>, size_m = 4, capacity_m = 4\<rparr>,
          Ptr (Some 0) 0)"
    by code_simp
  show "Insert_rvalue [Some [1, 2, 3, 4 :: int]]
       \<lparr>items_m = \<lparr>raw_ptr_m = Some 0\<rparr>, size_m = 3, capacity_m = 4\<rparr>
       (Ptr (Some 0) 0) (Element (Ptr (Some 0) 2)) =
     Inr ([Some [2, 1, 2, 3]], \<lparr>items_m = \<lparr>raw_ptr_m = Some 0\<rparr>, size_m = 4, capacity_m = 4\<rparr>,
          Ptr (Some 0) 0)"
    by code_simp
  show "elements [Some [2, 1, 2, 3 :: int]]
     \<lparr>items_m = \<lparr>raw_ptr_m = Some 0\<rparr>, size_m = 4, capacity_m = 4\<rparr> = [2, 1, 2, 3]"
    by (simp add: elements_def buffer_def block_def)
  show "elements [Some [2, 1, 2, 3 :: int]]
     \<lparr>items_m = \<lparr>raw_ptr_m = Some 0\<rparr>, size_m = 4, capacity_m = 4\<rparr> ! 0 \<noteq> 3"
    by (simp add: elements_def buffer_def block_def)
  show "SimpleVector_init ([] :: int heap) [1, 2, 3] =
     Inr ([Some [1, 2, 3]], \<lparr>items_m = \<lparr>raw_ptr_m = Some 0\<rparr>, size_m = 3, capacity_m = 3\<rparr>)"
    by code_simp
  show "deref [Some [1, 2, 3 :: int]] (Element (Ptr (Some 0) 1)) = Inr 2"
    by code_simp
  show "Insert [Some [1, 2, 3 :: int]]
       \<lparr>items_m = \<lparr>raw_ptr_m = Some 0\<rparr>, size_m = 3, capacity_m = 3\<rparr>
       (Ptr (Some 0) 0) (Element (Ptr (Some 0) 1)) = Inl undefined_behaviour"
    by code_simp
qed

section \<open>Erase\<close>

text \<open>
  C6. On a well-formed vector of size \<open>n \<ge> 1\<close>, for every index \<open>i < n\<close>,
  \<^verbatim>\<open>Erase(begin() + i)\<close> returns, the elements are the former ones without the one
  at index \<open>i\<close> (those before it unchanged, those after it one place down in the same
  order), the size is \<open>n - 1\<close>, the capacity and the array are the same, and the
  iterator returned is \<^verbatim>\<open>begin() + i\<close>: the place of the former element \<open>i + 1\<close>,
  or \<^verbatim>\<open>end()\<close> when the last element was removed.
\<close>

theorem C6_Erase:
  assumes "well_formed h v" and "i < GetSize v"
  shows "\<exists>h' v'.
     Erase h v (ptr_add (begin_it v) i) = Inr (h', v', ptr_add (begin_it v') i) \<and>
     well_formed h' v' \<and>
     GetSize v' = GetSize v - 1 \<and> GetSize v' + 1 = GetSize v \<and>
     GetCapacity v' = GetCapacity v \<and> items_m v' = items_m v \<and>
     elements h' v' = take i (elements h v) @ drop (i + 1) (elements h v) \<and>
     (if i = GetSize v - 1 then ptr_add (begin_it v') i = end_it v'
      else load h' (ptr_add (begin_it v') i) = Inr (elements h v ! (i + 1)))"
proof -
  let ?v' = "v\<lparr>size_m := size_m v - 1\<rparr>"
  have i: "i < size_m v" using assms(2) by (simp add: GetSize_def)
  obtain h' where r:
      "Erase h v (ptr_add (begin_it v) i) = Inr (h', ?v', ptr_add (begin_it v) i)"
      "well_formed h' ?v'"
      "elements h' ?v' = take i (elements h v) @ drop (i + 1) (elements h v)"
    using Erase_wf [OF assms(1) i] by blast
  have b: "begin_it ?v' = begin_it v"
    by (simp add: begin_it_def)
  have le: "length (elements h v) = size_m v" using assms(1) by (rule length_elements)
  have last: "i = size_m v - 1 \<Longrightarrow> ptr_add (begin_it ?v') i = end_it ?v'"
    by (simp add: begin_it_def end_it_def ptr_add_def Get_def)
  have nxt: "load h' (ptr_add (begin_it ?v') i) = Inr (elements h v ! (i + 1))"
    if "i \<noteq> size_m v - 1"
  proof -
    have lt: "i < size_m ?v'" using that i by simp
    obtain p where p: "At ?v' i = Inr p" "load h' p = Inr (elements h' ?v' ! i)"
      using At_load [OF r(2) lt] by blast
    have "p = ptr_add (begin_it ?v') i"
      using p(1) lt by (simp add: At_def ArrayPtr_index_def begin_it_def ptr_add_def Get_def)
    moreover have "elements h' ?v' ! i = elements h v ! (i + 1)"
      unfolding r(3) using le i by (simp add: nth_append)
    ultimately show ?thesis using p(2) by simp
  qed
  show ?thesis
    using r i last nxt unfolding b [symmetric]
    by (intro exI [of _ h'] exI [of _ ?v']) (simp add: GetSize_def GetCapacity_def)
qed

text \<open>C6 at the vector \<open>{1, 2, 3}\<close>: erasing index 1.\<close>

theorem C6_Erase_witness:
  "well_formed [Some [1, 2, 3 :: int]] \<lparr>items_m = \<lparr>raw_ptr_m = Some 0\<rparr>, size_m = 3, capacity_m = 3\<rparr> \<and>
   1 < GetSize \<lparr>items_m = \<lparr>raw_ptr_m = Some 0\<rparr>, size_m = 3, capacity_m = 3\<rparr> \<and>
   (\<exists>h' v'.
      Erase [Some [1, 2, 3 :: int]] \<lparr>items_m = \<lparr>raw_ptr_m = Some 0\<rparr>, size_m = 3, capacity_m = 3\<rparr>
        (Ptr (Some 0) 1) = Inr (h', v', Ptr (Some 0) 1) \<and>
      elements h' v' = [1, 3] \<and> GetSize v' = 2 \<and> GetCapacity v' = 3 \<and>
      load h' (Ptr (Some 0) 1) = Inr 3)"
proof -
  let ?h = "[Some [1, 2, 3 :: int]]"
  let ?v = "\<lparr>items_m = \<lparr>raw_ptr_m = Some 0\<rparr>, size_m = 3, capacity_m = 3\<rparr>"
  have wf: "well_formed ?h ?v"
    by (simp add: well_formed_def block_def)
  have i: "1 < GetSize ?v"
    by (simp add: GetSize_def)
  have es: "elements ?h ?v = [1, 2, 3]"
    by (simp add: elements_def buffer_def block_def)
  obtain h' v' where r:
     "Erase ?h ?v (ptr_add (begin_it ?v) 1) = Inr (h', v', ptr_add (begin_it v') 1)"
     "GetSize v' = GetSize ?v - 1"
     "GetCapacity v' = GetCapacity ?v" "items_m v' = items_m ?v"
     "elements h' v' = take 1 (elements ?h ?v) @ drop (1 + 1) (elements ?h ?v)"
     "(if 1 = GetSize ?v - 1 then ptr_add (begin_it v') 1 = end_it v'
       else load h' (ptr_add (begin_it v') 1) = Inr (elements ?h ?v ! (1 + 1)))"
    using C6_Erase [OF wf i] by blast
  have p: "ptr_add (begin_it v') 1 = Ptr (Some 0) 1" "ptr_add (begin_it ?v) 1 = Ptr (Some 0) 1"
    using r(4) by (simp_all add: begin_it_def ptr_add_def Get_def)
  show ?thesis
    using wf i r(1,2,3,5,6) es unfolding p by (simp add: GetSize_def GetCapacity_def)
qed

section \<open>PopBack\<close>

text \<open>
  C7. On a non-empty vector \<^verbatim>\<open>PopBack\<close> returns in both drafts, with the same
  result: the size is one less, the capacity and the array are the same, in every heap
  the elements are the former ones at the indices below the new size, and a well-formed
  vector stays well-formed; the assertion of part\_000 does not fire. On an empty vector part\_000 stops at its assertion, which is not the
  exception \<^verbatim>\<open>std::out_of_range\<close>; part\_001 returns and leaves the vector as it is.
\<close>

theorem C7_PopBack:
  "(if \<not> IsEmpty v
    then \<exists>v'. PopBack v = Inr v' \<and> PopBack_001 v = Inr v' \<and>
           GetSize v' + 1 = GetSize v \<and> GetCapacity v' = GetCapacity v \<and>
           items_m v' = items_m v \<and>
           (\<forall>h. elements (h :: 'a heap) v' = take (GetSize v - 1) (elements h v)) \<and>
           (well_formed (h0 :: 'a heap) v \<longrightarrow> well_formed h0 v') \<and>
           PopBack v \<noteq> Inl assertion_failed
    else PopBack v = Inl assertion_failed \<and> PopBack v \<noteq> Inl out_of_range \<and>
         PopBack_001 v = Inr v)"
proof (cases "IsEmpty v")
  case True
  then show ?thesis by (simp add: PopBack_def PopBack_001_def)
next
  case False
  then have pos: "0 < size_m v" by (simp add: IsEmpty_def)
  have 1: "\<And>h :: 'a heap. elements h (v\<lparr>size_m := size_m v - 1\<rparr>) = take (size_m v - 1) (elements h v)"
    by (simp add: elements_def min_def)
  have 2: "well_formed h0 (v\<lparr>size_m := size_m v - 1\<rparr>)" if "well_formed h0 v"
    using wf_set_size [OF that, of "size_m v - 1"] wf_size_le [OF that] by simp
  show ?thesis
    using False pos 1 2
    by (simp add: PopBack_def PopBack_001_def GetSize_def GetCapacity_def)
qed

text \<open>C7 at the vector \<open>{1, 2, 3}\<close>, and at the empty vector.\<close>

theorem C7_PopBack_witness:
  "well_formed [Some [1, 2, 3 :: int]] \<lparr>items_m = \<lparr>raw_ptr_m = Some 0\<rparr>, size_m = 3, capacity_m = 3\<rparr> \<and>
   PopBack \<lparr>items_m = \<lparr>raw_ptr_m = Some 0\<rparr>, size_m = 3, capacity_m = 3\<rparr> =
     Inr \<lparr>items_m = \<lparr>raw_ptr_m = Some 0\<rparr>, size_m = 2, capacity_m = 3\<rparr> \<and>
   elements [Some [1, 2, 3 :: int]] \<lparr>items_m = \<lparr>raw_ptr_m = Some 0\<rparr>, size_m = 2, capacity_m = 3\<rparr>
     = [1, 2] \<and>
   PopBack SimpleVector_default = Inl assertion_failed"
proof -
  let ?h = "[Some [1, 2, 3 :: int]]"
  let ?v = "\<lparr>items_m = \<lparr>raw_ptr_m = Some 0\<rparr>, size_m = 3, capacity_m = 3\<rparr>"
  have wf: "well_formed ?h ?v"
    by (simp add: well_formed_def block_def)
  have ne: "\<not> IsEmpty ?v" "IsEmpty SimpleVector_default"
    by (simp_all add: IsEmpty_def SimpleVector_default_def)
  have p: "PopBack ?v = Inr \<lparr>items_m = \<lparr>raw_ptr_m = Some 0\<rparr>, size_m = 2, capacity_m = 3\<rparr>"
    by (simp add: PopBack_def IsEmpty_def)
  have es: "elements ?h ?v = [1, 2, 3]"
    by (simp add: elements_def buffer_def block_def)
  have "elements ?h \<lparr>items_m = \<lparr>raw_ptr_m = Some 0\<rparr>, size_m = 2, capacity_m = 3\<rparr>
          = take (GetSize ?v - 1) (elements ?h ?v)"
    using C7_PopBack [of ?v ?h] wf ne(1) p by simp
  moreover have "PopBack SimpleVector_default = Inl assertion_failed"
    using C7_PopBack [of SimpleVector_default ?h] ne(2) by simp
  ultimately show ?thesis
    using wf p es by (simp add: GetSize_def)
qed

section \<open>At\<close>

text \<open>
  C8. \<^verbatim>\<open>At(i)\<close> throws \<^verbatim>\<open>std::out_of_range\<close> exactly when \<open>i\<close> is at least the
  size. Otherwise it returns the reference \<^verbatim>\<open>items_[i]\<close>, which on a well-formed vector
  holds the element at index \<open>i\<close>. \<^verbatim>\<open>At(size())\<close> always throws and \<^verbatim>\<open>At(size() - 1)\<close>
  returns on a non-empty vector. \<^verbatim>\<open>At\<close> is a function of the vector alone and returns
  no new state: the vector and the heap are untouched in both cases.
\<close>

theorem C8_At:
  "(At v i = Inl out_of_range \<longleftrightarrow> GetSize v \<le> i) \<and>
   (if GetSize v \<le> i then At v i = Inl out_of_range
    else At v i = Inr (ptr_add (begin_it v) i) \<and>
         (well_formed h v \<longrightarrow> load h (ptr_add (begin_it v) i) = Inr (elements h v ! i))) \<and>
   At v (GetSize v) = Inl out_of_range \<and>
   (if IsEmpty v then At v (GetSize v - 1) = Inl out_of_range
    else At v (GetSize v - 1) = Inr (ptr_add (begin_it v) (GetSize v - 1)) \<and>
         (well_formed h v \<longrightarrow>
            load h (ptr_add (begin_it v) (GetSize v - 1)) = Inr (last (elements h v))))"
proof -
  have p: "\<And>j. ArrayPtr_index (items_m v) j = ptr_add (begin_it v) j"
    by (simp add: ArrayPtr_index_def begin_it_def ptr_add_def Get_def)
  have ld: "load h (ptr_add (begin_it v) j) = Inr (elements h v ! j)"
    if "well_formed h v" "j < size_m v" for j
    using At_load [OF that] that(2) by (simp add: At_def p)
  have lst: "last (elements h v) = elements h v ! (size_m v - 1)"
    if "well_formed h v" "0 < size_m v"
  proof -
    have "elements h v \<noteq> []"
      using length_elements [OF that(1)] that(2) by auto
    then show ?thesis
      using length_elements [OF that(1)] by (simp add: last_conv_nth)
  qed
  show ?thesis
    using ld [of i] ld [of "size_m v - 1"] lst
    by (auto simp: At_def p GetSize_def IsEmpty_def)
qed

text \<open>C8 at the vector \<open>{1, 2, 3}\<close>: index 2 is read, index 3 throws.\<close>

theorem C8_At_witness:
  "well_formed [Some [1, 2, 3 :: int]] \<lparr>items_m = \<lparr>raw_ptr_m = Some 0\<rparr>, size_m = 3, capacity_m = 3\<rparr> \<and>
   At \<lparr>items_m = \<lparr>raw_ptr_m = Some 0\<rparr>, size_m = 3, capacity_m = 3\<rparr> 2 = Inr (Ptr (Some 0) 2) \<and>
   load [Some [1, 2, 3 :: int]] (Ptr (Some 0) 2) = Inr 3 \<and>
   At \<lparr>items_m = \<lparr>raw_ptr_m = Some 0\<rparr>, size_m = 3, capacity_m = 3\<rparr> 3 = Inl out_of_range"
proof -
  let ?h = "[Some [1, 2, 3 :: int]]"
  let ?v = "\<lparr>items_m = \<lparr>raw_ptr_m = Some 0\<rparr>, size_m = 3, capacity_m = 3\<rparr>"
  have wf: "well_formed ?h ?v"
    by (simp add: well_formed_def block_def)
  have es: "elements ?h ?v = [1, 2, 3]"
    by (simp add: elements_def buffer_def block_def)
  have p: "ptr_add (begin_it ?v) 2 = Ptr (Some 0) 2"
    by (simp add: begin_it_def ptr_add_def Get_def)
  show ?thesis
    using C8_At [of ?v 2 ?h] C8_At [of ?v 3 ?h] wf es p
    by (simp add: GetSize_def IsEmpty_def)
qed

section \<open>Reserve\<close>

lemma deref_Element_live:
  "deref h (Element p) = Inr x \<Longrightarrow> \<exists>b. base p = Some b \<and> b < length h"
  by (auto simp: deref_def load_def block_def split: option.splits if_splits)

text \<open>
  Pushes within the capacity. Each argument can be read at the start, with the value
  listed for it, and is not bound inside the array of the vector.
\<close>

lemma PushBack_all_within:
  "well_formed h v \<Longrightarrow> size_m v + length rs \<le> capacity_m v \<Longrightarrow>
   list_all2 (\<lambda>r x. deref h r = Inr x \<and> \<not> in_own_array v r) rs xs \<Longrightarrow>
   \<exists>h'. PushBack_all h v rs = Inr (h', v\<lparr>size_m := size_m v + length rs\<rparr>) \<and>
        well_formed h' (v\<lparr>size_m := size_m v + length rs\<rparr>) \<and>
        elements h' (v\<lparr>size_m := size_m v + length rs\<rparr>) = elements h v @ xs \<and>
        length h' = length h"
proof (induction rs arbitrary: h v xs)
  case Nil
  then show ?case by simp
next
  case (Cons r rs)
  obtain x xs' where xs: "xs = x # xs'" "deref h r = Inr x" "\<not> in_own_array v r"
      "list_all2 (\<lambda>r x. deref h r = Inr x \<and> \<not> in_own_array v r) rs xs'"
    using Cons.prems(3) by (auto simp: list_all2_Cons1)
  have lt: "size_m v \<noteq> capacity_m v" using Cons.prems(2) by simp
  obtain h1 v1 where r: "PushBack h v r = Inr (h1, v1)" "well_formed h1 v1"
      "size_m v1 = size_m v + 1" "capacity_m v1 = capacity_m v"
      "elements h1 v1 = elements h v @ [x]" "items_m v1 = items_m v" "length h1 = length h"
    using PushBack_wf [OF Cons.prems(1) xs(2)] lt by auto
  have v1: "v1 = v\<lparr>size_m := size_m v + 1\<rparr>"
    using r(3,4,6) by (intro SimpleVector.equality) simp_all
  have fr: "unchanged_outside h h1 (raw_ptr_m (items_m v))"
    using PushBack_own [OF r(1)] by (simp add: touches_only_own_def)
  have rest: "list_all2 (\<lambda>r x. deref h1 r = Inr x \<and> \<not> in_own_array v1 r) rs xs'"
    using xs(4)
  proof (rule list_all2_mono)
    fix r' x'
    assume a: "deref h r' = Inr x' \<and> \<not> in_own_array v r'"
    then have "deref h1 r' = Inr x'"
      using fr by (intro deref_frame [of h r' x' h1 "raw_ptr_m (items_m v)"])
                  (auto simp: in_own_array_def)
    moreover have "in_own_array v1 r' = in_own_array v r'"
      using r(6) by (cases r') (simp_all add: in_own_array_def)
    ultimately show "deref h1 r' = Inr x' \<and> \<not> in_own_array v1 r'"
      using a by simp
  qed
  have "size_m v1 + length rs \<le> capacity_m v1"
    using Cons.prems(2) r(3,4) by simp
  from Cons.IH [OF r(2) this rest]
  obtain h' where s: "PushBack_all h1 v1 rs = Inr (h', v1\<lparr>size_m := size_m v1 + length rs\<rparr>)"
      "well_formed h' (v1\<lparr>size_m := size_m v1 + length rs\<rparr>)"
      "elements h' (v1\<lparr>size_m := size_m v1 + length rs\<rparr>) = elements h1 v1 @ xs'"
      "length h' = length h1"
    by blast
  have v2: "v1\<lparr>size_m := size_m v1 + length rs\<rparr> = v\<lparr>size_m := size_m v + length (r # rs)\<rparr>"
    unfolding v1 by simp
  show ?case
    using r(1,5,7) s xs(1) unfolding v2 by simp
qed

text \<open>
  \<^verbatim>\<open>Reserve(k)\<close> on a vector of size 0 and then \<open>k\<close> pushes of arguments that can be
  read before the calls and are not bound inside the array of the vector.
\<close>

lemma Reserve_then_PushBack_all:
  assumes "well_formed h v" and "size_m v = 0"
    and "list_all2 (\<lambda>r x. deref h r = Inr x \<and> \<not> in_own_array v r) rs xs"
  shows "\<exists>h1 v1 h2 v2. Reserve h v (length rs) = Inr (h1, v1) \<and>
           PushBack_all h1 v1 rs = Inr (h2, v2) \<and>
           size_m v2 = length rs \<and>
           capacity_m v2 = max (length rs) (capacity_m v) \<and>
           elements h2 v2 = xs \<and> items_m v2 = items_m v1 \<and> length h2 = length h1"
proof -
  have ev: "elements h v = []" using assms(2) by (simp add: elements_def)
  have "\<exists>h1 v1. Reserve h v (length rs) = Inr (h1, v1) \<and> well_formed h1 v1 \<and>
      capacity_m v1 = max (length rs) (capacity_m v) \<and> size_m v1 = 0 \<and> elements h1 v1 = []"
  proof (cases "capacity_m v < length rs")
    case True
    from Reserve_wf [OF assms(1) this] show ?thesis
      using assms(2) ev True by (simp add: max_def)
  next
    case False
    then have "Reserve h v (length rs) = Inr (h, v)" by (simp add: Reserve_noop)
    then show ?thesis
      using assms(1,2) ev False by (simp add: max_def)
  qed
  then obtain h1 v1 where r: "Reserve h v (length rs) = Inr (h1, v1)" "well_formed h1 v1"
      "capacity_m v1 = max (length rs) (capacity_m v)" "size_m v1 = 0" "elements h1 v1 = []"
    by blast
  have own: "touches_only_own h v h1 v1"
    using r(1) by (rule Reserve_own)
  then have fr: "unchanged_outside h h1 (raw_ptr_m (items_m v))"
    and tgt: "raw_ptr_m (items_m v1) = raw_ptr_m (items_m v) \<or>
              raw_ptr_m (items_m v1) = None \<or> raw_ptr_m (items_m v1) = Some (length h)"
    by (simp_all add: touches_only_own_def)
  have rest: "list_all2 (\<lambda>r x. deref h1 r = Inr x \<and> \<not> in_own_array v1 r) rs xs"
    using assms(3)
  proof (rule list_all2_mono)
    fix r' x'
    assume a: "deref h r' = Inr x' \<and> \<not> in_own_array v r'"
    show "deref h1 r' = Inr x' \<and> \<not> in_own_array v1 r'"
    proof (cases r')
      case (Outside y)
      then show ?thesis using a by (simp add: deref_def in_own_array_def)
    next
      case (Element p)
      then have d: "deref h (Element p) = Inr x'"
        and n: "base p \<noteq> raw_ptr_m (items_m v)"
        using a by (simp_all add: in_own_array_def)
      obtain b where b: "base p = Some b" "b < length h"
        using deref_Element_live [OF d] by blast
      have "deref h1 (Element p) = Inr x'"
        using d fr by (rule deref_frame) (use n in simp)
      moreover have "base p \<noteq> raw_ptr_m (items_m v1)"
        using tgt n b by auto
      ultimately show ?thesis
        using Element by (simp add: in_own_array_def)
    qed
  qed
  have "size_m v1 + length rs \<le> capacity_m v1" using r(3,4) by simp
  from PushBack_all_within [OF r(2) this rest]
  obtain h2 where s: "PushBack_all h1 v1 rs = Inr (h2, v1\<lparr>size_m := size_m v1 + length rs\<rparr>)"
      "elements h2 (v1\<lparr>size_m := size_m v1 + length rs\<rparr>) = elements h1 v1 @ xs"
      "length h2 = length h1"
    by blast
  have "Reserve h v (length rs) = Inr (h1, v1) \<and>
           PushBack_all h1 v1 rs = Inr (h2, v1\<lparr>size_m := size_m v1 + length rs\<rparr>) \<and>
           size_m (v1\<lparr>size_m := size_m v1 + length rs\<rparr>) = length rs \<and>
           capacity_m (v1\<lparr>size_m := size_m v1 + length rs\<rparr>) = max (length rs) (capacity_m v) \<and>
           elements h2 (v1\<lparr>size_m := size_m v1 + length rs\<rparr>) = xs \<and>
           items_m (v1\<lparr>size_m := size_m v1 + length rs\<rparr>) = items_m v1 \<and>
           length h2 = length h1"
    using r s by simp
  then show ?thesis
    by (intro exI)
qed

text \<open>
  C9. From an empty vector (size 0, capacity 0), \<^verbatim>\<open>Reserve(k)\<close> followed by \<open>k\<close>
  calls of \<^verbatim>\<open>PushBack\<close> (the values \<open>xs\<close>, \<open>k = length xs\<close>) returns with size
  \<open>k\<close>, capacity exactly \<open>k\<close> and the elements \<open>xs\<close>, and the calls of
  \<^verbatim>\<open>PushBack\<close> allocate nothing: the array and the number of allocations are those
  after \<^verbatim>\<open>Reserve\<close>. The same holds from any well-formed vector of size 0, with the
  larger of \<open>k\<close> and the capacity it already has as the final capacity. The arguments
  of the pushes may be objects outside the heap of arrays, and they may as well be
  elements of other arrays, which are read at each push. On every
  well-formed vector, \<^verbatim>\<open>Reserve(c)\<close> with \<open>c\<close> at most the capacity changes neither
  the vector nor the heap, and with \<open>c\<close> above the capacity it returns a well-formed
  vector of capacity exactly \<open>c\<close> with the same size and elements.
\<close>

theorem C9_Reserve:
  assumes "well_formed h v"
  shows "(GetSize v = 0 \<longrightarrow>
            (\<exists>h1 v1 h2 v2. Reserve h v (length xs) = Inr (h1, v1) \<and>
               PushBack_all h1 v1 (map Outside xs) = Inr (h2, v2) \<and>
               GetSize v2 = length xs \<and>
               GetCapacity v2 = max (length xs) (GetCapacity v) \<and>
               (GetCapacity v = 0 \<longrightarrow> GetCapacity v2 = length xs) \<and>
               elements h2 v2 = xs \<and> items_m v2 = items_m v1 \<and> length h2 = length h1)) \<and>
         (GetSize v = 0 \<and>
          list_all2 (\<lambda>r y. deref h r = Inr y \<and> \<not> in_own_array v r) rs ys \<longrightarrow>
            (\<exists>h1 v1 h2 v2. Reserve h v (length rs) = Inr (h1, v1) \<and>
               PushBack_all h1 v1 rs = Inr (h2, v2) \<and>
               GetSize v2 = length rs \<and>
               GetCapacity v2 = max (length rs) (GetCapacity v) \<and>
               (GetCapacity v = 0 \<longrightarrow> GetCapacity v2 = length rs) \<and>
               elements h2 v2 = ys \<and> items_m v2 = items_m v1 \<and> length h2 = length h1)) \<and>
         (c \<le> GetCapacity v \<longrightarrow> Reserve h v c = Inr (h, v)) \<and>
         (GetCapacity v < c \<longrightarrow>
            (\<exists>h' v'. Reserve h v c = Inr (h', v') \<and> well_formed h' v' \<and>
               GetCapacity v' = c \<and> GetSize v' = GetSize v \<and>
               elements h' v' = elements h v))"
proof (intro conjI impI)
  assume e: "GetSize v = 0"
  then have sz: "size_m v = 0" by (simp add: GetSize_def)
  have la: "list_all2 (\<lambda>r y. deref h r = Inr y \<and> \<not> in_own_array v r) (map Outside xs) xs"
    by (simp add: list_all2_conv_all_nth deref_def in_own_array_def)
  from Reserve_then_PushBack_all [OF assms sz la]
  obtain h1 v1 h2 v2 where r: "Reserve h v (length (map Outside xs)) = Inr (h1, v1)"
      "PushBack_all h1 v1 (map Outside xs) = Inr (h2, v2)"
      "size_m v2 = length (map Outside xs)"
      "capacity_m v2 = max (length (map Outside xs)) (capacity_m v)"
      "elements h2 v2 = xs" "items_m v2 = items_m v1" "length h2 = length h1"
    by blast
  have "Reserve h v (length xs) = Inr (h1, v1) \<and>
               PushBack_all h1 v1 (map Outside xs) = Inr (h2, v2) \<and>
               GetSize v2 = length xs \<and>
               GetCapacity v2 = max (length xs) (GetCapacity v) \<and>
               (GetCapacity v = 0 \<longrightarrow> GetCapacity v2 = length xs) \<and>
               elements h2 v2 = xs \<and> items_m v2 = items_m v1 \<and> length h2 = length h1"
    using r by (simp add: GetSize_def GetCapacity_def)
  then show "\<exists>h1 v1 h2 v2. Reserve h v (length xs) = Inr (h1, v1) \<and>
               PushBack_all h1 v1 (map Outside xs) = Inr (h2, v2) \<and>
               GetSize v2 = length xs \<and>
               GetCapacity v2 = max (length xs) (GetCapacity v) \<and>
               (GetCapacity v = 0 \<longrightarrow> GetCapacity v2 = length xs) \<and>
               elements h2 v2 = xs \<and> items_m v2 = items_m v1 \<and> length h2 = length h1"
    by (intro exI)
next
  assume e: "GetSize v = 0 \<and>
             list_all2 (\<lambda>r y. deref h r = Inr y \<and> \<not> in_own_array v r) rs ys"
  then have sz: "size_m v = 0"
    and la: "list_all2 (\<lambda>r y. deref h r = Inr y \<and> \<not> in_own_array v r) rs ys"
    by (simp_all add: GetSize_def)
  from Reserve_then_PushBack_all [OF assms sz la]
  obtain h1 v1 h2 v2 where r: "Reserve h v (length rs) = Inr (h1, v1)"
      "PushBack_all h1 v1 rs = Inr (h2, v2)"
      "size_m v2 = length rs"
      "capacity_m v2 = max (length rs) (capacity_m v)"
      "elements h2 v2 = ys" "items_m v2 = items_m v1" "length h2 = length h1"
    by blast
  have "Reserve h v (length rs) = Inr (h1, v1) \<and>
               PushBack_all h1 v1 rs = Inr (h2, v2) \<and>
               GetSize v2 = length rs \<and>
               GetCapacity v2 = max (length rs) (GetCapacity v) \<and>
               (GetCapacity v = 0 \<longrightarrow> GetCapacity v2 = length rs) \<and>
               elements h2 v2 = ys \<and> items_m v2 = items_m v1 \<and> length h2 = length h1"
    using r by (simp add: GetSize_def GetCapacity_def)
  then show "\<exists>h1 v1 h2 v2. Reserve h v (length rs) = Inr (h1, v1) \<and>
               PushBack_all h1 v1 rs = Inr (h2, v2) \<and>
               GetSize v2 = length rs \<and>
               GetCapacity v2 = max (length rs) (GetCapacity v) \<and>
               (GetCapacity v = 0 \<longrightarrow> GetCapacity v2 = length rs) \<and>
               elements h2 v2 = ys \<and> items_m v2 = items_m v1 \<and> length h2 = length h1"
    by (intro exI)
next
  assume "c \<le> GetCapacity v"
  then show "Reserve h v c = Inr (h, v)"
    by (simp add: Reserve_noop GetCapacity_def)
next
  assume "GetCapacity v < c"
  then have "capacity_m v < c" by (simp add: GetCapacity_def)
  from Reserve_wf [OF assms this]
  show "\<exists>h' v'. Reserve h v c = Inr (h', v') \<and> well_formed h' v' \<and>
               GetCapacity v' = c \<and> GetSize v' = GetSize v \<and>
               elements h' v' = elements h v"
    by (simp add: GetSize_def GetCapacity_def)
qed

text \<open>
  C9 at the empty vector with \<open>k = 3\<close>, and \<^verbatim>\<open>Reserve(0)\<close> and \<^verbatim>\<open>Reserve(2)\<close> on it;
  and at an empty vector beside the array \<open>7, 8\<close> of another vector, whose second
  element is the argument of the second of three pushes.
\<close>

theorem C9_Reserve_witness:
  "well_formed ([] :: int heap) SimpleVector_default \<and>
   GetSize SimpleVector_default = 0 \<and> GetCapacity SimpleVector_default = 0 \<and>
   (\<exists>h1 v1 h2 v2. Reserve ([] :: int heap) SimpleVector_default 3 = Inr (h1, v1) \<and>
      PushBack_all h1 v1 [Outside 4, Outside 5, Outside 6] = Inr (h2, v2) \<and>
      GetSize v2 = 3 \<and> GetCapacity v2 = 3 \<and> elements h2 v2 = [4, 5, 6]) \<and>
   Reserve ([] :: int heap) SimpleVector_default 0 = Inr ([], SimpleVector_default) \<and>
   (\<exists>h' v'. Reserve ([] :: int heap) SimpleVector_default 2 = Inr (h', v') \<and>
      GetCapacity v' = 2 \<and> GetSize v' = 0 \<and> elements h' v' = []) \<and>
   well_formed [Some [7, 8 :: int]] SimpleVector_default \<and>
   list_all2 (\<lambda>r y. deref [Some [7, 8 :: int]] r = Inr y \<and> \<not> in_own_array SimpleVector_default r)
     [Outside 4, Element (Ptr (Some 0) 1), Outside 6] [4, 8, 6] \<and>
   (\<exists>h1 v1 h2 v2. Reserve [Some [7, 8 :: int]] SimpleVector_default 3 = Inr (h1, v1) \<and>
      PushBack_all h1 v1 [Outside 4, Element (Ptr (Some 0) 1), Outside 6] = Inr (h2, v2) \<and>
      GetSize v2 = 3 \<and> GetCapacity v2 = 3 \<and> elements h2 v2 = [4, 8, 6])"
proof -
  have wf: "well_formed ([] :: int heap) SimpleVector_default"
    by (simp add: well_formed_def SimpleVector_default_def ArrayPtr_default_def)
  have e: "GetSize SimpleVector_default = 0" "GetCapacity SimpleVector_default = 0"
    "elements ([] :: int heap) SimpleVector_default = []"
    by (simp_all add: GetSize_def GetCapacity_def SimpleVector_default_def elements_def)
  have l: "length [4, 5, 6 :: int] = 3"
    "map Outside [4, 5, 6 :: int] = [Outside 4, Outside 5, Outside 6]"
    by simp_all
  have "\<exists>h1 v1 h2 v2. Reserve ([] :: int heap) SimpleVector_default (length [4, 5, 6 :: int]) =
        Inr (h1, v1) \<and>
      PushBack_all h1 v1 (map Outside [4, 5, 6]) = Inr (h2, v2) \<and>
      GetSize v2 = length [4, 5, 6 :: int] \<and>
      GetCapacity v2 = max (length [4, 5, 6 :: int]) (GetCapacity SimpleVector_default) \<and>
      (GetCapacity SimpleVector_default = 0 \<longrightarrow> GetCapacity v2 = length [4, 5, 6 :: int]) \<and>
      elements h2 v2 = [4, 5, 6] \<and> items_m v2 = items_m v1 \<and> length h2 = length h1"
    using C9_Reserve [OF wf, where xs = "[4, 5, 6]", THEN conjunct1] e(1) by (rule mp)
  then obtain h1 v1 h2 v2 where A0:
      "Reserve ([] :: int heap) SimpleVector_default (length [4, 5, 6 :: int]) = Inr (h1, v1)"
      "PushBack_all h1 v1 (map Outside [4, 5, 6]) = Inr (h2, v2)"
      "GetSize v2 = length [4, 5, 6 :: int]"
      "GetCapacity SimpleVector_default = 0 \<longrightarrow> GetCapacity v2 = length [4, 5, 6 :: int]"
      "elements h2 v2 = [4, 5, 6]"
    by (elim exE conjE) (rule that)
  have "Reserve ([] :: int heap) SimpleVector_default 3 = Inr (h1, v1) \<and>
      PushBack_all h1 v1 [Outside 4, Outside 5, Outside 6] = Inr (h2, v2) \<and>
      GetSize v2 = 3 \<and> GetCapacity v2 = 3 \<and> elements h2 v2 = [4, 5, 6]"
    using A0 e(2) unfolding l by simp
  then have A: "\<exists>h1 v1 h2 v2. Reserve ([] :: int heap) SimpleVector_default 3 = Inr (h1, v1) \<and>
      PushBack_all h1 v1 [Outside 4, Outside 5, Outside 6] = Inr (h2, v2) \<and>
      GetSize v2 = 3 \<and> GetCapacity v2 = 3 \<and> elements h2 v2 = [4, 5, 6]"
    by (intro exI)
  have B: "Reserve ([] :: int heap) SimpleVector_default 0 = Inr ([], SimpleVector_default)"
    using C9_Reserve [OF wf, where c = 0, THEN conjunct2, THEN conjunct2, THEN conjunct1] e(2)
    by simp
  have "\<exists>h' v'. Reserve ([] :: int heap) SimpleVector_default 2 = Inr (h', v') \<and>
      well_formed h' v' \<and> GetCapacity v' = 2 \<and> GetSize v' = GetSize SimpleVector_default \<and>
      elements h' v' = elements ([] :: int heap) SimpleVector_default"
    using C9_Reserve [OF wf, where c = 2, THEN conjunct2, THEN conjunct2, THEN conjunct2] e(2)
    by simp
  then have C: "\<exists>h' v'. Reserve ([] :: int heap) SimpleVector_default 2 = Inr (h', v') \<and>
      GetCapacity v' = 2 \<and> GetSize v' = 0 \<and> elements h' v' = []"
    unfolding e(1) e(3) by blast
  have wf2: "well_formed [Some [7, 8 :: int]] SimpleVector_default"
    by (simp add: well_formed_def SimpleVector_default_def ArrayPtr_default_def)
  have la: "list_all2 (\<lambda>r y. deref [Some [7, 8 :: int]] r = Inr y \<and>
                \<not> in_own_array SimpleVector_default r)
     [Outside 4, Element (Ptr (Some 0) 1), Outside 6] [4, 8, 6]"
    by (simp add: deref_def load_def block_def in_own_array_def SimpleVector_default_def
        ArrayPtr_default_def)
  have l3: "length [Outside 4, Element (Ptr (Some 0) 1), Outside (6 :: int)] = 3"
    by simp
  have "\<exists>h1 v1 h2 v2. Reserve [Some [7, 8 :: int]] SimpleVector_default
          (length [Outside 4, Element (Ptr (Some 0) 1), Outside (6 :: int)]) = Inr (h1, v1) \<and>
      PushBack_all h1 v1 [Outside 4, Element (Ptr (Some 0) 1), Outside 6] = Inr (h2, v2) \<and>
      GetSize v2 = length [Outside 4, Element (Ptr (Some 0) 1), Outside (6 :: int)] \<and>
      GetCapacity v2 = max (length [Outside 4, Element (Ptr (Some 0) 1), Outside (6 :: int)])
                         (GetCapacity SimpleVector_default) \<and>
      (GetCapacity SimpleVector_default = 0 \<longrightarrow>
         GetCapacity v2 = length [Outside 4, Element (Ptr (Some 0) 1), Outside (6 :: int)]) \<and>
      elements h2 v2 = [4, 8, 6] \<and> items_m v2 = items_m v1 \<and> length h2 = length h1"
    using C9_Reserve [OF wf2, where rs = "[Outside 4, Element (Ptr (Some 0) 1), Outside 6]"
        and ys = "[4, 8, 6]", THEN conjunct2, THEN conjunct1] e(1) la
    by blast
  then obtain h1 v1 h2 v2 where D0:
      "Reserve [Some [7, 8 :: int]] SimpleVector_default
          (length [Outside 4, Element (Ptr (Some 0) 1), Outside (6 :: int)]) = Inr (h1, v1)"
      "PushBack_all h1 v1 [Outside 4, Element (Ptr (Some 0) 1), Outside 6] = Inr (h2, v2)"
      "GetSize v2 = length [Outside 4, Element (Ptr (Some 0) 1), Outside (6 :: int)]"
      "GetCapacity SimpleVector_default = 0 \<longrightarrow>
         GetCapacity v2 = length [Outside 4, Element (Ptr (Some 0) 1), Outside (6 :: int)]"
      "elements h2 v2 = [4, 8, 6]"
    by (elim exE conjE) (rule that)
  have "Reserve [Some [7, 8 :: int]] SimpleVector_default 3 = Inr (h1, v1) \<and>
      PushBack_all h1 v1 [Outside 4, Element (Ptr (Some 0) 1), Outside 6] = Inr (h2, v2) \<and>
      GetSize v2 = 3 \<and> GetCapacity v2 = 3 \<and> elements h2 v2 = [4, 8, 6]"
    using D0 e(2) unfolding l3 by simp
  then have D: "\<exists>h1 v1 h2 v2. Reserve [Some [7, 8 :: int]] SimpleVector_default 3 = Inr (h1, v1) \<and>
      PushBack_all h1 v1 [Outside 4, Element (Ptr (Some 0) 1), Outside 6] = Inr (h2, v2) \<and>
      GetSize v2 = 3 \<and> GetCapacity v2 = 3 \<and> elements h2 v2 = [4, 8, 6]"
    by (intro exI)
  show ?thesis
    by (intro conjI wf e(1) e(2) A B C wf2 la D)
qed

section \<open>Copying, moving, and the two drafts\<close>

lemma std_swap_ArrayPtr_eq: "std_swap_ArrayPtr h a b = Inr (h, b, a)"
  by (simp add: std_swap_ArrayPtr_def ArrayPtr_move_def ArrayPtr_move_assign_def ArrayPtr_swap_def
      ArrayPtr_destroy_def delete_array_def bind_result_def Let_def)

text \<open>
  The move constructor of part\_000 hands the whole state over and leaves the source
  empty; the heap is untouched.
\<close>

lemma SimpleVector_move_eq: "SimpleVector_move h other = Inr (h, other, SimpleVector_default)"
  by (simp add: SimpleVector_move_def std_swap_ArrayPtr_eq bind_result_def
      SimpleVector_default_def ArrayPtr_default_def)

text \<open>
  The move constructor of part\_001 hands the same state over, but deletes the array it
  has just handed over: the temporary returned by \<^verbatim>\<open>std::exchange\<close> receives the
  source's pointer in the move assignment and is destroyed with it.
\<close>

lemma SimpleVector_move_001_eq:
  assumes "well_formed h other"
  shows "SimpleVector_move_001 h other =
           Inr (released h (raw_ptr_m (items_m other)), other, SimpleVector_default)"
proof (cases "raw_ptr_m (items_m other)")
  case None
  then show ?thesis
    by (simp add: SimpleVector_move_001_def std_exchange_ArrayPtr_def ArrayPtr_move_def
        ArrayPtr_copy_def ArrayPtr_move_assign_def ArrayPtr_swap_def ArrayPtr_destroy_def
        delete_array_def bind_result_def released_def SimpleVector_default_def
        ArrayPtr_default_def)
next
  case (Some a)
  have "block h (Some a) = Some (buffer h other)" using assms Some by (rule wf_block)
  then show ?thesis
    using Some
    by (simp add: SimpleVector_move_001_def std_exchange_ArrayPtr_def ArrayPtr_move_def
        ArrayPtr_copy_def ArrayPtr_move_assign_def ArrayPtr_swap_def ArrayPtr_destroy_def
        delete_array_def bind_result_def released_def SimpleVector_default_def
        ArrayPtr_default_def)
qed

lemma Resize_001_eq: "Resize_001 h v n = Resize h v n"
  by (auto simp: Resize_001_def Resize_def reallocate_def bind_result_def Let_def
      split: prod.splits sum.splits)

lemma Erase_001_eq:
  "ptr_le pos (end_it v) = Inr True \<Longrightarrow> ptr_le (begin_it v) pos = Inr True \<Longrightarrow>
   Erase_001 h v pos = Erase h v pos"
  by (simp add: Erase_001_def Erase_def bind_result_def)

lemma Insert_rvalue_001_eq:
  "ptr_le pos (end_it v) = Inr True \<Longrightarrow> ptr_le (begin_it v) pos = Inr True \<Longrightarrow>
   Insert_rvalue_001 h v pos x = Insert_rvalue h v pos x"
  by (simp add: Insert_rvalue_001_def Insert_rvalue_def bind_result_def)

lemma Index_001_eq: "index < size_m v \<Longrightarrow> Index_001 v index = Index v index"
  by (simp add: Index_001_def Index_def)

lemma operator_eq_wf:
  assumes "well_formed h a" and "well_formed h b"
  shows "operator_eq h a b = Inr (elements h a = elements h b)"
proof (cases "size_m a = size_m b")
  case False
  then have "elements h a \<noteq> elements h b"
    using length_elements [OF assms(1)] length_elements [OF assms(2)] by metis
  then show ?thesis
    using False
    by (simp add: operator_eq_def std_equal_def begin_it_def end_it_def Get_def ptr_add_def
        ptr_diff_def bind_result_def)
next
  case True
  show ?thesis
  proof (cases "size_m a = 0")
    case z: True
    then have "elements h a = []" "elements h b = []"
      using True by (simp_all add: elements_def)
    then show ?thesis
      using True z
      by (simp add: operator_eq_def std_equal_def begin_it_def end_it_def Get_def ptr_add_def
          ptr_diff_def bind_result_def)
  next
    case nz: False
    obtain pa where pa: "raw_ptr_m (items_m a) = Some pa"
      using wf_raw_Some [OF assms(1)] wf_size_le [OF assms(1)] nz by fastforce
    obtain pb where pb: "raw_ptr_m (items_m b) = Some pb"
      using wf_raw_Some [OF assms(2)] wf_size_le [OF assms(2)] nz True by fastforce
    have "equal_loop h (Ptr (Some pa) 0) (Ptr (Some pb) 0) (size_m a) =
            Inr (take (size_m a) (drop 0 (buffer h a)) = take (size_m a) (drop 0 (buffer h b)))"
      using wf_size_le [OF assms(1)] wf_size_le [OF assms(2)] True
        length_buffer [OF assms(1)] length_buffer [OF assms(2)]
      by (intro equal_loop_blocks wf_block assms pa pb) simp_all
    then show ?thesis
      using True pa pb
      by (simp add: operator_eq_def std_equal_def begin_it_def end_it_def Get_def ptr_add_def
          ptr_diff_def bind_result_def elements_def)
  qed
qed

text \<open>Self-assignment changes nothing, in either draft.\<close>

lemma self_assignment:
  "well_formed h (s v) \<Longrightarrow> operator_assign_copy h s v v = Inr (h, s)"
  "operator_assign_copy_001 h s v v = Inr (h, s)"
  "operator_assign_move h s v v = Inr (h, s)"
  "operator_assign_move_001 h s v v = Inr (h, s)"
  by (simp_all add: operator_assign_copy_def operator_eq_wf bind_result_def
      operator_assign_copy_001_def operator_assign_move_def operator_assign_move_001_def)

text \<open>
  The guard of part\_000 holds for more than self-assignment: whenever the two vectors hold
  equal elements, the assignment returns at once and the target keeps its own capacity.
\<close>

lemma operator_assign_copy_equal_elements:
  "well_formed h (s this) \<Longrightarrow> well_formed h (s rhs) \<Longrightarrow>
   elements h (s this) = elements h (s rhs) \<Longrightarrow> operator_assign_copy h s this rhs = Inr (h, s)"
  by (simp add: operator_assign_copy_def operator_eq_wf bind_result_def)

lemma swap_distinct_eq: "swap_distinct a b = (b, a)"
  by (cases a, cases b) (simp add: swap_distinct_def swap_def swap_member_def)

lemma swap_exchanges:
  "swap s a b = s(a := s b, b := s a)"
proof (rule ext)
  fix c
  show "swap s a b c = (s(a := s b, b := s a)) c"
    by (cases "s a", cases "s b", cases "items_m (s a)", cases "items_m (s b)")
       (auto simp: swap_def swap_member_def)
qed

text \<open>
  The copy constructor: a fresh array of the capacity of the source (none for capacity 0)
  that holds the elements of the source, then default values.
\<close>

lemma SimpleVector_copy_wf:
  assumes "well_formed h other"
  shows "SimpleVector_copy h other =
     Inr (if capacity_m other = 0 then h
          else h @ [Some (elements h other @ replicate (capacity_m other - size_m other) default)],
          \<lparr>items_m = \<lparr>raw_ptr_m = (if capacity_m other = 0 then None else Some (length h))\<rparr>,
           size_m = size_m other, capacity_m = capacity_m other\<rparr>)"
proof (cases "capacity_m other = 0")
  case True
  then have "size_m other = 0" using wf_size_le [OF assms] by simp
  then show ?thesis
    using True
    by (simp add: SimpleVector_copy_def GetCapacity_def GetSize_def ArrayPtr_size_0 std_copy_def
        begin_it_def end_it_def Get_def ptr_add_def ptr_diff_def bind_result_def)
next
  case False
  let ?c = "capacity_m other"
  let ?n = "size_m other"
  let ?h1 = "h @ [Some (replicate ?c default)]"
  obtain a where a: "raw_ptr_m (items_m other) = Some a"
    using wf_raw_Some [OF assms] False by fastforce
  have al: "a < length h" using assms a by (rule wf_raw_less)
  have bl: "block h (Some a) = Some (buffer h other)" using assms a by (rule wf_block)
  have b1: "block ?h1 (Some a) = Some (buffer h other)"
      "block ?h1 (Some (length h)) = Some (replicate ?c default)"
    using al bl by (simp_all add: block_append)
  have "copy_loop ?h1 (Ptr (Some a) 0) (Ptr (Some (length h)) 0) ?n =
     Inr (?h1[length h := Some (take 0 (replicate ?c default) @ take ?n (drop 0 (buffer h other))
                                 @ drop (0 + ?n) (replicate ?c default))])"
    using al wf_size_le [OF assms] length_buffer [OF assms]
    by (intro copy_loop_distinct b1) simp_all
  then have "copy_loop ?h1 (Ptr (Some a) 0) (Ptr (Some (length h)) 0) ?n =
     Inr (h @ [Some (elements h other @ replicate (?c - ?n) default)])"
    by (simp add: elements_def)
  then show ?thesis
    using False a
    by (simp add: SimpleVector_copy_def GetCapacity_def GetSize_def ArrayPtr_size_pos std_copy_def
        begin_it_def end_it_def Get_def ptr_add_def ptr_diff_def bind_result_def)
qed

lemma SimpleVector_copy_facts:
  assumes "well_formed h other"
  shows "\<exists>h' v'. SimpleVector_copy h other = Inr (h', v') \<and>
           well_formed h' v' \<and> well_formed h' other \<and>
           GetSize v' = GetSize other \<and> GetCapacity v' = GetCapacity other \<and>
           elements h' v' = elements h other \<and> elements h' other = elements h other \<and>
           (GetCapacity other \<noteq> 0 \<longrightarrow> raw_ptr_m (items_m v') \<noteq> raw_ptr_m (items_m other) \<and>
              raw_ptr_m (items_m v') = Some (length h))"
proof (cases "capacity_m other = 0")
  case True
  then have "size_m other = 0" using wf_size_le [OF assms] by simp
  then show ?thesis
    using True assms
    by (simp add: SimpleVector_copy_wf [OF assms] well_formed_def elements_def GetSize_def
        GetCapacity_def)
next
  case False
  let ?ys = "elements h other @ replicate (capacity_m other - size_m other) default"
  let ?h' = "h @ [Some ?ys]"
  let ?v' = "\<lparr>items_m = \<lparr>raw_ptr_m = Some (length h)\<rparr>, size_m = size_m other,
              capacity_m = capacity_m other\<rparr>"
  obtain a where a: "raw_ptr_m (items_m other) = Some a"
    using wf_raw_Some [OF assms] False by fastforce
  have al: "a < length h" using assms a by (rule wf_raw_less)
  obtain xs where xs: "block h (Some a) = Some xs" "length xs = capacity_m other"
    using assms a by (auto simp: well_formed_def split: option.splits)
  have bl': "block ?h' (Some a) = Some xs"
    using al xs(1) by (simp add: block_append)
  have bo: "buffer ?h' other = buffer h other"
    using a bl' xs(1) by (simp add: buffer_def)
  have wo: "well_formed ?h' other"
    using a bl' wf_size_le [OF assms] xs(2) by (simp add: well_formed_def)
  have ly: "length ?ys = capacity_m other"
    using wf_size_le [OF assms] length_elements [OF assms] by simp
  have wv: "well_formed ?h' ?v'"
    using ly wf_size_le [OF assms] by (simp add: well_formed_def block_append)
  have ev: "elements ?h' ?v' = elements h other"
    using length_elements [OF assms] by (simp add: elements_def buffer_def block_append)
  have eo: "elements ?h' other = elements h other"
    using bo by (simp add: elements_def)
  show ?thesis
    using False a al wo wv ev eo
    by (simp add: SimpleVector_copy_wf [OF assms] GetSize_def GetCapacity_def)
qed

section \<open>Independence of vectors that own different arrays\<close>

lemma Insert_own:
  assumes "Insert h v pos x = Inr (h', v', it)"
  shows "touches_only_own h v h' v'"
proof (cases "pos = cend v")
  case True
  then show ?thesis
    using assms by (auto simp: Insert_def bind_result_def dest: PushBack_own split: sum.splits)
next
  case False
  then obtain h1 h2 i lb it0 it1 y where r: "ResizeCurrentVector h v = Inr (h1, v')"
      and e: "ptr_sub (end_it v') 1 = Inr lb"
      and c: "std_copy_backward h1 (ArrayPtr_index (items_m v') i) lb (end_it v') = Inr (h2, it0)"
      and p: "ptr_sub it0 1 = Inr it1"
      and s: "store h2 it1 y = Inr h'"
    using assms by (auto simp: Insert_def bind_result_def split: sum.splits)
  have c': "unchanged_outside h1 h2 (raw_ptr_m (items_m v'))" "base it0 = raw_ptr_m (items_m v')"
    using c copy_backward_loop_frame [of h1 lb "end_it v'" _ h2 it0]
    by (auto simp: std_copy_backward_def bind_result_def end_it_def ptr_add_def Get_def
        split: sum.splits)
  have "base it1 = raw_ptr_m (items_m v')"
    using p c'(2) by (auto simp: ptr_sub_def split: if_splits)
  then have s': "unchanged_outside h2 h' (raw_ptr_m (items_m v'))"
    using store_frame [OF s] by simp
  have "touches_only_own h v h2 v'"
    using ResizeCurrentVector_own [OF r] c'(1) by (rule touches_then_own_write)
  then show ?thesis
    using s' by (rule touches_then_own_write)
qed

lemma Insert_rvalue_own:
  "Insert_rvalue h v pos x = Inr (h', v', it) \<Longrightarrow> touches_only_own h v h' v'"
proof -
  assume a: "Insert_rvalue h v pos x = Inr (h', v', it)"
  then have "Insert h v pos x = Inr (h', v', it)"
    by (auto simp: Insert_rvalue_def Insert_def std_move_backward_def bind_result_def
        split: sum.splits if_splits)
  then show ?thesis by (rule Insert_own)
qed

lemma Erase_own:
  assumes "Erase h v pos = Inr (h', v', it)"
  shows "touches_only_own h v h' v'"
proof -
  have v': "v' = v\<lparr>size_m := size_m v - 1\<rparr>"
    using assms by (auto simp: Erase_def bind_result_def split: sum.splits if_splits)
  have "unchanged_outside h h' (raw_ptr_m (items_m v))"
    using assms copy_loop_frame [of h _ "ArrayPtr_index (items_m v) _" _ h']
    by (auto simp: Erase_def bind_result_def std_move_def std_copy_def ArrayPtr_index_def
        split: sum.splits if_splits)
  then show ?thesis
    by (simp add: v' touches_only_own_def)
qed

text \<open>
  A vector \<open>w\<close> whose array is not the one of \<open>v\<close> is not affected by a step of \<open>v\<close>
  that touches only its own array, and the two arrays are still different afterwards.
\<close>

lemma untouched:
  assumes "well_formed h w" and "touches_only_own h v h' v'"
    and "raw_ptr_m (items_m w) = None \<or> raw_ptr_m (items_m v) \<noteq> raw_ptr_m (items_m w)"
  shows "well_formed h' w \<and> elements h' w = elements h w \<and>
         (raw_ptr_m (items_m w) = None \<or> raw_ptr_m (items_m v') \<noteq> raw_ptr_m (items_m w))"
proof (cases "raw_ptr_m (items_m w)")
  case None
  then show ?thesis
    using assms(1) by (simp add: well_formed_def elements_def buffer_def)
next
  case (Some b)
  have bl: "b < length h" using assms(1) Some by (rule wf_raw_less)
  have f: "unchanged_outside h h' (raw_ptr_m (items_m v))"
    using assms(2) by (simp add: touches_only_own_def)
  have "h' ! b = h ! b" "b < length h'"
    using f bl assms(3) Some by (auto simp: unchanged_outside_def)
  then have "block h' (Some b) = block h (Some b)"
    using bl by (simp add: block_def)
  moreover have "raw_ptr_m (items_m v') \<noteq> Some b"
    using assms(2,3) Some bl by (auto simp: touches_only_own_def)
  ultimately show ?thesis
    using assms(1) Some by (simp add: well_formed_def elements_def buffer_def)
qed

lemma call_own:
  assumes "call c this (h, s) = Inr (h', s')" and "\<not> replaces_state c"
  shows "touches_only_own h (s this) h' (s' this) \<and> (\<forall>j. j \<noteq> this \<longrightarrow> s' j = s j)"
proof (cases c)
  case (Call_PushBack x)
  then show ?thesis
    using assms by (auto simp: bind_result_def dest: PushBack_own split: sum.splits)
next
  case Call_PopBack
  then show ?thesis
    using assms by (auto simp: bind_result_def PopBack_def split: sum.splits if_splits)
next
  case (Call_Insert pos x)
  then show ?thesis
    using assms by (auto simp: bind_result_def dest: Insert_own split: sum.splits)
next
  case (Call_Insert_rvalue pos x)
  then show ?thesis
    using assms by (auto simp: bind_result_def dest: Insert_rvalue_own split: sum.splits)
next
  case (Call_Erase pos)
  then show ?thesis
    using assms by (auto simp: bind_result_def dest: Erase_own split: sum.splits)
next
  case (Call_Resize n)
  then show ?thesis
    using assms by (auto simp: bind_result_def dest: Resize_own split: sum.splits)
next
  case (Call_Reserve n)
  then show ?thesis
    using assms by (auto simp: bind_result_def dest: Reserve_own split: sum.splits)
next
  case Call_Clear
  then show ?thesis
    using assms by (auto simp: Clear_def)
next
  case (Call_At i)
  then show ?thesis
    using assms by (auto simp: bind_result_def split: sum.splits)
next
  case (Call_Index i)
  then show ?thesis
    using assms by (auto simp: bind_result_def split: sum.splits)
qed (use assms in auto)

text \<open>
  Independence: two vector objects that own different arrays (or of which the second owns
  none). A call on the first that is not an assignment, a swap or a move leaves the second
  object, its well-formedness and its elements as they were, and the two still own
  different arrays. After a copy construction the copy and the original are such a pair,
  in both orders.
\<close>

lemma call_leaves_other_vectors:
  assumes "call c this (h, s) = Inr (h', s')" and "\<not> replaces_state c" and "j \<noteq> this"
    and "well_formed h (s j)"
    and "raw_ptr_m (items_m (s j)) = None \<or>
         raw_ptr_m (items_m (s this)) \<noteq> raw_ptr_m (items_m (s j))"
  shows "s' j = s j \<and> well_formed h' (s' j) \<and> elements h' (s' j) = elements h (s j) \<and>
         (raw_ptr_m (items_m (s' j)) = None \<or>
          raw_ptr_m (items_m (s' this)) \<noteq> raw_ptr_m (items_m (s' j)))"
proof -
  have o: "touches_only_own h (s this) h' (s' this)" and e: "s' j = s j"
    using call_own [OF assms(1,2)] assms(3) by simp_all
  show ?thesis
    using untouched [OF assms(4) o assms(5)] e by simp
qed

lemma copy_owns_another_array:
  assumes "well_formed h other"
  shows "\<exists>h' v'. SimpleVector_copy h other = Inr (h', v') \<and>
           well_formed h' v' \<and> well_formed h' other \<and>
           (raw_ptr_m (items_m v') = None \<or>
            raw_ptr_m (items_m other) \<noteq> raw_ptr_m (items_m v')) \<and>
           (raw_ptr_m (items_m other) = None \<or>
            raw_ptr_m (items_m v') \<noteq> raw_ptr_m (items_m other))"
proof -
  obtain h' v' where r: "SimpleVector_copy h other = Inr (h', v')"
      "well_formed h' v'" "well_formed h' other"
      "GetCapacity other \<noteq> 0 \<longrightarrow> raw_ptr_m (items_m v') \<noteq> raw_ptr_m (items_m other)"
    using SimpleVector_copy_facts [OF assms] by blast
  have "GetCapacity other = 0 \<Longrightarrow> raw_ptr_m (items_m v') = None"
    using r(1) by (auto simp: SimpleVector_copy_wf [OF assms] GetCapacity_def)
  then show ?thesis
    using r by (cases "GetCapacity other = 0") auto
qed

section \<open>Capacity never shrinks\<close>

lemma reallocate_capacity:
  "reallocate h v nc = Inr (h', v') \<Longrightarrow> capacity_m v' = nc \<and> size_m v' = size_m v"
  by (auto simp: reallocate_def bind_result_def ArrayPtr_swap_distinct_eq
      split: prod.splits sum.splits)

lemma Resize_capacity:
  "Resize h v n = Inr (h', v') \<Longrightarrow>
   capacity_m v' = (if capacity_m v < n then grown n (capacity_m v) else capacity_m v)"
  by (auto simp: Resize_def bind_result_def grown_def dest!: reallocate_capacity
      split: if_splits sum.splits prod.splits)

lemma ResizeCurrentVector_capacity:
  "ResizeCurrentVector h v = Inr (h', v') \<Longrightarrow> capacity_m v \<le> capacity_m v'"
  by (auto simp: ResizeCurrentVector_def grown_def dest!: Resize_capacity split: if_splits)

lemma PushBack_capacity:
  "PushBack h v x = Inr (h', v') \<Longrightarrow> capacity_m v \<le> capacity_m v'"
  by (auto simp: PushBack_def bind_result_def dest!: ResizeCurrentVector_capacity
      split: sum.splits prod.splits)

lemma Insert_capacity:
  "Insert h v pos x = Inr (h', v', it) \<Longrightarrow> capacity_m v \<le> capacity_m v'"
  by (auto simp: Insert_def bind_result_def
      dest!: ResizeCurrentVector_capacity PushBack_capacity
      split: if_splits sum.splits prod.splits)

lemma Insert_rvalue_capacity:
  "Insert_rvalue h v pos x = Inr (h', v', it) \<Longrightarrow> capacity_m v \<le> capacity_m v'"
  by (auto simp: Insert_rvalue_def bind_result_def
      dest!: ResizeCurrentVector_capacity PushBack_capacity
      split: if_splits sum.splits prod.splits)

lemma Erase_capacity:
  "Erase h v pos = Inr (h', v', it) \<Longrightarrow> capacity_m v' = capacity_m v"
  by (auto simp: Erase_def bind_result_def split: if_splits sum.splits prod.splits)

lemma Reserve_capacity:
  "Reserve h v n = Inr (h', v') \<Longrightarrow> capacity_m v \<le> capacity_m v'"
  by (auto simp: Reserve_def dest!: reallocate_capacity split: if_splits)

lemma PopBack_capacity: "PopBack v = Inr v' \<Longrightarrow> capacity_m v' = capacity_m v"
  by (auto simp: PopBack_def split: if_splits)

text \<open>
  C10, as the claim states it, fails: copy assignment is a member operation, and assigning
  the vector \<open>{7}\<close> of capacity 1 to the vector \<open>{1, 2, 3}\<close> of capacity 3 leaves the
  target with capacity 1.
\<close>

theorem C10_copy_assignment_shrinks:
  "call (Call_assign_copy 1) 0
     ([Some [1, 2, 3 :: int], Some [7]],
      (\<lambda>i. SimpleVector_default)
        (0 := \<lparr>items_m = \<lparr>raw_ptr_m = Some 0\<rparr>, size_m = 3, capacity_m = 3\<rparr>,
         1 := \<lparr>items_m = \<lparr>raw_ptr_m = Some 1\<rparr>, size_m = 1, capacity_m = 1\<rparr>)) =
   Inr ([None, Some [7], Some [7]],
        (\<lambda>i. SimpleVector_default)
          (0 := \<lparr>items_m = \<lparr>raw_ptr_m = Some 2\<rparr>, size_m = 1, capacity_m = 1\<rparr>,
           1 := \<lparr>items_m = \<lparr>raw_ptr_m = Some 1\<rparr>, size_m = 1, capacity_m = 1\<rparr>)) \<and>
   GetCapacity \<lparr>items_m = \<lparr>raw_ptr_m = Some 2\<rparr>, size_m = 1, capacity_m = 1\<rparr>
     < GetCapacity \<lparr>items_m = \<lparr>raw_ptr_m = Some 0\<rparr>, size_m = 3, capacity_m = 3\<rparr>"
  by (simp add: operator_assign_copy_def operator_eq_def std_equal_def begin_it_def end_it_def
      Get_def ptr_add_def ptr_diff_def bind_result_def SimpleVector_copy_def ArrayPtr_size_def
      new_array_def GetCapacity_def GetSize_def std_copy_def load_def store_def block_def
      swap_distinct_def swap_def swap_member_def SimpleVector_destroy_def ArrayPtr_destroy_def
      delete_array_def default_int_def fun_upd_twist numeral_2_eq_2)

text \<open>
  C10, amended. A call on a vector that is not a copy assignment, a move assignment, a
  \<^verbatim>\<open>swap\<close> or its use as the source of a move construction, and that returns, leaves
  the capacity of that vector at least what it was, and every other vector as it was.
  \<^verbatim>\<open>Clear\<close>, \<^verbatim>\<open>PopBack\<close>, \<^verbatim>\<open>Erase\<close>, a \<^verbatim>\<open>Resize\<close> to at most the capacity
  and a shrinking \<^verbatim>\<open>Resize\<close> of a well-formed vector leave it exactly what it was.
\<close>

theorem C10_capacity_monotone:
  assumes "call c this (h, s) = Inr (h', s')"
  shows "(\<not> replaces_state c \<longrightarrow>
            GetCapacity (s this) \<le> GetCapacity (s' this) \<and> (\<forall>j. j \<noteq> this \<longrightarrow> s' j = s j)) \<and>
         (c = Call_Clear \<or> c = Call_PopBack \<or> (\<exists>pos. c = Call_Erase pos) \<or>
          (\<exists>n. c = Call_Resize n \<and> n \<le> GetCapacity (s this)) \<or>
          (\<exists>n. c = Call_Resize n \<and> n \<le> GetSize (s this) \<and> well_formed h (s this))
            \<longrightarrow> GetCapacity (s' this) = GetCapacity (s this))"
proof -
  have others: "\<not> replaces_state c \<Longrightarrow> j \<noteq> this \<Longrightarrow> s' j = s j" for j
    using call_own [OF assms] by simp
  have "(\<not> replaces_state c \<longrightarrow> GetCapacity (s this) \<le> GetCapacity (s' this)) \<and>
         (c = Call_Clear \<or> c = Call_PopBack \<or> (\<exists>pos. c = Call_Erase pos) \<or>
          (\<exists>n. c = Call_Resize n \<and> n \<le> GetCapacity (s this)) \<or>
          (\<exists>n. c = Call_Resize n \<and> n \<le> GetSize (s this) \<and> well_formed h (s this))
            \<longrightarrow> GetCapacity (s' this) = GetCapacity (s this))"
  proof (cases c)
  case (Call_PushBack x)
  then show ?thesis
    using assms
    by (auto simp: bind_result_def GetCapacity_def dest!: PushBack_capacity
        split: sum.splits prod.splits)
next
  case Call_PopBack
  then show ?thesis
    using assms
    by (auto simp: bind_result_def GetCapacity_def dest!: PopBack_capacity split: sum.splits)
next
  case (Call_Insert pos x)
  then show ?thesis
    using assms
    by (auto simp: bind_result_def GetCapacity_def dest!: Insert_capacity
        split: sum.splits prod.splits)
next
  case (Call_Insert_rvalue pos x)
  then show ?thesis
    using assms
    by (auto simp: bind_result_def GetCapacity_def dest!: Insert_rvalue_capacity
        split: sum.splits prod.splits)
next
  case (Call_Erase pos)
  then show ?thesis
    using assms
    by (auto simp: bind_result_def GetCapacity_def dest!: Erase_capacity
        split: sum.splits prod.splits)
next
  case (Call_Resize n)
  then show ?thesis
    using assms
    by (auto simp: bind_result_def GetCapacity_def GetSize_def grown_def
        dest!: Resize_capacity wf_size_le split: sum.splits prod.splits if_splits)
next
  case (Call_Reserve n)
  then show ?thesis
    using assms
    by (auto simp: bind_result_def GetCapacity_def dest!: Reserve_capacity
        split: sum.splits prod.splits)
next
  case Call_Clear
  then show ?thesis
    using assms by (auto simp: Clear_def GetCapacity_def)
next
  case (Call_At i)
  then show ?thesis
    using assms by (auto simp: bind_result_def split: sum.splits)
next
  case (Call_Index i)
  then show ?thesis
    using assms by (auto simp: bind_result_def split: sum.splits)
  qed (use assms in auto)
  then show ?thesis
    using others by blast
qed

text \<open>
  C10 at the full vector \<open>{1, 2}\<close> of capacity 2: \<^verbatim>\<open>PushBack(9)\<close> makes the capacity
  4, \<^verbatim>\<open>Resize(1)\<close> leaves it 2.
\<close>

theorem C10_capacity_monotone_witness:
  "call (Call_PushBack (Outside 9)) 0
     ([Some [1, 2 :: int]],
      (\<lambda>i. SimpleVector_default)
        (0 := \<lparr>items_m = \<lparr>raw_ptr_m = Some 0\<rparr>, size_m = 2, capacity_m = 2\<rparr>)) =
   Inr ([None, Some [1, 2, 9, 0]],
        (\<lambda>i. SimpleVector_default)
          (0 := \<lparr>items_m = \<lparr>raw_ptr_m = Some 1\<rparr>, size_m = 3, capacity_m = 4\<rparr>)) \<and>
   \<not> replaces_state (Call_PushBack (Outside (9 :: int))) \<and>
   GetCapacity \<lparr>items_m = \<lparr>raw_ptr_m = Some 0\<rparr>, size_m = 2, capacity_m = 2\<rparr>
     \<le> GetCapacity \<lparr>items_m = \<lparr>raw_ptr_m = Some 1\<rparr>, size_m = 3, capacity_m = 4\<rparr> \<and>
   call (Call_Resize 1) 0
     ([Some [1, 2 :: int]],
      (\<lambda>i. SimpleVector_default)
        (0 := \<lparr>items_m = \<lparr>raw_ptr_m = Some 0\<rparr>, size_m = 2, capacity_m = 2\<rparr>)) =
   Inr ([Some [1, 2]],
        (\<lambda>i. SimpleVector_default)
          (0 := \<lparr>items_m = \<lparr>raw_ptr_m = Some 0\<rparr>, size_m = 1, capacity_m = 2\<rparr>)) \<and>
   well_formed [Some [1, 2 :: int]]
     \<lparr>items_m = \<lparr>raw_ptr_m = Some 0\<rparr>, size_m = 2, capacity_m = 2\<rparr> \<and>
   GetCapacity \<lparr>items_m = \<lparr>raw_ptr_m = Some 0\<rparr>, size_m = 1, capacity_m = 2\<rparr>
     = GetCapacity \<lparr>items_m = \<lparr>raw_ptr_m = Some 0\<rparr>, size_m = 2, capacity_m = 2\<rparr>"
proof -
  let ?h = "[Some [1, 2 :: int]]"
  let ?v = "\<lparr>items_m = \<lparr>raw_ptr_m = Some 0\<rparr>, size_m = 2, capacity_m = 2\<rparr>"
  let ?s = "(\<lambda>i. SimpleVector_default)(0 := ?v)"
  let ?v1 = "\<lparr>items_m = \<lparr>raw_ptr_m = Some 1\<rparr>, size_m = 3, capacity_m = 4\<rparr>"
  let ?v2 = "\<lparr>items_m = \<lparr>raw_ptr_m = Some 0\<rparr>, size_m = 1, capacity_m = 2\<rparr>"
  have wf: "well_formed ?h ?v"
    by (simp add: well_formed_def block_def)
  have p: "PushBack ?h ?v (Outside 9) = Inr ([None, Some [1, 2, 9, 0]], ?v1)"
    by code_simp
  have r: "Resize ?h ?v 1 = Inr (?h, ?v2)"
    by code_simp
  have 1: "call (Call_PushBack (Outside 9)) 0 (?h, ?s) =
             Inr ([None, Some [1, 2, 9, 0]], (\<lambda>i. SimpleVector_default)(0 := ?v1))"
    by (simp add: p bind_result_def)
  have 2: "call (Call_Resize 1) 0 (?h, ?s) = Inr (?h, (\<lambda>i. SimpleVector_default)(0 := ?v2))"
    by (simp add: r bind_result_def del: One_nat_def)
  have "GetCapacity (?s 0) \<le> GetCapacity (((\<lambda>i. SimpleVector_default)(0 := ?v1)) 0)"
    using C10_capacity_monotone [OF 1] by simp
  moreover have "GetCapacity (((\<lambda>i. SimpleVector_default)(0 := ?v2)) 0) = GetCapacity (?s 0)"
    using C10_capacity_monotone [OF 2] wf by (simp add: GetSize_def)
  ultimately show ?thesis
    using 1 2 wf by simp
qed

section \<open>Copy assignment in the two drafts\<close>

lemma operator_assign_copy_differing:
  "well_formed h (s this) \<Longrightarrow> well_formed h (s rhs) \<Longrightarrow>
   elements h (s this) \<noteq> elements h (s rhs) \<Longrightarrow>
   operator_assign_copy h s this rhs = operator_assign_copy_001 h s this rhs"
  by (auto simp: operator_assign_copy_def operator_assign_copy_001_def operator_eq_wf
      bind_result_def)

text \<open>
  C2 fails on part\_000. The target is a default-constructed vector (capacity 0), the
  source is \<^verbatim>\<open>SimpleVector(Reserve(3))\<close> (size 0, capacity 3). Both are empty, so
  \<^verbatim>\<open>*this == rhs\<close> holds and the copy assignment returns at once: the target keeps
  capacity 0, not the 3 of the source.
\<close>

theorem C2_copy_assignment_keeps_own_capacity:
  "SimpleVector_reserve ([] :: int heap) (Reserve_proxy 3) =
     Inr ([Some [0, 0, 0]], \<lparr>items_m = \<lparr>raw_ptr_m = Some 0\<rparr>, size_m = 0, capacity_m = 3\<rparr>) \<and>
   operator_assign_copy [Some [0, 0, 0 :: int]]
     ((\<lambda>i. SimpleVector_default)
        (1 := \<lparr>items_m = \<lparr>raw_ptr_m = Some 0\<rparr>, size_m = 0, capacity_m = 3\<rparr>)) 0 1 =
     Inr ([Some [0, 0, 0]],
          (\<lambda>i. SimpleVector_default)
            (1 := \<lparr>items_m = \<lparr>raw_ptr_m = Some 0\<rparr>, size_m = 0, capacity_m = 3\<rparr>)) \<and>
   GetCapacity (((\<lambda>i::nat. SimpleVector_default)
        (1 := \<lparr>items_m = \<lparr>raw_ptr_m = Some 0\<rparr>, size_m = 0, capacity_m = 3\<rparr>)) 0) = 0 \<and>
   GetCapacity (((\<lambda>i::nat. SimpleVector_default)
        (1 := \<lparr>items_m = \<lparr>raw_ptr_m = Some 0\<rparr>, size_m = 0, capacity_m = 3\<rparr>)) 1) = 3"
proof -
  have 1: "SimpleVector_reserve ([] :: int heap) (Reserve_proxy 3) =
     Inr ([Some [0, 0, 0]], \<lparr>items_m = \<lparr>raw_ptr_m = Some 0\<rparr>, size_m = 0, capacity_m = 3\<rparr>)"
    by code_simp
  have 2: "operator_eq [Some [0, 0, 0 :: int]] SimpleVector_default
             \<lparr>items_m = \<lparr>raw_ptr_m = Some 0\<rparr>, size_m = 0, capacity_m = 3\<rparr> = Inr True"
    by code_simp
  show ?thesis
    using 1 2
    by (simp add: operator_assign_copy_def bind_result_def GetCapacity_def SimpleVector_default_def)
qed

text \<open>
  C4 fails. On the input of C2 the copy assignment of part\_000 leaves the target with
  capacity 0 and that of part\_001 gives it capacity 3. And move-constructing from the
  vector \<open>{1, 2, 3}\<close> leaves the heap alone in part\_000, while part\_001 deletes the array
  the new vector points to: reading its element 0 is defined in the first and undefined
  in the second.
\<close>

theorem C4_drafts_differ:
  "operator_assign_copy [Some [0, 0, 0 :: int]]
     ((\<lambda>i. SimpleVector_default)
        (1 := \<lparr>items_m = \<lparr>raw_ptr_m = Some 0\<rparr>, size_m = 0, capacity_m = 3\<rparr>)) 0 1 =
     Inr ([Some [0, 0, 0]],
          (\<lambda>i. SimpleVector_default)
            (1 := \<lparr>items_m = \<lparr>raw_ptr_m = Some 0\<rparr>, size_m = 0, capacity_m = 3\<rparr>)) \<and>
   operator_assign_copy_001 [Some [0, 0, 0 :: int]]
     ((\<lambda>i. SimpleVector_default)
        (1 := \<lparr>items_m = \<lparr>raw_ptr_m = Some 0\<rparr>, size_m = 0, capacity_m = 3\<rparr>)) 0 1 =
     Inr ([Some [0, 0, 0], Some [0, 0, 0]],
          (\<lambda>i. SimpleVector_default)
            (1 := \<lparr>items_m = \<lparr>raw_ptr_m = Some 0\<rparr>, size_m = 0, capacity_m = 3\<rparr>,
             0 := \<lparr>items_m = \<lparr>raw_ptr_m = Some 1\<rparr>, size_m = 0, capacity_m = 3\<rparr>)) \<and>
   GetCapacity SimpleVector_default = 0 \<and>
   GetCapacity \<lparr>items_m = \<lparr>raw_ptr_m = Some 1\<rparr>, size_m = 0, capacity_m = 3\<rparr> = 3 \<and>
   SimpleVector_move [Some [1, 2, 3 :: int]]
       \<lparr>items_m = \<lparr>raw_ptr_m = Some 0\<rparr>, size_m = 3, capacity_m = 3\<rparr> =
     Inr ([Some [1, 2, 3]], \<lparr>items_m = \<lparr>raw_ptr_m = Some 0\<rparr>, size_m = 3, capacity_m = 3\<rparr>,
          SimpleVector_default) \<and>
   SimpleVector_move_001 [Some [1, 2, 3 :: int]]
       \<lparr>items_m = \<lparr>raw_ptr_m = Some 0\<rparr>, size_m = 3, capacity_m = 3\<rparr> =
     Inr ([None], \<lparr>items_m = \<lparr>raw_ptr_m = Some 0\<rparr>, size_m = 3, capacity_m = 3\<rparr>,
          SimpleVector_default) \<and>
   At \<lparr>items_m = \<lparr>raw_ptr_m = Some 0\<rparr>, size_m = 3, capacity_m = 3\<rparr> 0 = Inr (Ptr (Some 0) 0) \<and>
   load [Some [1, 2, 3 :: int]] (Ptr (Some 0) 0) = Inr 1 \<and>
   load ([None] :: int heap) (Ptr (Some 0) 0) = Inl undefined_behaviour"
proof -
  let ?v1 = "\<lparr>items_m = \<lparr>raw_ptr_m = Some 0\<rparr>, size_m = 0, capacity_m = 3\<rparr>"
  let ?s = "(\<lambda>i. SimpleVector_default)(1 := ?v1)"
  let ?h = "[Some [0, 0, 0 :: int]]"
  have e: "operator_eq ?h SimpleVector_default ?v1 = Inr True"
    by code_simp
  have c: "SimpleVector_copy ?h ?v1 =
             Inr ([Some [0, 0, 0], Some [0, 0, 0]],
                  \<lparr>items_m = \<lparr>raw_ptr_m = Some 1\<rparr>, size_m = 0, capacity_m = 3\<rparr>)"
    by code_simp
  have d: "SimpleVector_destroy [Some [0, 0, 0], Some [0, 0, 0 :: int]] SimpleVector_default =
             Inr [Some [0, 0, 0], Some [0, 0, 0]]"
    by code_simp
  have 1: "operator_assign_copy ?h ?s 0 1 = Inr (?h, ?s)"
    using e by (simp add: operator_assign_copy_def bind_result_def)
  have 2: "operator_assign_copy_001 ?h ?s 0 1 =
     Inr ([Some [0, 0, 0], Some [0, 0, 0]],
          ?s(0 := \<lparr>items_m = \<lparr>raw_ptr_m = Some 1\<rparr>, size_m = 0, capacity_m = 3\<rparr>))"
    using c d by (simp add: operator_assign_copy_001_def bind_result_def swap_distinct_eq)
  have 3: "SimpleVector_move [Some [1, 2, 3 :: int]]
       \<lparr>items_m = \<lparr>raw_ptr_m = Some 0\<rparr>, size_m = 3, capacity_m = 3\<rparr> =
     Inr ([Some [1, 2, 3]], \<lparr>items_m = \<lparr>raw_ptr_m = Some 0\<rparr>, size_m = 3, capacity_m = 3\<rparr>,
          SimpleVector_default)"
    by code_simp
  have 4: "SimpleVector_move_001 [Some [1, 2, 3 :: int]]
       \<lparr>items_m = \<lparr>raw_ptr_m = Some 0\<rparr>, size_m = 3, capacity_m = 3\<rparr> =
     Inr ([None], \<lparr>items_m = \<lparr>raw_ptr_m = Some 0\<rparr>, size_m = 3, capacity_m = 3\<rparr>,
          SimpleVector_default)"
    by code_simp
  have 5: "At \<lparr>items_m = \<lparr>raw_ptr_m = Some 0\<rparr>, size_m = 3, capacity_m = 3\<rparr> 0 = Inr (Ptr (Some 0) 0)"
     "load [Some [1, 2, 3 :: int]] (Ptr (Some 0) 0) = Inr 1"
     "load ([None] :: int heap) (Ptr (Some 0) 0) = Inl undefined_behaviour"
     "GetCapacity SimpleVector_default = 0"
     "GetCapacity \<lparr>items_m = \<lparr>raw_ptr_m = Some 1\<rparr>, size_m = 0, capacity_m = 3\<rparr> = 3"
    by (simp_all add: At_def ArrayPtr_index_def load_def block_def GetCapacity_def
        SimpleVector_default_def)
  show ?thesis
    using 1 2 3 4 5 by simp
qed

section \<open>Owned-buffer move\<close>

text \<open>
  C3, as the claim states it, fails: move-assigning \<open>b\<close> into \<open>a\<close> when \<open>a\<close> owns
  allocation 1 and \<open>b\<close> owns allocation 2 leaves \<open>b\<close> owning allocation 1, not empty.
\<close>

theorem C3_move_assign_source_not_empty:
  "raw_ptr_m (ArrayPtr_move_assign
                ((\<lambda>i. ArrayPtr_default)(0 := \<lparr>raw_ptr_m = Some 1\<rparr>, 1 := \<lparr>raw_ptr_m = Some 2\<rparr>))
                0 1 1) = Some 1"
  by (simp add: ArrayPtr_move_assign_def ArrayPtr_swap_def)

text \<open>
  C3, amended. Move-assigning \<open>b\<close> into \<open>a\<close> exchanges what the two buffers own:
  \<open>a\<close> owns what \<open>b\<close> owned and \<open>b\<close> owns what \<open>a\<close> owned (so \<open>b\<close> is left empty
  exactly when \<open>a\<close> was empty), and no other buffer changes. Move-construction from
  \<open>b\<close> gives a buffer owning what \<open>b\<close> owned and leaves \<open>b\<close> empty. Self-move-assignment
  leaves the buffer, and every other one, unchanged.
\<close>

theorem C3_ArrayPtr_move:
  "raw_ptr_m (ArrayPtr_move_assign s a b a) = raw_ptr_m (s b) \<and>
   raw_ptr_m (ArrayPtr_move_assign s a b b) = raw_ptr_m (s a) \<and>
   ArrayPtr_move_assign s a b c = (if c = a then s b else if c = b then s a else s c) \<and>
   raw_ptr_m (fst (ArrayPtr_move b0)) = raw_ptr_m b0 \<and>
   raw_ptr_m (snd (ArrayPtr_move b0)) = None \<and>
   ArrayPtr_move_assign s a a = s"
  by (auto simp: ArrayPtr_move_assign_def ArrayPtr_swap_def ArrayPtr_move_def Let_def)

end
